(* ===== verification/Prelude.thy ===== *)
theory Prelude
  imports Complex_Main "HOL-Library.Char_ord" "HOL-Library.List_Lexorder"
    "HOL-Library.Product_Lexorder" "HOL-Library.Sublist"
begin

text \<open>
  Vocabulary shared by the component theories: exceptions as sums, a state monad with
  exceptions for the operations that mutate a class and may throw, the members of
  \<^verbatim>\<open>std::string\<close> the agent uses, and the fact collections that carry the proofs.

  A C++ function that may throw an \<open>'e\<close> is a function into \<open>'e + 'a\<close>, where \<open>Inl\<close> is the
  exception and \<open>Inr\<close> the normal return.  A method that also changes its object is a
  function \<open>'s \<Rightarrow> ('e + 'a) \<times> 's\<close>: the state reached is kept when an exception leaves the
  method, as in C++ (there is no rollback).
\<close>

named_theorems exc_simps "equations of the exception combinators"
named_theorems str_simps "equations of the std::string operations"
named_theorems wf_intros "introduction rules of the well-formedness predicates"
named_theorems keeps_rules "what keeps an invariant of the state"
named_theorems throws_rules "which exceptions leave a method"
named_theorems gives_rules "what a method returns"

section \<open>Exceptions as sums\<close>

definition bindE :: "'e + 'a \<Rightarrow> ('a \<Rightarrow> 'e + 'b) \<Rightarrow> 'e + 'b" where
  "bindE m f = (case m of Inl e \<Rightarrow> Inl e | Inr x \<Rightarrow> f x)"

text \<open>A loop over a container whose body may throw: the first exception ends it.\<close>

fun mapE :: "('a \<Rightarrow> 'e + 'b) \<Rightarrow> 'a list \<Rightarrow> 'e + 'b list" where
  "mapE f [] = Inr []"
| "mapE f (x # xs) = bindE (f x) (\<lambda>y. bindE (mapE f xs) (\<lambda>ys. Inr (y # ys)))"

fun foldE :: "('a \<Rightarrow> 's \<Rightarrow> 'e + 's) \<Rightarrow> 'a list \<Rightarrow> 's \<Rightarrow> 'e + 's" where
  "foldE f [] s = Inr s"
| "foldE f (x # xs) s = bindE (f x s) (foldE f xs)"

lemma bindE_simps [simp, exc_simps]:
  "bindE (Inl e) f = Inl e"
  "bindE (Inr x) f = f x"
  by (simp_all add: bindE_def)

lemma bindE_eq_Inr_iff [exc_simps]: "bindE m f = Inr y \<longleftrightarrow> (\<exists>x. m = Inr x \<and> f x = Inr y)"
  by (cases m) auto

lemma bindE_eq_Inl_iff [exc_simps]:
  "bindE m f = Inl e \<longleftrightarrow> m = Inl e \<or> (\<exists>x. m = Inr x \<and> f x = Inl e)"
  by (cases m) auto

lemma bindE_cong [fundef_cong]:
  "m = m' \<Longrightarrow> (\<And>x. m' = Inr x \<Longrightarrow> f x = f' x) \<Longrightarrow> bindE m f = bindE m' f'"
  by (cases m') auto

lemma mapE_Inr_iff:
  "mapE f xs = Inr ys \<longleftrightarrow> list_all2 (\<lambda>x y. f x = Inr y) xs ys"
proof (induction xs arbitrary: ys)
  case (Cons x xs)
  then show ?case by (cases ys) (auto simp: exc_simps)
qed auto

lemma mapE_map_Inr [simp]: "mapE (\<lambda>x. Inr (g x)) xs = Inr (map g xs)"
  by (induction xs) auto

lemma mapE_Inr_length: "mapE f xs = Inr ys \<Longrightarrow> length ys = length xs"
  by (auto simp: mapE_Inr_iff dest: list_all2_lengthD)

lemma foldE_append [simp]: "foldE f (xs @ ys) s = bindE (foldE f xs s) (foldE f ys)"
  by (induction xs arbitrary: s) (auto simp: bindE_def split: sum.splits)

section \<open>Methods that mutate and may throw\<close>

type_synonym ('s, 'e, 'a) meth = "'s \<Rightarrow> ('e + 'a) \<times> 's"

definition returnM :: "'a \<Rightarrow> ('s, 'e, 'a) meth" where
  "returnM x = (\<lambda>s. (Inr x, s))"

definition throwM :: "'e \<Rightarrow> ('s, 'e, 'a) meth" where
  "throwM e = (\<lambda>s. (Inl e, s))"

definition bindM :: "('s, 'e, 'a) meth \<Rightarrow> ('a \<Rightarrow> ('s, 'e, 'b) meth) \<Rightarrow> ('s, 'e, 'b) meth" where
  "bindM m f = (\<lambda>s. case m s of (Inl e, t) \<Rightarrow> (Inl e, t) | (Inr x, t) \<Rightarrow> f x t)"

text \<open>\<open>catchM m h\<close> is a try block: the handler runs in the state the exception left.\<close>

definition catchM :: "('s, 'e, 'a) meth \<Rightarrow> ('e \<Rightarrow> ('s, 'f, 'a) meth) \<Rightarrow> ('s, 'f, 'a) meth" where
  "catchM m h = (\<lambda>s. case m s of (Inl e, t) \<Rightarrow> h e t | (Inr x, t) \<Rightarrow> (Inr x, t))"

text \<open>A computation that only throws, used inside a method.\<close>

definition liftM :: "'e + 'a \<Rightarrow> ('s, 'e, 'a) meth" where
  "liftM m = (\<lambda>s. (m, s))"

definition getM :: "('s \<Rightarrow> 'a) \<Rightarrow> ('s, 'e, 'a) meth" where
  "getM g = (\<lambda>s. (Inr (g s), s))"

definition modifyM :: "('s \<Rightarrow> 's) \<Rightarrow> ('s, 'e, unit) meth" where
  "modifyM g = (\<lambda>s. (Inr (), g s))"

fun mapM :: "('a \<Rightarrow> ('s, 'e, 'b) meth) \<Rightarrow> 'a list \<Rightarrow> ('s, 'e, 'b list) meth" where
  "mapM f [] = returnM []"
| "mapM f (x # xs) = bindM (f x) (\<lambda>y. bindM (mapM f xs) (\<lambda>ys. returnM (y # ys)))"

lemma meth_simps [exc_simps]:
  "returnM x s = (Inr x, s)"
  "throwM e s = (Inl e, s)"
  "liftM r s = (r, s)"
  "getM g s = (Inr (g s), s)"
  "modifyM h s = (Inr (), h s)"
  "bindM m f s = (case m s of (Inl e, t) \<Rightarrow> (Inl e, t) | (Inr x, t) \<Rightarrow> f x t)"
  by (simp_all add: returnM_def throwM_def liftM_def getM_def modifyM_def bindM_def)

lemma bindM_return [simp]: "bindM (returnM x) f = f x" "bindM m returnM = m"
  by (auto simp: bindM_def returnM_def fun_eq_iff split: prod.splits sum.splits)

lemma bindM_throw [simp]: "bindM (throwM e) f = throwM e"
  by (auto simp: bindM_def throwM_def)

lemma bindM_lift [simp]: "bindM (liftM (Inr x)) f = f x" "bindM (liftM (Inl e)) f = throwM e"
  by (auto simp: bindM_def liftM_def throwM_def)

lemma bindM_assoc: "bindM (bindM m f) g = bindM m (\<lambda>x. bindM (f x) g)"
  by (auto simp: bindM_def fun_eq_iff split: prod.splits sum.splits)

lemma bindM_Inr: "bindM m f s = (Inr y, t) \<longleftrightarrow> (\<exists>x s'. m s = (Inr x, s') \<and> f x s' = (Inr y, t))"
  by (auto simp: bindM_def split: prod.splits sum.splits)

lemma bindM_Inl:
  "bindM m f s = (Inl e, t) \<longleftrightarrow> m s = (Inl e, t) \<or> (\<exists>x s'. m s = (Inr x, s') \<and> f x s' = (Inl e, t))"
  by (auto simp: bindM_def split: prod.splits sum.splits)

lemma catchM_Inr:
  "catchM m h s = (Inr y, t) \<longleftrightarrow> m s = (Inr y, t) \<or> (\<exists>e s'. m s = (Inl e, s') \<and> h e s' = (Inr y, t))"
  by (auto simp: catchM_def split: prod.splits sum.splits)

lemma catchM_Inl: "catchM m h s = (Inl e, t) \<longleftrightarrow> (\<exists>e' s'. m s = (Inl e', s') \<and> h e' s' = (Inl e, t))"
  by (auto simp: catchM_def split: prod.splits sum.splits)

lemmas meth_results = bindM_Inr bindM_Inl catchM_Inr catchM_Inl

text \<open>
  \<open>keeps I m\<close>: the method keeps the invariant, also when it throws.  \<open>throws X m\<close>: every exception that
  leaves it satisfies \<open>X\<close>.  \<open>gives R m\<close>: every value it returns satisfies \<open>R\<close>.  There is one rule per combinator; the proofs about a method follow its text.
\<close>

definition keeps :: "('s \<Rightarrow> bool) \<Rightarrow> ('s, 'e, 'a) meth \<Rightarrow> bool" where
  "keeps I m \<longleftrightarrow> (\<forall>s. I s \<longrightarrow> I (snd (m s)))"

definition throws :: "('e \<Rightarrow> bool) \<Rightarrow> ('s, 'e, 'a) meth \<Rightarrow> bool" where
  "throws X m \<longleftrightarrow> (\<forall>s e t. m s = (Inl e, t) \<longrightarrow> X e)"

lemma keepsD: "keeps I m \<Longrightarrow> m s = (x, t) \<Longrightarrow> I s \<Longrightarrow> I t"
  by (fastforce simp: keeps_def)

lemma throwsD: "throws X m \<Longrightarrow> m s = (Inl e, t) \<Longrightarrow> X e"
  by (auto simp: throws_def)

lemma keeps_basic [keeps_rules]:
  "keeps I (returnM x)" "keeps I (throwM e)" "keeps I (liftM r)" "keeps I (getM g)"
  by (simp_all add: keeps_def meth_simps)

lemma keeps_modify [keeps_rules]: "(\<And>s. I s \<Longrightarrow> I (f s)) \<Longrightarrow> keeps I (modifyM f)"
  by (simp add: keeps_def meth_simps)

lemma keeps_bind [keeps_rules]: "keeps I m \<Longrightarrow> (\<And>x. keeps I (f x)) \<Longrightarrow> keeps I (bindM m f)"
  unfolding keeps_def bindM_def by (force split: prod.splits sum.splits)

lemma keeps_bind_result:
  "keeps I m \<Longrightarrow> (\<And>x s t. m s = (Inr x, t) \<Longrightarrow> keeps I (f x)) \<Longrightarrow> keeps I (bindM m f)"
  unfolding keeps_def bindM_def by (force split: prod.splits sum.splits)

lemma keeps_bind_state:
  "keeps I m \<Longrightarrow> (\<And>x s t. I s \<Longrightarrow> m s = (Inr x, t) \<Longrightarrow> keeps I (f x)) \<Longrightarrow> keeps I (bindM m f)"
  unfolding keeps_def bindM_def by (force split: prod.splits sum.splits)

lemma keeps_catch [keeps_rules]: "keeps I m \<Longrightarrow> (\<And>e. keeps I (h e)) \<Longrightarrow> keeps I (catchM m h)"
  unfolding keeps_def catchM_def by (force split: prod.splits sum.splits)

lemma keeps_if [keeps_rules]: "(b \<Longrightarrow> keeps I m) \<Longrightarrow> (\<not> b \<Longrightarrow> keeps I n) \<Longrightarrow> keeps I (if b then m else n)"
  by simp

lemma keeps_option [keeps_rules]:
  "keeps I m \<Longrightarrow> (\<And>x. keeps I (f x)) \<Longrightarrow> keeps I (case v of None \<Rightarrow> m | Some x \<Rightarrow> f x)"
  by (simp split: option.split)

lemma keeps_mapM [keeps_rules]: "(\<And>x. keeps I (f x)) \<Longrightarrow> keeps I (mapM f xs)"
  by (induction xs) (auto intro!: keeps_rules)

lemma throws_basic [throws_rules]:
  "throws X (returnM x)" "throws X (getM g)" "throws X (modifyM f)"
  by (simp_all add: throws_def meth_simps)

lemma throws_throw [throws_rules]: "X e \<Longrightarrow> throws X (throwM e)"
  by (simp add: throws_def meth_simps)

lemma throws_bind [throws_rules]: "throws X m \<Longrightarrow> (\<And>x. throws X (f x)) \<Longrightarrow> throws X (bindM m f)"
  unfolding throws_def meth_results by blast

text \<open>The handler only sees what leaves the block.\<close>

lemma throws_catch: "throws Y m \<Longrightarrow> (\<And>e. Y e \<Longrightarrow> throws X (h e)) \<Longrightarrow> throws X (catchM m h)"
  unfolding throws_def meth_results by blast

lemma throws_if [throws_rules]:
  "(b \<Longrightarrow> throws X m) \<Longrightarrow> (\<not> b \<Longrightarrow> throws X n) \<Longrightarrow> throws X (if b then m else n)"
  by simp

lemma throws_option [throws_rules]:
  "throws X m \<Longrightarrow> (\<And>x. throws X (f x)) \<Longrightarrow> throws X (case v of None \<Rightarrow> m | Some x \<Rightarrow> f x)"
  by (simp split: option.split)

lemma throws_mapM [throws_rules]: "(\<And>x. throws X (f x)) \<Longrightarrow> throws X (mapM f xs)"
  by (induction xs) (auto intro!: throws_rules)

lemma throws_any: "throws (\<lambda>e. True) m"
  by (simp add: throws_def)

lemma throws_mono: "throws Y m \<Longrightarrow> (\<And>e. Y e \<Longrightarrow> X e) \<Longrightarrow> throws X m"
  by (auto simp: throws_def)

definition gives :: "('a \<Rightarrow> bool) \<Rightarrow> ('s, 'e, 'a) meth \<Rightarrow> bool" where
  "gives R m \<longleftrightarrow> (\<forall>s x t. m s = (Inr x, t) \<longrightarrow> R x)"

lemma givesD: "gives R m \<Longrightarrow> m s = (Inr x, t) \<Longrightarrow> R x"
  by (auto simp: gives_def)

lemma gives_return [gives_rules]: "R x \<Longrightarrow> gives R (returnM x)"
  by (simp add: gives_def meth_simps)

lemma gives_throw [gives_rules]: "gives R (throwM e)"
  by (simp add: gives_def meth_simps)

lemma gives_bind [gives_rules]: "(\<And>x. gives R (f x)) \<Longrightarrow> gives R (bindM m f)"
  unfolding gives_def meth_results by blast

lemma gives_bind_result: "gives Q m \<Longrightarrow> (\<And>x. Q x \<Longrightarrow> gives R (f x)) \<Longrightarrow> gives R (bindM m f)"
  unfolding gives_def meth_results by blast

lemma gives_catch [gives_rules]: "gives R m \<Longrightarrow> (\<And>e. gives R (h e)) \<Longrightarrow> gives R (catchM m h)"
  unfolding gives_def meth_results by blast

lemma gives_if [gives_rules]: "(b \<Longrightarrow> gives R m) \<Longrightarrow> (\<not> b \<Longrightarrow> gives R n) \<Longrightarrow> gives R (if b then m else n)"
  by simp

lemma gives_option [gives_rules]:
  "gives R m \<Longrightarrow> (\<And>x. v = Some x \<Longrightarrow> gives R (f x)) \<Longrightarrow> gives R (case v of None \<Rightarrow> m | Some x \<Rightarrow> f x)"
  by (simp split: option.split)

lemma gives_mapM [gives_rules]: "(\<And>x. gives R (f x)) \<Longrightarrow> gives (list_all R) (mapM f xs)"
proof (induction xs)
  case (Cons x xs)
  then have "gives (list_all R) (mapM f xs)" "gives R (f x)" by blast+
  then show ?case by (auto intro!: gives_return gives_bind_result [of R "f x"] gives_bind_result [of "list_all R" "mapM f xs"])
qed (simp add: gives_rules)

section \<open>std::string\<close>

text \<open>
  \<open>find_sub p s\<close> is the position of the first occurrence of \<open>p\<close> in \<open>s\<close>; \<open>None\<close> stands for
  \<^verbatim>\<open>std::string::npos\<close>.  \<open>str_find s p pos\<close> is \<^verbatim>\<open>s.find(p, pos)\<close>.
\<close>

fun find_sub :: "string \<Rightarrow> string \<Rightarrow> nat option" where
  "find_sub p [] = (if p = [] then Some 0 else None)"
| "find_sub p (c # cs) = (if prefix p (c # cs) then Some 0 else map_option Suc (find_sub p cs))"

definition str_find :: "string \<Rightarrow> string \<Rightarrow> nat \<Rightarrow> nat option" where
  "str_find s p pos =
     (if length s < pos then None else map_option (\<lambda>i. pos + i) (find_sub p (drop pos s)))"

text \<open>\<open>str_rfind s c\<close> is \<^verbatim>\<open>s.rfind(c)\<close> for a single character.\<close>

fun str_rfind :: "string \<Rightarrow> char \<Rightarrow> nat option" where
  "str_rfind [] c = None"
| "str_rfind (d # ds) c =
     (case str_rfind ds c of Some i \<Rightarrow> Some (Suc i) | None \<Rightarrow> if d = c then Some 0 else None)"

text \<open>\<open>str_substr s pos n\<close> is \<^verbatim>\<open>s.substr(pos, n)\<close> for a position inside the string.\<close>

definition str_substr :: "string \<Rightarrow> nat \<Rightarrow> nat \<Rightarrow> string" where
  "str_substr s pos n = take n (drop pos s)"

lemma prefix_take: "prefix p s \<Longrightarrow> length p \<le> length s \<and> take (length p) s = p"
  by (auto simp: prefix_def)

lemma find_sub_Some:
  assumes "find_sub p s = Some i"
  shows "i + length p \<le> length s \<and> take (length p) (drop i s) = p"
  using assms
proof (induction s arbitrary: i)
  case (Cons c cs)
  then show ?case
    using prefix_take [of p "c # cs"] by (auto split: if_splits)
qed (auto split: if_splits)

lemma find_sub_first:
  assumes "find_sub p s = Some i" and "j < i"
  shows "\<not> prefix p (drop j s)"
  using assms
proof (induction s arbitrary: i j)
  case (Cons c cs)
  then show ?case
    by (cases j) (auto split: if_splits)
qed (auto split: if_splits)

lemma find_sub_None:
  "find_sub p s = None \<longleftrightarrow> (\<forall>j. j \<le> length s \<longrightarrow> \<not> prefix p (drop j s))"
proof (induction s)
  case (Cons c cs)
  have "(\<forall>j. j \<le> length (c # cs) \<longrightarrow> \<not> prefix p (drop j (c # cs))) \<longleftrightarrow>
      \<not> prefix p (c # cs) \<and> (\<forall>j. j \<le> length cs \<longrightarrow> \<not> prefix p (drop j cs))"
    by (auto simp: less_Suc_eq_le all_conj_distrib split: nat.splits)
      (metis drop0 drop_Suc_Cons le0 not0_implies_Suc Suc_le_mono)+
  with Cons show ?case by simp
qed auto

lemma str_find_Some:
  assumes "str_find s p pos = Some i"
  shows "pos \<le> i \<and> i + length p \<le> length s \<and> take (length p) (drop i s) = p"
  using assms find_sub_Some [of p "drop pos s"]
  by (fastforce simp: str_find_def add.commute split: if_splits)

lemma str_find_empty_iff [str_simps]: "str_find s p 0 = find_sub p s"
  by (cases "find_sub p s") (simp_all add: str_find_def)

lemma find_sub_zero_iff: "find_sub p s = Some 0 \<longleftrightarrow> prefix p s"
  by (cases s) auto

lemma str_rfind_None: "str_rfind s c = None \<longleftrightarrow> c \<notin> set s"
  by (induction s) (auto split: option.splits)

lemma str_rfind_Some:
  "str_rfind s c = Some i \<Longrightarrow> i < length s \<and> s ! i = c \<and> c \<notin> set (drop (Suc i) s)"
  by (induction s arbitrary: i) (auto simp: str_rfind_None split: option.splits if_splits)

section \<open>Decimal output\<close>

text \<open>What an output stream and \<^verbatim>\<open>std::to_string\<close> print for an integer.\<close>

definition digit_char :: "nat \<Rightarrow> char" where
  "digit_char d = char_of (48 + d)"

fun show_nat :: "nat \<Rightarrow> string" where
  "show_nat n = (if n < 10 then [digit_char n] else show_nat (n div 10) @ [digit_char (n mod 10)])"

declare show_nat.simps [simp del]

definition show_int :: "int \<Rightarrow> string" where
  "show_int i = (if i < 0 then CHR ''-'' # show_nat (nat (- i)) else show_nat (nat i))"

definition digit_val :: "char \<Rightarrow> nat" where
  "digit_val c = of_char c - 48"

definition is_digit :: "char \<Rightarrow> bool" where
  "is_digit c = (48 \<le> (of_char c :: nat) \<and> of_char c \<le> (57 :: nat))"

text \<open>The number a string of digits denotes.\<close>

definition read_nat :: "string \<Rightarrow> nat" where
  "read_nat s = foldl (\<lambda>n c. 10 * n + digit_val c) 0 s"

lemma digit_char [simp]:
  assumes "d < 10"
  shows "digit_val (digit_char d) = d" and "is_digit (digit_char d)"
  using assms by (simp_all add: digit_val_def digit_char_def is_digit_def)

lemma read_nat_snoc [simp]: "read_nat (s @ [c]) = 10 * read_nat s + digit_val c"
  by (simp add: read_nat_def)

lemma read_nat_single [simp]: "read_nat [c] = digit_val c"
  by (simp add: read_nat_def)

lemma read_show_nat [simp]: "read_nat (show_nat n) = n"
proof (induction n rule: show_nat.induct)
  case (1 n)
  then show ?case by (cases "n < 10") (simp_all add: show_nat.simps [of n])
qed

lemma show_nat_digits: "c \<in> set (show_nat n) \<Longrightarrow> is_digit c"
proof (induction n rule: show_nat.induct)
  case (1 n)
  then show ?case by (cases "n < 10") (auto simp: show_nat.simps [of n])
qed

lemma show_nat_inject [simp]: "show_nat m = show_nat n \<longleftrightarrow> m = n"
  by (metis read_show_nat)

end
