(* ===== verification/Std_Map.thy ===== *)
theory Std_Map
  imports Prelude
begin

text \<open>
  \<^verbatim>\<open>std::map\<close> as the program uses it.  A map is the list of its pairs in iteration order,
  which the standard fixes to ascending keys, so \<open>map_ok\<close> (strictly ascending keys) is the
  invariant every operation keeps.  Iteration order is observable in the agent: it is the order
  in which JSON fields are serialised, metadata entries are batched and services are listed.

  The locale \<open>dictionary\<close> is the contract the components rely on: what \<open>find\<close> returns after
  each mutation.  Its client lemmas are proved once; the interpretation \<open>sm\<close> provides
  them for the sorted lists.
\<close>

type_synonym ('k, 'v) std_map = "('k \<times> 'v) list"

definition map_ok :: "('k::linorder, 'v) std_map \<Rightarrow> bool" where
  "map_ok m = sorted_wrt (<) (map fst m)"

text \<open>\<^verbatim>\<open>m.emplace(k, v)\<close>: inserts only if the key is absent.\<close>

fun map_emplace :: "'k::linorder \<Rightarrow> 'v \<Rightarrow> ('k, 'v) std_map \<Rightarrow> ('k, 'v) std_map" where
  "map_emplace k v [] = [(k, v)]"
| "map_emplace k v ((a, b) # m) =
     (if k < a then (k, v) # (a, b) # m
      else if k = a then (a, b) # m
      else (a, b) # map_emplace k v m)"

text \<open>\<^verbatim>\<open>m.erase(k)\<close>.\<close>

fun map_erase :: "'k::linorder \<Rightarrow> ('k, 'v) std_map \<Rightarrow> ('k, 'v) std_map" where
  "map_erase k [] = []"
| "map_erase k ((a, b) # m) = (if k = a then m else (a, b) # map_erase k m)"

text \<open>
  \<^verbatim>\<open>auto it = m.emplace(k, _); it.first->second = v\<close>: the value is stored whether or not
  the key was there.
\<close>

fun map_assign :: "'k::linorder \<Rightarrow> 'v \<Rightarrow> ('k, 'v) std_map \<Rightarrow> ('k, 'v) std_map" where
  "map_assign k v [] = [(k, v)]"
| "map_assign k v ((a, b) # m) =
     (if k < a then (k, v) # (a, b) # m
      else if k = a then (a, v) # m
      else (a, b) # map_assign k v m)"

definition map_emplace_all :: "('k::linorder \<times> 'v) list \<Rightarrow> ('k, 'v) std_map \<Rightarrow> ('k, 'v) std_map"
  where "map_emplace_all kvs m = fold (\<lambda>(k, v). map_emplace k v) kvs m"

section \<open>The contract\<close>

locale dictionary =
  fixes empty :: 'm
    and find :: "'m \<Rightarrow> 'k \<Rightarrow> 'v option"
    and emplace :: "'k \<Rightarrow> 'v \<Rightarrow> 'm \<Rightarrow> 'm"
    and assign :: "'k \<Rightarrow> 'v \<Rightarrow> 'm \<Rightarrow> 'm"
    and erase :: "'k \<Rightarrow> 'm \<Rightarrow> 'm"
    and ok :: "'m \<Rightarrow> bool"
  assumes ok_empty: "ok empty"
    and ok_emplace: "ok m \<Longrightarrow> ok (emplace k v m)"
    and ok_assign: "ok m \<Longrightarrow> ok (assign k v m)"
    and ok_erase: "ok m \<Longrightarrow> ok (erase k m)"
    and find_empty: "find empty k = None"
    and find_emplace: "ok m \<Longrightarrow> find (emplace k v m) =
          (case find m k of None \<Rightarrow> (find m)(k \<mapsto> v) | Some _ \<Rightarrow> find m)"
    and find_assign: "ok m \<Longrightarrow> find (assign k v m) = (find m)(k \<mapsto> v)"
    and find_erase: "ok m \<Longrightarrow> find (erase k m) = (find m)(k := None)"
begin

text \<open>A forced update written as erase followed by emplace is an assignment.\<close>

lemma find_erase_emplace:
  "ok m \<Longrightarrow> find (emplace k v (erase k m)) = (find m)(k \<mapsto> v)"
  by (simp add: find_emplace find_erase ok_erase)

lemma ok_fold_emplace: "ok m \<Longrightarrow> ok (fold (\<lambda>(k, v). emplace k v) kvs m)"
  by (induction kvs arbitrary: m) (auto intro: ok_emplace)

text \<open>In a sequence of emplacements the first value for a key stays.\<close>

lemma find_fold_emplace:
  "ok m \<Longrightarrow> find (fold (\<lambda>(k, v). emplace k v) kvs m) k =
     (case find m k of Some v \<Rightarrow> Some v | None \<Rightarrow> map_of kvs k)"
proof (induction kvs arbitrary: m)
  case (Cons kv kvs)
  obtain a b where kv: "kv = (a, b)" by fastforce
  have "find (fold (\<lambda>(k, v). emplace k v) kvs (emplace a b m)) k =
      (case find (emplace a b m) k of Some v \<Rightarrow> Some v | None \<Rightarrow> map_of kvs k)"
    using Cons.IH ok_emplace [OF Cons.prems] by blast
  then show ?case
    using find_emplace [OF Cons.prems, of a b] by (auto simp: kv split: option.splits)
qed (auto split: option.splits)

end

section \<open>Sorted lists implement it\<close>

lemma map_ok_Nil [simp, wf_intros]: "map_ok []"
  by (simp add: map_ok_def)

lemma map_ok_Cons: "map_ok ((a, b) # m) \<longleftrightarrow> (\<forall>k \<in> fst ` set m. a < k) \<and> map_ok m"
  by (auto simp: map_ok_def)

lemma map_ok_distinct: "map_ok m \<Longrightarrow> distinct (map fst m)"
  by (auto simp: map_ok_def strict_sorted_iff)

lemma fst_set_map_emplace: "fst ` set (map_emplace k v m) = insert k (fst ` set m)"
  by (induction k v m rule: map_emplace.induct) (auto simp: image_iff)

lemma fst_set_map_assign: "fst ` set (map_assign k v m) = insert k (fst ` set m)"
  by (induction k v m rule: map_assign.induct) (auto simp: image_iff)

lemma set_map_erase: "set (map_erase k m) \<subseteq> set m"
  by (induction k m rule: map_erase.induct) auto

lemma map_ok_emplace [wf_intros]: "map_ok m \<Longrightarrow> map_ok (map_emplace k v m)"
  by (induction k v m rule: map_emplace.induct)
    (auto simp: map_ok_Cons fst_set_map_emplace)

lemma map_ok_assign [wf_intros]: "map_ok m \<Longrightarrow> map_ok (map_assign k v m)"
  by (induction k v m rule: map_assign.induct)
    (auto simp: map_ok_Cons fst_set_map_assign)

lemma map_ok_erase [wf_intros]: "map_ok m \<Longrightarrow> map_ok (map_erase k m)"
  by (induction k m rule: map_erase.induct)
    (auto simp: map_ok_Cons dest: set_map_erase [THEN subsetD])

lemma map_ok_filter [wf_intros]: "map_ok m \<Longrightarrow> map_ok (filter P m)"
  by (induction m) (auto simp: map_ok_Cons)

lemma map_ok_map_snd [wf_intros, simp]: "map_ok (map (\<lambda>(k, v). (k, f k v)) m) = map_ok m"
  by (simp add: map_ok_def comp_def split_def)

lemma map_of_notin: "\<forall>k \<in> fst ` set m. a < k \<Longrightarrow> k \<le> a \<Longrightarrow> map_of m k = None"
  for a :: "'k::linorder"
  by (auto simp: map_of_eq_None_iff)

lemma map_of_map_emplace:
  "map_ok m \<Longrightarrow> map_of (map_emplace k v m) =
     (case map_of m k of None \<Rightarrow> (map_of m)(k \<mapsto> v) | Some _ \<Rightarrow> map_of m)"
proof (induction k v m rule: map_emplace.induct)
  case (2 k v a b m)
  then show ?case
    by (auto simp: map_ok_Cons fun_eq_iff map_of_notin split: option.splits)
qed auto

lemma map_of_map_assign: "map_ok m \<Longrightarrow> map_of (map_assign k v m) = (map_of m)(k \<mapsto> v)"
  by (induction k v m rule: map_assign.induct) (auto simp: map_ok_Cons fun_eq_iff)

lemma map_of_map_erase: "map_ok m \<Longrightarrow> map_of (map_erase k m) = (map_of m)(k := None)"
  by (induction k m rule: map_erase.induct) (auto simp: map_ok_Cons fun_eq_iff map_of_notin)

interpretation sm: dictionary "[]" map_of map_emplace map_assign map_erase map_ok
  by unfold_locales
    (simp_all add: wf_intros map_of_map_emplace map_of_map_assign map_of_map_erase)

text \<open>A map is determined by its lookups.\<close>

lemma map_ok_unique:
  assumes "map_ok m" and "map_ok m'" and "map_of m = map_of m'"
  shows "m = m'"
proof -
  have s: "set m = set m'"
    using assms map_ok_distinct
    by (metis map_of_eqI map_of_inject_set set_map)
  have "map fst m = map fst m'"
    using assms s by (simp add: map_ok_def) (metis list.set_map strict_sorted_equal)
  moreover have "map snd m = map snd m'" if "map fst m = map fst m'"
    using s that map_ok_distinct [OF assms(1)] map_ok_distinct [OF assms(2)] assms(3)
    by (metis map_of_inject_set map_of_zip_inject zip_map_fst_snd length_map)
  ultimately show ?thesis
    by (metis zip_map_fst_snd)
qed

lemma map_emplace_last:
  "\<forall>a \<in> fst ` set m. a < k \<Longrightarrow> map_emplace k v m = m @ [(k, v)]"
  by (induction k v m rule: map_emplace.induct) auto

text \<open>Copying a map by emplacing its pairs in iteration order rebuilds it.\<close>

lemma map_emplace_all_rebuild:
  assumes "map_ok (m @ kvs)"
  shows "map_emplace_all kvs m = m @ kvs"
  using assms
proof (induction kvs arbitrary: m)
  case (Cons kv kvs)
  obtain k v where kv: "kv = (k, v)" by fastforce
  with Cons.prems have "\<forall>a \<in> fst ` set m. a < k"
    by (auto simp: map_ok_def sorted_wrt_append)
  with Cons.IH [of "m @ [kv]"] Cons.prems show ?case
    by (simp add: map_emplace_all_def kv map_emplace_last)
qed (simp add: map_emplace_all_def)

lemmas map_emplace_all_copy = map_emplace_all_rebuild [of "[]", simplified]

lemma map_ok_emplace_all [wf_intros]: "map_ok m \<Longrightarrow> map_ok (map_emplace_all kvs m)"
  unfolding map_emplace_all_def by (rule sm.ok_fold_emplace)

lemma map_of_emplace_all:
  "map_ok m \<Longrightarrow> map_of (map_emplace_all kvs m) k =
     (case map_of m k of Some v \<Rightarrow> Some v | None \<Rightarrow> map_of kvs k)"
  unfolding map_emplace_all_def by (rule sm.find_fold_emplace)

lemma set_map_emplace: "set (map_emplace k v m) \<subseteq> insert (k, v) (set m)"
  by (induction k v m rule: map_emplace.induct) auto

lemma set_map_assign: "set (map_assign k v m) \<subseteq> insert (k, v) (set m)"
  by (induction k v m rule: map_assign.induct) auto

lemma set_map_emplace_all: "set (map_emplace_all kvs m) \<subseteq> set kvs \<union> set m"
proof (induction kvs arbitrary: m)
  case (Cons kv kvs)
  then show ?case
    using set_map_emplace [of "fst kv" "snd kv" m]
    by (fastforce simp: map_emplace_all_def split_def)
qed (simp add: map_emplace_all_def)

lemma map_of_filter_snd:
  "distinct (map fst m) \<Longrightarrow> map_of (filter (\<lambda>(k, v). P v) m) k =
     (case map_of m k of Some v \<Rightarrow> if P v then Some v else None | None \<Rightarrow> None)"
  by (induction m) (auto simp: map_of_eq_None_iff split: option.splits)

end
