(* ===== verification/Json.thy ===== *)
theory Json
  imports Std_Map
begin

text \<open>
  The JSON library of the agent (\<^verbatim>\<open>src/json.h\<close>, \<^verbatim>\<open>src/json.cc\<close>): values, the checked downcast
  and the field accessors with their exceptions, cloning, serialisation, the builder that
  turns parser callbacks into values, and the parser entry points.

  The lexer and the generator are the third-party library yajl.  Serialisation is modelled up
  to the sequence of \<^verbatim>\<open>yajl_gen_*\<close> calls (\<open>gen_event\<close>) and parsing from the sequence of
  callbacks on (\<open>cb_event\<close>); the functions of yajl itself are parameters (\<open>render\<close>, which
  gives the buffer after a sequence of generator calls, and the record \<open>yajl\<close>).
\<close>

section \<open>Values\<close>

text \<open>
  A \<^verbatim>\<open>long double\<close>.  Every finite value is a rational; the negative zero, the infinities and
  NaN are kept apart because the serialiser's integer test distinguishes them.
\<close>

datatype ldouble = Fin rat | NegZero | Inf bool | NaN

datatype json =
    Null
  | Boolean bool
  | Number ldouble
  | String string
  | Array "json list"
  | Object "(string, json) std_map"

datatype json_type = NullType | BooleanType | NumberType | StringType | ArrayType | ObjectType

type_synonym json_object = "(string, json) std_map"

fun type_of :: "json \<Rightarrow> json_type" where
  "type_of Null = NullType"
| "type_of (Boolean b) = BooleanType"
| "type_of (Number n) = NumberType"
| "type_of (String s) = StringType"
| "type_of (Array es) = ArrayType"
| "type_of (Object fs) = ObjectType"

fun type_name :: "json_type \<Rightarrow> string" where
  "type_name NullType = ''null''"
| "type_name BooleanType = ''boolean''"
| "type_name NumberType = ''number''"
| "type_name StringType = ''string''"
| "type_name ArrayType = ''array''"
| "type_name ObjectType = ''object''"

definition article :: "char \<Rightarrow> string" where
  "article f = (if f \<in> set ''aeiou'' then ''an'' else ''a'')"

text \<open>A field of a \<^verbatim>\<open>json::Object\<close> is sorted by key; \<open>json_ok\<close> says so of every object in a value.\<close>

fun json_ok :: "json \<Rightarrow> bool" where
  "json_ok (Array es) = list_all json_ok es"
| "json_ok (Object fs) = (map_ok fs \<and> list_all (\<lambda>kv. json_ok (snd kv)) fs)"
| "json_ok _ = True"

section \<open>Construction\<close>

text \<open>
  The container constructors take owning pointers and discard the null ones.  The
  initializer-list constructor emplaces in list order, so of two fields with one name the first
  stays.
\<close>

definition array :: "json option list \<Rightarrow> json" where
  "array elements = Array (List.map_filter id elements)"

definition object_fields :: "(string \<times> json option) list \<Rightarrow> json_object" where
  "object_fields fields =
     map_emplace_all (List.map_filter (\<lambda>(k, v). map_option (Pair k) v) fields) []"

definition object :: "(string \<times> json option) list \<Rightarrow> json" where
  "object fields = Object (object_fields fields)"

definition object_of_map :: "(string, json option) std_map \<Rightarrow> json" where
  "object_of_map fields =
     Object (map_emplace_all (List.map_filter (\<lambda>(k, v). map_option (Pair k) v) fields) [])"

fun Clone :: "json \<Rightarrow> json" where
  "Clone Null = Null"
| "Clone (Boolean b) = Boolean b"
| "Clone (Number n) = Number n"
| "Clone (String s) = String s"
| "Clone (Array es) = Array (map Clone es)"
| "Clone (Object fs) = Object (map_emplace_all (map (\<lambda>kv. (fst kv, Clone (snd kv))) fs) [])"

text \<open>The null-robust \<^verbatim>\<open>json::Clone\<close>.\<close>

definition Clone_ptr :: "json option \<Rightarrow> json option" where
  "Clone_ptr v = (case v of None \<Rightarrow> None | Some x \<Rightarrow> Some (Clone x))"

section \<open>Serialisation\<close>

datatype gen_event =
    GenNull
  | GenBool bool
  | GenInteger int
  | GenDouble ldouble
  | GenString string
  | GenArrayOpen
  | GenArrayClose
  | GenMapOpen
  | GenMapClose

text \<open>
  \<^verbatim>\<open>IsEffectivelyInteger<long long>\<close>: NaN fails the comparison with its floor, the infinities
  fail the range test, and the negative zero is excluded explicitly.
\<close>

fun IsEffectivelyInteger :: "ldouble \<Rightarrow> bool" where
  "IsEffectivelyInteger (Fin q) =
     (q = of_int \<lfloor>q\<rfloor> \<and> - (2 ^ 63) \<le> q \<and> q \<le> 2 ^ 63 - 1)"
| "IsEffectivelyInteger NegZero = False"
| "IsEffectivelyInteger (Inf neg) = False"
| "IsEffectivelyInteger NaN = False"

text \<open>\<^verbatim>\<open>static_cast<long long>\<close>, used only where \<open>IsEffectivelyInteger\<close> holds.\<close>

fun as_integer :: "ldouble \<Rightarrow> int" where
  "as_integer (Fin q) = \<lfloor>q\<rfloor>"
| "as_integer _ = 0"

text \<open>
  \<open>to_double\<close> is the platform's conversion of a \<^verbatim>\<open>long double\<close> to a \<^verbatim>\<open>double\<close>.
\<close>

fun Serialize :: "(ldouble \<Rightarrow> ldouble) \<Rightarrow> json \<Rightarrow> gen_event list" where
  "Serialize to_double Null = [GenNull]"
| "Serialize to_double (Boolean b) = [GenBool b]"
| "Serialize to_double (Number n) =
     (if IsEffectivelyInteger n then [GenInteger (as_integer n)] else [GenDouble (to_double n)])"
| "Serialize to_double (String s) = [GenString s]"
| "Serialize to_double (Array es) =
     GenArrayOpen # concat (map (Serialize to_double) es) @ [GenArrayClose]"
| "Serialize to_double (Object fs) =
     GenMapOpen # concat (map (\<lambda>kv. GenString (fst kv) # Serialize to_double (snd kv)) fs)
       @ [GenMapClose]"

text \<open>
  The generator of yajl: its number conversion and the buffer it holds after a sequence of
  calls.
\<close>

record serializer =
  to_double :: "ldouble \<Rightarrow> ldouble"
  render :: "gen_event list \<Rightarrow> string"

definition ToString :: "serializer \<Rightarrow> json \<Rightarrow> string" where
  "ToString z v = render z (Serialize (to_double z) v)"

section \<open>Downcasts and field accessors\<close>

text \<open>
  \<^verbatim>\<open>json::Exception\<close> by the site that throws it; \<open>what\<close> gives the explanation it carries.
\<close>

datatype json_exception =
    NotA json json_type
  | NoField string json
  | FieldNotA string json json_type
  | ParseError string
  | Explanation string

definition type_phrase :: "json_type \<Rightarrow> string" where
  "type_phrase t = '' is not '' @ article (hd (type_name t)) @ '' '' @ type_name t"

fun what :: "serializer \<Rightarrow> json_exception \<Rightarrow> string" where
  "what z (NotA v t) = ToString z v @ type_phrase t"
| "what z (NoField f v) = ''There is no '' @ f @ '' in '' @ ToString z v"
| "what z (FieldNotA f v t) = f @ '' '' @ ToString z v @ type_phrase t"
| "what z (ParseError e) = e"
| "what z (Explanation e) = e"

definition Is :: "json_type \<Rightarrow> json \<Rightarrow> bool" where
  "Is t v = (type_of v = t)"

definition As :: "json_type \<Rightarrow> json \<Rightarrow> json_exception + json" where
  "As t v = (if Is t v then Inr v else Inl (NotA v t))"

definition Has :: "json_object \<Rightarrow> string \<Rightarrow> bool" where
  "Has obj field = (map_of obj field \<noteq> None)"

definition GetField :: "json_type \<Rightarrow> json_object \<Rightarrow> string \<Rightarrow> json_exception + json" where
  "GetField t obj field =
     (case map_of obj field of
        None \<Rightarrow> Inl (NoField field (Object obj))
      | Some v \<Rightarrow>
          if type_of v \<noteq> t then Inl (FieldNotA field v t)
          else As t v)"

text \<open>The value a typed pointer or a scalar accessor yields, per type.\<close>

fun object_val :: "json \<Rightarrow> json_object" where
  "object_val (Object fs) = fs" | "object_val _ = []"

fun array_val :: "json \<Rightarrow> json list" where
  "array_val (Array es) = es" | "array_val _ = []"

fun string_val :: "json \<Rightarrow> string" where
  "string_val (String s) = s" | "string_val _ = []"

fun boolean_val :: "json \<Rightarrow> bool" where
  "boolean_val (Boolean b) = b" | "boolean_val _ = False"

fun number_val :: "json \<Rightarrow> ldouble" where
  "number_val (Number n) = n" | "number_val _ = NaN"

definition As_Object :: "json \<Rightarrow> json_exception + json_object" where
  "As_Object v = bindE (As ObjectType v) (\<lambda>x. Inr (object_val x))"

definition As_Array :: "json \<Rightarrow> json_exception + json list" where
  "As_Array v = bindE (As ArrayType v) (\<lambda>x. Inr (array_val x))"

definition Get_Object :: "json_object \<Rightarrow> string \<Rightarrow> json_exception + json_object" where
  "Get_Object obj f = bindE (GetField ObjectType obj f) (\<lambda>x. Inr (object_val x))"

definition Get_Array :: "json_object \<Rightarrow> string \<Rightarrow> json_exception + json list" where
  "Get_Array obj f = bindE (GetField ArrayType obj f) (\<lambda>x. Inr (array_val x))"

definition Get_String :: "json_object \<Rightarrow> string \<Rightarrow> json_exception + string" where
  "Get_String obj f = bindE (GetField StringType obj f) (\<lambda>x. Inr (string_val x))"

definition Get_Boolean :: "json_object \<Rightarrow> string \<Rightarrow> json_exception + bool" where
  "Get_Boolean obj f = bindE (GetField BooleanType obj f) (\<lambda>x. Inr (boolean_val x))"

definition Get_Number :: "json_object \<Rightarrow> string \<Rightarrow> json_exception + ldouble" where
  "Get_Number obj f = bindE (GetField NumberType obj f) (\<lambda>x. Inr (number_val x))"

section \<open>The builder\<close>

text \<open>
  The context stack of \<^verbatim>\<open>JSONBuilder\<close>: each context owns its parent.  The callback context
  holds the values it has handed to the callback, in order.
\<close>

datatype Context =
    CallbackContext "json list"
  | ArrayContext "json list" Context
  | ObjectContext json_object "string option" Context

fun AddValue :: "json \<Rightarrow> Context \<Rightarrow> Context" where
  "AddValue v (CallbackContext vs) = CallbackContext (vs @ [v])"
| "AddValue v (ArrayContext es p) = ArrayContext (es @ [v]) p"
| "AddValue v (ObjectContext fs None p) = ObjectContext fs None p"
| "AddValue v (ObjectContext fs (Some n) p) = ObjectContext (map_emplace n v fs) None p"

definition PushArray :: "Context \<Rightarrow> Context" where
  "PushArray c = ArrayContext [] c"

definition PushObject :: "Context \<Rightarrow> Context" where
  "PushObject c = ObjectContext [] None c"

fun PopArray :: "Context \<Rightarrow> (json list \<times> Context) option" where
  "PopArray (ArrayContext es p) = Some (es, p)"
| "PopArray _ = None"

fun PopObject :: "Context \<Rightarrow> (json_object \<times> Context) option" where
  "PopObject (ObjectContext fs n p) = Some (fs, p)"
| "PopObject _ = None"

fun NewField :: "string \<Rightarrow> Context \<Rightarrow> bool \<times> Context" where
  "NewField name (ObjectContext fs n p) = (True, ObjectContext fs (Some name) p)"
| "NewField name c = (False, c)"

datatype cb_event =
    CbNull
  | CbBoolean bool
  | CbInteger int
  | CbDouble ldouble
  | CbString string
  | CbStartMap
  | CbMapKey string
  | CbEndMap
  | CbStartArray
  | CbEndArray

text \<open>
  The handlers of the \<^verbatim>\<open>yajl_callbacks\<close> table.  The flag is the handler's result: a zero
  cancels the parse.
\<close>

definition handle_null :: "Context \<Rightarrow> bool \<times> Context" where
  "handle_null c = (True, AddValue Null c)"

definition handle_bool :: "bool \<Rightarrow> Context \<Rightarrow> bool \<times> Context" where
  "handle_bool b c = (True, AddValue (Boolean b) c)"

definition handle_string :: "string \<Rightarrow> Context \<Rightarrow> bool \<times> Context" where
  "handle_string s c = (True, AddValue (String s) c)"

definition handle_integer :: "int \<Rightarrow> Context \<Rightarrow> bool \<times> Context" where
  "handle_integer i c = (True, AddValue (Number (Fin (of_int i))) c)"

definition handle_double :: "ldouble \<Rightarrow> Context \<Rightarrow> bool \<times> Context" where
  "handle_double d c = (True, AddValue (Number d) c)"

definition handle_start_array :: "Context \<Rightarrow> bool \<times> Context" where
  "handle_start_array c = (True, PushArray c)"

definition handle_end_array :: "Context \<Rightarrow> bool \<times> Context" where
  "handle_end_array c =
     (case PopArray c of
        None \<Rightarrow> (False, c)
      | Some (elements, c') \<Rightarrow> (True, AddValue (array (map Some elements)) c'))"

definition handle_start_map :: "Context \<Rightarrow> bool \<times> Context" where
  "handle_start_map c = (True, PushObject c)"

definition handle_map_key :: "string \<Rightarrow> Context \<Rightarrow> bool \<times> Context" where
  "handle_map_key key c = NewField key c"

definition handle_end_map :: "Context \<Rightarrow> bool \<times> Context" where
  "handle_end_map c =
     (case PopObject c of
        None \<Rightarrow> (False, c)
      | Some (fs, c') \<Rightarrow>
          (True, AddValue (object_of_map (map (\<lambda>(k, v). (k, Some v)) fs)) c'))"

fun callback :: "cb_event \<Rightarrow> Context \<Rightarrow> bool \<times> Context" where
  "callback CbNull c = handle_null c"
| "callback (CbBoolean b) c = handle_bool b c"
| "callback (CbInteger i) c = handle_integer i c"
| "callback (CbDouble d) c = handle_double d c"
| "callback (CbString s) c = handle_string s c"
| "callback CbStartMap c = handle_start_map c"
| "callback (CbMapKey k) c = handle_map_key k c"
| "callback CbEndMap c = handle_end_map c"
| "callback CbStartArray c = handle_start_array c"
| "callback CbEndArray c = handle_end_array c"

text \<open>The callbacks of one parse step run in order until one of them cancels.\<close>

fun run_callbacks :: "cb_event list \<Rightarrow> Context \<Rightarrow> bool \<times> Context" where
  "run_callbacks [] c = (True, c)"
| "run_callbacks (e # es) c =
     (case callback e c of (ok, c') \<Rightarrow> if ok then run_callbacks es c' else (False, c'))"

section \<open>The parser\<close>

text \<open>
  yajl as the parser uses it.  \<open>'y\<close> is the state of a handle; \<open>yajl_parse\<close> and
  \<open>yajl_complete_parse\<close> give the callbacks the library would issue for the input and whether it
  accepts the input, supposing no handler cancels.
\<close>

record 'y yajl =
  yajl_alloc :: 'y
  yajl_parse :: "'y \<Rightarrow> string \<Rightarrow> 'y \<times> cb_event list \<times> bool"
  yajl_complete_parse :: "'y \<Rightarrow> 'y \<times> cb_event list \<times> bool"
  yajl_get_bytes_consumed :: "'y \<Rightarrow> nat"
  yajl_get_error :: "'y \<Rightarrow> string"

text \<open>\<^verbatim>\<open>Parser::ParseState\<close>: the handle and the builder's context.\<close>

type_synonym 'y parse_state = "'y \<times> Context"

definition new_parser :: "'y yajl \<Rightarrow> 'y parse_state" where
  "new_parser Y = (yajl_alloc Y, CallbackContext [])"

text \<open>One call into yajl, with the handlers run on the callbacks it issues.\<close>

definition feed :: "'y \<times> cb_event list \<times> bool \<Rightarrow> Context \<Rightarrow> bool \<times> 'y parse_state" where
  "feed r c = (case r of (y, cbs, accepted) \<Rightarrow>
     (case run_callbacks cbs c of (ok, c') \<Rightarrow> (ok \<and> accepted, (y, c'))))"

definition kMax :: nat where
  "kMax = 65536"

text \<open>
  \<^verbatim>\<open>Parser::ParseStream\<close>.  A read takes up to \<open>kMax\<close> bytes and sets the end-of-file flag
  exactly when fewer were left; the loop ends at end of file or at the first failure.
\<close>

function parse_loop ::
  "'y yajl \<Rightarrow> string \<Rightarrow> nat \<Rightarrow> ('y parse_state, json_exception, nat) meth" where
  "parse_loop Y rest consumed st =
     (case feed (yajl_parse Y (fst st) (take kMax rest)) (snd st) of
        (ok, st') \<Rightarrow>
          if \<not> ok then (Inl (ParseError (yajl_get_error Y (fst st'))), st')
          else if length rest < kMax
          then (Inr (consumed + yajl_get_bytes_consumed Y (fst st')), st')
          else parse_loop Y (drop kMax rest) (consumed + yajl_get_bytes_consumed Y (fst st')) st')"
  by pat_completeness auto
termination
  by (relation "measure (\<lambda>(Y, rest, consumed, st). length rest)") (auto simp: kMax_def)

declare parse_loop.simps [simp del]

definition ParseStream ::
  "'y yajl \<Rightarrow> string \<Rightarrow> ('y parse_state, json_exception, nat) meth" where
  "ParseStream Y stream = parse_loop Y stream 0"

definition NotifyEOF :: "'y yajl \<Rightarrow> ('y parse_state, json_exception, unit) meth" where
  "NotifyEOF Y st =
     (case feed (yajl_complete_parse Y (fst st)) (snd st) of
        (ok, st') \<Rightarrow>
          if \<not> ok then (Inl (ParseError (yajl_get_error Y (fst st'))), st')
          else (Inr (), st'))"

text \<open>The values the callback of the bottom context has received.\<close>

fun delivered :: "Context \<Rightarrow> json list" where
  "delivered (CallbackContext vs) = vs"
| "delivered (ArrayContext es p) = delivered p"
| "delivered (ObjectContext fs n p) = delivered p"

definition AllFromStream :: "'y yajl \<Rightarrow> string \<Rightarrow> json_exception + json list" where
  "AllFromStream Y stream =
     (case bindM (ParseStream Y stream) (\<lambda>_. NotifyEOF Y) (new_parser Y) of
        (Inl e, _) \<Rightarrow> Inl e
      | (Inr _, st) \<Rightarrow> Inr (delivered (snd st)))"

text \<open>A null pointer stands for an input without a value.\<close>

definition FromStream :: "'y yajl \<Rightarrow> string \<Rightarrow> json_exception + json option" where
  "FromStream Y stream =
     bindE (AllFromStream Y stream) (\<lambda>all_values.
       if all_values = [] then Inr None
       else if 1 < length all_values
       then Inl (Explanation (''Single value expected, '' @ show_nat (length all_values)
                   @ '' values seen''))
       else Inr (Some (all_values ! 0)))"

definition AllFromString :: "'y yajl \<Rightarrow> string \<Rightarrow> json_exception + json list" where
  "AllFromString Y input = AllFromStream Y input"

definition FromString :: "'y yajl \<Rightarrow> string \<Rightarrow> json_exception + json option" where
  "FromString Y input = FromStream Y input"

section \<open>Reference definitions\<close>

text \<open>
  The JSON grammar read as a transducer: the callbacks a parser issues for the text that a
  sequence of generator calls produced.  A string directly inside a map is a key exactly when it
  is in key position.
\<close>

datatype gen_pos = InArray | AtKey | AtValue

fun after_value :: "gen_pos list \<Rightarrow> gen_pos list" where
  "after_value (AtValue # st) = AtKey # st"
| "after_value st = st"

fun at_key :: "gen_pos list \<Rightarrow> bool" where
  "at_key (AtKey # st) = True"
| "at_key st = False"

fun gen_callbacks :: "gen_pos list \<Rightarrow> gen_event list \<Rightarrow> cb_event list" where
  "gen_callbacks st [] = []"
| "gen_callbacks st (GenNull # es) = CbNull # gen_callbacks (after_value st) es"
| "gen_callbacks st (GenBool b # es) = CbBoolean b # gen_callbacks (after_value st) es"
| "gen_callbacks st (GenInteger i # es) = CbInteger i # gen_callbacks (after_value st) es"
| "gen_callbacks st (GenDouble d # es) = CbDouble d # gen_callbacks (after_value st) es"
| "gen_callbacks st (GenString s # es) =
     (if at_key st then CbMapKey s # gen_callbacks (AtValue # tl st) es
      else CbString s # gen_callbacks (after_value st) es)"
| "gen_callbacks st (GenArrayOpen # es) = CbStartArray # gen_callbacks (InArray # st) es"
| "gen_callbacks st (GenArrayClose # es) = CbEndArray # gen_callbacks (after_value (tl st)) es"
| "gen_callbacks st (GenMapOpen # es) = CbStartMap # gen_callbacks (AtKey # st) es"
| "gen_callbacks st (GenMapClose # es) = CbEndMap # gen_callbacks (after_value (tl st)) es"

text \<open>Numbers the text form keeps: integers of the \<^verbatim>\<open>long long\<close> range and doubles.\<close>

fun number_kept :: "(ldouble \<Rightarrow> ldouble) \<Rightarrow> ldouble \<Rightarrow> bool" where
  "number_kept dbl n = (IsEffectivelyInteger n \<or> dbl n = n)"

fun numbers_kept :: "(ldouble \<Rightarrow> ldouble) \<Rightarrow> json \<Rightarrow> bool" where
  "numbers_kept dbl (Number n) = number_kept dbl n"
| "numbers_kept dbl (Array es) = list_all (numbers_kept dbl) es"
| "numbers_kept dbl (Object fs) = list_all (\<lambda>kv. numbers_kept dbl (snd kv)) fs"
| "numbers_kept dbl _ = True"

fun context_ok :: "Context \<Rightarrow> bool" where
  "context_ok (CallbackContext vs) = list_all json_ok vs"
| "context_ok (ArrayContext es p) = (list_all json_ok es \<and> context_ok p)"
| "context_ok (ObjectContext fs n p) = (json_ok (Object fs) \<and> context_ok p)"

text \<open>
  What the code relies on of yajl.  \<open>yajl_incremental\<close>: input may be handed over in pieces.
  \<open>yajl_reads_back\<close>: parsing the generated text issues the callbacks of the grammar, some of
  them possibly only when the end of the input is announced (a number at top level is complete
  only then).
\<close>

fun value_callbacks :: "(ldouble \<Rightarrow> ldouble) \<Rightarrow> json \<Rightarrow> cb_event list" where
  "value_callbacks dbl Null = [CbNull]"
| "value_callbacks dbl (Boolean b) = [CbBoolean b]"
| "value_callbacks dbl (Number n) =
     (if IsEffectivelyInteger n then [CbInteger (as_integer n)] else [CbDouble (dbl n)])"
| "value_callbacks dbl (String s) = [CbString s]"
| "value_callbacks dbl (Array es) =
     CbStartArray # concat (map (value_callbacks dbl) es) @ [CbEndArray]"
| "value_callbacks dbl (Object fs) =
     CbStartMap # concat (map (\<lambda>kv. CbMapKey (fst kv) # value_callbacks dbl (snd kv)) fs)
       @ [CbEndMap]"

definition yajl_incremental :: "'y yajl \<Rightarrow> bool" where
  "yajl_incremental Y = (\<forall>y a b. yajl_parse Y y (a @ b) =
     (case yajl_parse Y y a of (y1, c1, ok1) \<Rightarrow>
        if \<not> ok1 then (y1, c1, False)
        else case yajl_parse Y y1 b of (y2, c2, ok2) \<Rightarrow> (y2, c1 @ c2, ok2)))"

definition yajl_reads_back :: "'y yajl \<Rightarrow> serializer \<Rightarrow> gen_event list \<Rightarrow> bool" where
  "yajl_reads_back Y z evs =
     (case yajl_parse Y (yajl_alloc Y) (render z evs) of (y1, c1, ok1) \<Rightarrow>
        (case yajl_complete_parse Y y1 of (y2, c2, ok2) \<Rightarrow>
           ok1 \<and> ok2 \<and> c1 @ c2 = gen_callbacks [] evs))"

section \<open>Well-formedness of what the library builds\<close>

lemma map_filter_Some [simp]:
  "List.map_filter id (map Some xs) = xs"
  "List.map_filter (\<lambda>(k, v). map_option (Pair k) v) (map (\<lambda>(k, v). (k, Some v)) kvs) = kvs"
  by (induction xs) (auto simp: List.map_filter_simps, induction kvs,
      auto simp: List.map_filter_simps)

lemma set_map_filter_fields:
  "set (List.map_filter (\<lambda>(k, v). map_option (Pair k) v) fs) = {(k, v). (k, Some v) \<in> set fs}"
  by (induction fs) (auto simp: List.map_filter_simps split: option.splits)

lemma json_ok_object_fields [wf_intros]:
  assumes "\<forall>(k, v) \<in> set fs. \<forall>x. v = Some x \<longrightarrow> json_ok x"
  shows "json_ok (Object (object_fields fs))"
proof -
  have "set (object_fields fs) \<subseteq> {(k, v). (k, Some v) \<in> set fs}"
    unfolding object_fields_def
    using set_map_emplace_all [of _ "[]"] by (fastforce simp: set_map_filter_fields)
  with assms show ?thesis
    by (fastforce simp: object_fields_def list_all_iff intro: wf_intros)
qed

lemma json_ok_object [wf_intros]:
  "\<forall>(k, v) \<in> set fs. \<forall>x. v = Some x \<longrightarrow> json_ok x \<Longrightarrow> json_ok (object fs)"
  unfolding object_def by (rule json_ok_object_fields)

lemma json_ok_array [wf_intros]:
  "\<forall>v \<in> set es. \<forall>x. v = Some x \<longrightarrow> json_ok x \<Longrightarrow> json_ok (array es)"
  by (induction es) (auto simp: array_def List.map_filter_simps split: option.splits)

lemma json_ok_string [wf_intros]: "json_ok (String s)" by simp

lemma json_ok_field:
  "json_ok (Object fs) \<Longrightarrow> map_of fs k = Some v \<Longrightarrow> json_ok v"
  using map_of_SomeD [of fs k v] by (fastforce simp: list_all_iff)

lemma Clone_eq [simp]: "json_ok v \<Longrightarrow> Clone v = v"
proof (induction v)
  case (Object fs)
  then have "map (\<lambda>kv. (fst kv, Clone (snd kv))) fs = fs"
    by (auto simp: list_all_iff snds.simps intro!: map_idI)
  with Object.prems show ?case by (simp add: map_emplace_all_copy)
qed (auto simp: list_all_iff map_idI)

lemma object_of_map_Some:
  "map_ok fs \<Longrightarrow> object_of_map (map (\<lambda>(k, v). (k, Some v)) fs) = Object fs"
  by (simp add: object_of_map_def map_emplace_all_copy)

lemma array_Some [simp]: "array (map Some es) = Array es"
  by (simp add: array_def)

lemma json_ok_Clone [simp, wf_intros]: "json_ok (Clone v)"
proof (induction v)
  case (Array es)
  then show ?case by (simp add: list_all_iff)
next
  case (Object fs)
  let ?g = "map (\<lambda>kv. (fst kv, Clone (snd kv))) fs"
  have "json_ok (snd kv)" if "kv \<in> set (map_emplace_all ?g [])" for kv
    using set_map_emplace_all [of ?g "[]"] that Object by fastforce
  then show ?case by (simp add: wf_intros list_all_iff)
qed auto

lemma context_ok_AddValue [wf_intros]: "context_ok c \<Longrightarrow> json_ok v \<Longrightarrow> context_ok (AddValue v c)"
proof (induction v c rule: AddValue.induct)
  case (4 v fs n p)
  then show ?case
    using set_map_emplace [of n v fs] by (fastforce simp: list_all_iff intro: wf_intros)
qed auto

lemma context_ok_callback:
  assumes "context_ok c"
  shows "context_ok (snd (callback e c))"
proof (cases e)
  case CbEndArray
  with assms show ?thesis
    by (cases c) (auto simp: handle_end_array_def intro!: wf_intros)
next
  case CbEndMap
  with assms show ?thesis
    by (cases c) (auto simp: handle_end_map_def object_of_map_Some intro!: wf_intros)
next
  case (CbMapKey k)
  with assms show ?thesis by (cases c) (auto simp: handle_map_key_def)
qed (use assms in \<open>auto simp: handle_null_def handle_bool_def handle_integer_def
    handle_double_def handle_string_def handle_start_map_def handle_start_array_def
    PushArray_def PushObject_def intro!: wf_intros\<close>)

lemma context_ok_run_callbacks:
  "context_ok c \<Longrightarrow> context_ok (snd (run_callbacks es c))"
proof (induction es arbitrary: c)
  case (Cons e es)
  then show ?case
    using context_ok_callback [of c e] by (auto split: prod.splits)
qed auto

lemma feed_simp: "feed (y, cbs, accepted) c =
    (fst (run_callbacks cbs c) \<and> accepted, (y, snd (run_callbacks cbs c)))"
  by (simp add: feed_def split_def)

lemma context_ok_feed: "context_ok c \<Longrightarrow> context_ok (snd (snd (feed r c)))"
  by (cases r) (simp add: feed_simp context_ok_run_callbacks)

lemma context_ok_parse_loop:
  "context_ok (snd st) \<Longrightarrow> context_ok (snd (snd (parse_loop Y rest consumed st)))"
proof (induction Y rest consumed st rule: parse_loop.induct)
  case (1 Y rest consumed st)
  obtain ok st' where f: "feed (yajl_parse Y (fst st) (take kMax rest)) (snd st) = (ok, st')"
    by (meson surj_pair)
  moreover have "context_ok (snd st')"
    using context_ok_feed [OF "1.prems"] f by (metis snd_conv)
  ultimately show ?case
    using "1.IH" [OF f [symmetric]] by (subst parse_loop.simps) auto
qed

lemma context_ok_delivered: "context_ok c \<Longrightarrow> list_all json_ok (delivered c)"
  by (induction c) auto

lemma AllFromStream_ok:
  assumes "AllFromStream Y stream = Inr vs"
  shows "list_all json_ok vs"
proof -
  let ?p = "parse_loop Y stream 0 (new_parser Y)"
  have ok: "context_ok (snd (snd ?p))"
    by (rule context_ok_parse_loop) (simp add: new_parser_def)
  obtain n st where p: "?p = (Inr n, st)" and
    vs: "vs = delivered (snd (snd (NotifyEOF Y st)))"
    using assms by (auto simp: AllFromStream_def ParseStream_def exc_simps split: prod.splits sum.splits)
  have "context_ok (snd (snd (NotifyEOF Y st)))"
    using context_ok_feed [of "snd st" "yajl_complete_parse Y (fst st)"] ok p
    by (auto simp: NotifyEOF_def split_def)
  with vs show ?thesis by (simp add: context_ok_delivered)
qed

section \<open>The builder reads back what the serialiser writes\<close>

lemma gen_callbacks_values:
  assumes "\<And>v st es. v \<in> set vs \<Longrightarrow> \<not> at_key st \<Longrightarrow>
      gen_callbacks st (Serialize dbl v @ es) = value_callbacks dbl v @ gen_callbacks (after_value st) es"
  shows "gen_callbacks (InArray # st) (concat (map (Serialize dbl) vs) @ es) =
      concat (map (value_callbacks dbl) vs) @ gen_callbacks (InArray # st) es"
  using assms by (induction vs) auto

lemma gen_callbacks_fields:
  assumes "\<And>kv st es. kv \<in> set fs \<Longrightarrow> \<not> at_key st \<Longrightarrow>
      gen_callbacks st (Serialize dbl (snd kv) @ es) =
      value_callbacks dbl (snd kv) @ gen_callbacks (after_value st) es"
  shows "gen_callbacks (AtKey # st)
        (concat (map (\<lambda>kv. GenString (fst kv) # Serialize dbl (snd kv)) fs) @ es) =
      concat (map (\<lambda>kv. CbMapKey (fst kv) # value_callbacks dbl (snd kv)) fs)
        @ gen_callbacks (AtKey # st) es"
  using assms by (induction fs) auto

lemma gen_callbacks_Serialize:
  "\<not> at_key st \<Longrightarrow> gen_callbacks st (Serialize dbl v @ es) =
     value_callbacks dbl v @ gen_callbacks (after_value st) es"
proof (induction v arbitrary: st es)
  case (Array vs)
  then show ?case by (simp add: gen_callbacks_values)
next
  case (Object fs)
  have IH: "gen_callbacks st (Serialize dbl (snd kv) @ es) =
      value_callbacks dbl (snd kv) @ gen_callbacks (after_value st) es"
    if "kv \<in> set fs" "\<not> at_key st" for kv st es
    using Object.IH [OF that(1) _ that(2)] by (simp add: snds.simps)
  show ?case by (simp add: gen_callbacks_fields [OF IH])
qed simp_all

lemma run_callbacks_append:
  "run_callbacks (xs @ ys) c =
     (case run_callbacks xs c of (ok, c') \<Rightarrow> if ok then run_callbacks ys c' else (False, c'))"
  by (induction xs arbitrary: c) (auto split: prod.splits)

lemma as_integer_kept: "IsEffectivelyInteger n \<Longrightarrow> Fin (of_int (as_integer n)) = n"
  by (cases n) auto

lemma run_array_values:
  assumes "\<And>v c. v \<in> set vs \<Longrightarrow> run_callbacks (value_callbacks dbl v) c = (True, AddValue v c)"
  shows "run_callbacks (concat (map (value_callbacks dbl) vs)) (ArrayContext acc p) =
    (True, ArrayContext (acc @ vs) p)"
  using assms by (induction vs arbitrary: acc) (auto simp: run_callbacks_append)

lemma run_object_fields:
  assumes "\<And>kv c. kv \<in> set fs \<Longrightarrow>
      run_callbacks (value_callbacks dbl (snd kv)) c = (True, AddValue (snd kv) c)"
  shows "run_callbacks (concat (map (\<lambda>kv. CbMapKey (fst kv) # value_callbacks dbl (snd kv)) fs))
      (ObjectContext acc None p) = (True, ObjectContext (map_emplace_all fs acc) None p)"
  using assms
  by (induction fs arbitrary: acc)
    (auto simp: run_callbacks_append handle_map_key_def map_emplace_all_def)

lemma run_object_callbacks:
  assumes "\<And>kv c. kv \<in> set fs \<Longrightarrow>
      run_callbacks (value_callbacks dbl (snd kv)) c = (True, AddValue (snd kv) c)"
  shows "run_callbacks (value_callbacks dbl (Object fs)) c =
    (True, AddValue (Object (map_emplace_all fs [])) c)"
  using run_object_fields [OF assms, of fs "[]" c]
  by (simp add: run_callbacks_append handle_start_map_def PushObject_def handle_end_map_def
      object_of_map_Some wf_intros)

lemma run_value_callbacks:
  "json_ok v \<Longrightarrow> numbers_kept dbl v \<Longrightarrow>
     run_callbacks (value_callbacks dbl v) c = (True, AddValue v c)"
proof (induction v arbitrary: c)
  case (Array vs)
  then have "run_callbacks (concat (map (value_callbacks dbl) vs)) (ArrayContext [] c) =
      (True, ArrayContext ([] @ vs) c)"
    by (intro run_array_values) (auto simp: list_all_iff)
  then show ?case
    by (simp add: run_callbacks_append handle_start_array_def PushArray_def handle_end_array_def)
next
  case (Object fs)
  have "run_callbacks (value_callbacks dbl (snd kv)) c = (True, AddValue (snd kv) c)"
    if "kv \<in> set fs" for kv c
    using Object.IH [OF that] Object.prems that by (auto simp: list_all_iff snds.simps)
  with Object.prems show ?case
    by (simp only: run_object_callbacks json_ok.simps map_emplace_all_copy)
qed (auto simp: handle_null_def handle_bool_def handle_string_def handle_integer_def
    handle_double_def as_integer_kept)

section \<open>Chunked reading is invisible\<close>

lemma yajl_incrementalD:
  assumes "yajl_incremental Y" and "yajl_parse Y y a = (y1, c1, ok1)"
  shows "yajl_parse Y y (a @ b) =
    (if \<not> ok1 then (y1, c1, False)
     else case yajl_parse Y y1 b of (y2, c2, ok2) \<Rightarrow> (y2, c1 @ c2, ok2))"
  using assms(1) [unfolded yajl_incremental_def, rule_format, of y a b] assms(2) by simp

lemma feed_incremental:
  assumes "yajl_incremental Y" and "feed (yajl_parse Y y a) c = (ok, (y1, c1))"
  shows "if ok then feed (yajl_parse Y y (a @ b)) c = feed (yajl_parse Y y1 b) c1
    else \<exists>y'. feed (yajl_parse Y y (a @ b)) c = (False, (y', c1))"
proof -
  obtain cbs acc where a: "yajl_parse Y y a = (y1, cbs, acc)"
    using assms(2) by (auto simp: feed_def split: prod.splits)
  obtain y2 cbs2 acc2 where b: "yajl_parse Y y1 b = (y2, cbs2, acc2)"
    by (metis prod.exhaust)
  show ?thesis
    using assms(2) by (auto simp: yajl_incrementalD [OF assms(1) a] a b feed_simp
        run_callbacks_append split_def)
qed

lemma parse_loop_whole:
  assumes "yajl_incremental Y"
    and "feed (yajl_parse Y (fst st) rest) (snd st) = (ok, st')"
  shows "if ok then \<exists>n. parse_loop Y rest consumed st = (Inr n, st')
    else \<exists>e t. parse_loop Y rest consumed st = (Inl e, t) \<and> snd t = snd st'"
  using assms
proof (induction Y rest consumed st arbitrary: ok st' rule: parse_loop.induct)
  case (1 Y rest consumed st)
  show ?case
  proof (cases "length rest < kMax")
    case True
    with "1.prems" show ?thesis by (subst (1 2) parse_loop.simps) simp
  next
    case False
    obtain ok1 y1 c1 where f:
      "feed (yajl_parse Y (fst st) (take kMax rest)) (snd st) = (ok1, (y1, c1))"
      by (metis prod.exhaust)
    note split = feed_incremental [OF "1.prems"(1) f, of "drop kMax rest", simplified]
    show ?thesis
    proof (cases ok1)
      case True
      then have "feed (yajl_parse Y (fst (y1, c1)) (drop kMax rest)) (snd (y1, c1)) = (ok, st')"
        using split "1.prems"(2) by simp
      note IH = "1.IH" [OF f [symmetric] _ False "1.prems"(1) this]
      have "parse_loop Y rest consumed st =
          parse_loop Y (drop kMax rest) (consumed + yajl_get_bytes_consumed Y y1) (y1, c1)"
        using True False f by (subst parse_loop.simps) simp
      with IH True show ?thesis by (cases ok) simp_all
    next
      case fails: False
      with split "1.prems"(2) have "\<not> ok" "snd st' = c1" by auto
      with fails f show ?thesis by (subst parse_loop.simps) simp
    qed
  qed
qed

section \<open>Field access\<close>

lemma GetField_Inr_iff:
  "GetField t obj f = Inr v \<longleftrightarrow> map_of obj f = Some v \<and> type_of v = t"
  by (auto simp: GetField_def As_def Is_def split: option.splits)

lemma Get_Inr_iff [exc_simps]:
  "Get_Object obj f = Inr fs \<longleftrightarrow> map_of obj f = Some (Object fs)"
  "Get_Array obj f = Inr es \<longleftrightarrow> map_of obj f = Some (Array es)"
  "Get_String obj f = Inr s \<longleftrightarrow> map_of obj f = Some (String s)"
  "Get_Boolean obj f = Inr b \<longleftrightarrow> map_of obj f = Some (Boolean b)"
  "Get_Number obj f = Inr n \<longleftrightarrow> map_of obj f = Some (Number n)"
  unfolding Get_Object_def Get_Array_def Get_String_def Get_Boolean_def Get_Number_def
    bindE_eq_Inr_iff GetField_Inr_iff
  by (auto elim: type_of.elims)

lemma As_Inr_iff [exc_simps]:
  "As_Object v = Inr fs \<longleftrightarrow> v = Object fs"
  "As_Array v = Inr es \<longleftrightarrow> v = Array es"
  by (cases v; auto simp: As_Object_def As_Array_def As_def Is_def)+

section \<open>Properties\<close>

lemma gen_callbacks_value: "gen_callbacks [] (Serialize dbl v) = value_callbacks dbl v"
  using gen_callbacks_Serialize [of "[]" dbl v "[]"] by simp

lemma Serialize_determines:
  assumes "json_ok v" "numbers_kept dbl v" "json_ok w" "numbers_kept dbl w"
    and "Serialize dbl v = Serialize dbl w"
  shows "v = w"
proof -
  have "run_callbacks (gen_callbacks [] (Serialize dbl v)) (CallbackContext []) =
      (True, CallbackContext [v])"
    and "run_callbacks (gen_callbacks [] (Serialize dbl w)) (CallbackContext []) =
      (True, CallbackContext [w])"
    using assms(1-4) by (simp_all add: gen_callbacks_value run_value_callbacks)
  with assms(5) show ?thesis by (metis Context.inject(1) list.inject prod.inject)
qed

text \<open>
  C4.  Round trip of the JSON library: a value built by the library, serialised by
  \<^verbatim>\<open>Value::ToString\<close> and read by \<^verbatim>\<open>Parser::FromString\<close>, comes back unchanged, whatever its
  length (the parser reads it in chunks), provided yajl reads back what it generated for this
  value, accepts input in pieces, and every number of the value survives its text form.
\<close>

theorem json_roundtrip:
  assumes "json_ok v" and "numbers_kept (to_double z) v"
    and "yajl_incremental Y" and "yajl_reads_back Y z (Serialize (to_double z) v)"
  shows "FromString Y (ToString z v) = Inr (Some v)"
proof -
  let ?evs = "Serialize (to_double z) v"
  obtain y1 c1 y2 c2 where p: "yajl_parse Y (yajl_alloc Y) (render z ?evs) = (y1, c1, True)"
    and q: "yajl_complete_parse Y y1 = (y2, c2, True)"
    and cbs: "c1 @ c2 = value_callbacks (to_double z) v"
    using assms(4) by (auto simp: yajl_reads_back_def gen_callbacks_value split: prod.splits)
  have run: "run_callbacks (c1 @ c2) (CallbackContext []) = (True, CallbackContext [v])"
    using assms(1,2) by (simp add: cbs run_value_callbacks)
  let ?c = "snd (run_callbacks c1 (CallbackContext []))"
  have ok: "fst (run_callbacks c1 (CallbackContext []))"
    and run2: "run_callbacks c2 ?c = (True, CallbackContext [v])"
    using run by (simp_all add: run_callbacks_append split_def split: if_splits)
  have "feed (yajl_parse Y (fst (new_parser Y)) (ToString z v)) (snd (new_parser Y)) =
      (True, (y1, ?c))"
    using ok by (simp add: new_parser_def ToString_def p feed_simp)
  from parse_loop_whole [OF assms(3) this, of 0] obtain n
    where "parse_loop Y (ToString z v) 0 (new_parser Y) = (Inr n, (y1, ?c))" by auto
  then have "AllFromStream Y (ToString z v) = Inr [v]"
    by (simp add: AllFromStream_def ParseStream_def exc_simps NotifyEOF_def q feed_simp run2)
  then show ?thesis by (simp add: FromString_def FromStream_def)
qed

text \<open>
  Witness for C1: a parser that collects its input and issues the callbacks at the end, and the
  value \<^verbatim>\<open>{"a":[true,null]}\<close>.
\<close>

theorem json_roundtrip_witness:
  "let z = \<lparr>to_double = id, render = (\<lambda>evs. if evs = [GenMapOpen, GenString ''a'', GenArrayOpen,
             GenBool True, GenNull, GenArrayClose, GenMapClose]
             then ''{a:[true,null]}'' else [])\<rparr>;
       Y = \<lparr>yajl_alloc = [], yajl_parse = (\<lambda>y s. (y @ s, [], True)),
            yajl_complete_parse = (\<lambda>y. (y, if y = ''{a:[true,null]}'' then [CbStartMap,
               CbMapKey ''a'', CbStartArray, CbBoolean True, CbNull, CbEndArray, CbEndMap] else [],
               True)),
            yajl_get_bytes_consumed = length, yajl_get_error = id\<rparr>;
       v = Object [(''a'', Array [Boolean True, Null])]
   in FromString Y (ToString z v) = Inr (Some v)"
  unfolding Let_def
  by (rule json_roundtrip)
    (simp_all add: yajl_incremental_def yajl_reads_back_def map_ok_def)

text \<open>
  Whatever text is parsed and however yajl behaves, every value the parser delivers is well
  formed: the fields of every object in it are in ascending key order and without duplicates.
\<close>

theorem parsed_values_ok:
  "AllFromString Y input = Inr vs \<Longrightarrow> list_all json_ok vs"
  unfolding AllFromString_def by (rule AllFromStream_ok)

theorem parsed_values_ok_witness:
  "let Y = \<lparr>yajl_alloc = (), yajl_parse = (\<lambda>y s. (y, [CbStartMap, CbMapKey ''b'', CbNull,
              CbMapKey ''a'', CbNull, CbMapKey ''b'', CbString ''x'', CbEndMap], True)),
            yajl_complete_parse = (\<lambda>y. (y, [], True)),
            yajl_get_bytes_consumed = (\<lambda>_. 0), yajl_get_error = (\<lambda>_. [])\<rparr>
   in AllFromString Y ''x'' = Inr [Object [(''a'', Null), (''b'', Null)]] \<and>
      list_all json_ok [Object [(''a'', Null), (''b'', Null)]]"
proof -
  let ?Y = "\<lparr>yajl_alloc = (), yajl_parse = (\<lambda>y s. (y, [CbStartMap, CbMapKey ''b'', CbNull,
              CbMapKey ''a'', CbNull, CbMapKey ''b'', CbString ''x'', CbEndMap], True)),
            yajl_complete_parse = (\<lambda>y. (y, [], True)),
            yajl_get_bytes_consumed = (\<lambda>_. 0), yajl_get_error = (\<lambda>_. [])\<rparr>"
  have "AllFromString ?Y ''x'' = Inr [Object [(''a'', Null), (''b'', Null)]]"
    by (simp add: AllFromString_def AllFromStream_def ParseStream_def exc_simps new_parser_def
        parse_loop.simps [of _ "''x''"] kMax_def feed_simp NotifyEOF_def handle_start_map_def
        PushObject_def handle_map_key_def handle_null_def handle_string_def handle_end_map_def
        object_of_map_def map_emplace_all_def List.map_filter_simps less_char_def)
  with parsed_values_ok [OF this] show ?thesis by (simp add: Let_def)
qed

text \<open>
  The 64 KiB reads of \<^verbatim>\<open>Parser::ParseStream\<close> are invisible: for a parser that accepts input
  in pieces, the loop succeeds exactly when one call on the whole input succeeds, leaves the same
  parser state then, and on failure has built and delivered the same values.
\<close>

theorem ParseStream_whole_input:
  assumes "yajl_incremental Y"
    and "feed (yajl_parse Y (fst st) stream) (snd st) = (ok, st')"
  shows "if ok then \<exists>n. ParseStream Y stream st = (Inr n, st')
    else \<exists>e t. ParseStream Y stream st = (Inl e, t) \<and> snd t = snd st'"
  using parse_loop_whole [OF assms] unfolding ParseStream_def .

theorem ParseStream_whole_input_witness:
  "let Y = \<lparr>yajl_alloc = (0::nat), yajl_parse = (\<lambda>y s. (y + length s, map (\<lambda>_. CbNull) s, True)),
            yajl_complete_parse = (\<lambda>y. (y, [], True)),
            yajl_get_bytes_consumed = id, yajl_get_error = (\<lambda>_. [])\<rparr>
   in \<exists>n. ParseStream Y ''nn'' (0, CallbackContext []) = (Inr n, (2, CallbackContext [Null, Null]))"
  unfolding Let_def
  using ParseStream_whole_input [where ok = True and stream = "''nn''" and
      st = "(0, CallbackContext [])" and st' = "(2, CallbackContext [Null, Null])" and
      Y = "\<lparr>yajl_alloc = (0::nat), yajl_parse = (\<lambda>y s. (y + length s, map (\<lambda>_. CbNull) s, True)),
            yajl_complete_parse = (\<lambda>y. (y, [], True)),
            yajl_get_bytes_consumed = id, yajl_get_error = (\<lambda>_. [])\<rparr>"]
  by (simp add: yajl_incremental_def feed_simp handle_null_def)

text \<open>
  A JSON object with a repeated key parses to an object that keeps the first value for each
  key: for any sequence of fields with well-formed values, the builder adds one object whose
  lookups are those of the sequence.
\<close>

theorem duplicate_keys_first_wins:
  assumes "list_all (\<lambda>kv. json_ok (snd kv) \<and> numbers_kept dbl (snd kv)) fs"
  shows "\<exists>obj. run_callbacks (value_callbacks dbl (Object fs)) c = (True, AddValue (Object obj) c)
    \<and> map_ok obj \<and> map_of obj = map_of fs"
proof (intro exI conjI)
  show "run_callbacks (value_callbacks dbl (Object fs)) c =
      (True, AddValue (Object (map_emplace_all fs [])) c)"
    using assms by (intro run_object_callbacks run_value_callbacks) (auto simp: list_all_iff)
  show "map_ok (map_emplace_all fs [])" by (simp add: wf_intros)
  show "map_of (map_emplace_all fs []) = map_of fs"
    by (simp add: fun_eq_iff map_of_emplace_all)
qed

theorem duplicate_keys_first_wins_witness:
  "\<exists>obj. run_callbacks (value_callbacks id (Object [(''k'', Null), (''k'', Boolean True)]))
      (CallbackContext []) = (True, AddValue (Object obj) (CallbackContext []))
    \<and> map_ok obj \<and> map_of obj = map_of [(''k'', Null), (''k'', Boolean True)]"
  by (rule duplicate_keys_first_wins) simp

end
