(* ===== verification/Format.thy ===== *)
theory Format
  imports Std_Map
begin

text \<open>
  Placeholder substitution (\<^verbatim>\<open>src/format.cc\<close>): the loop over \<^verbatim>\<open>{{param}}\<close> placeholders with its
  two exceptions.  The specification is a template, literals alternating with placeholders; the
  loop, which works with positions in the flat string, is shown to implement it on every branch.
\<close>

section \<open>The code\<close>

datatype format_exception =
    Unterminated nat
  | UnknownParameter string nat

fun format_what :: "format_exception \<Rightarrow> string" where
  "format_what (Unterminated brace) = ''Unterminated placeholder at '' @ show_nat brace"
| "format_what (UnknownParameter param pos) =
     ''Unknown parameter '' @ [char_of (39::nat)] @ param @ [char_of (39::nat)] @ '' at ''
       @ show_nat pos"

definition kStart :: string where "kStart = ''{{''"

definition kEnd :: string where "kEnd = ''}}''"

text \<open>The loop of \<^verbatim>\<open>Substitute\<close>; \<open>result\<close> is the output stream so far.\<close>

function substitute_loop ::
  "string \<Rightarrow> (string, string) std_map \<Rightarrow> nat \<Rightarrow> string \<Rightarrow> format_exception + string" where
  "substitute_loop fmt params pos result =
     (case str_find fmt kStart pos of
        None \<Rightarrow> Inr (result @ drop pos fmt)
      | Some brace \<Rightarrow>
          (case str_find fmt kEnd (brace + length kStart) of
             None \<Rightarrow> Inl (Unterminated brace)
           | Some close \<Rightarrow>
               let param = str_substr fmt (brace + length kStart) (close - (brace + length kStart))
               in (case map_of params param of
                     None \<Rightarrow> Inl (UnknownParameter param pos)
                   | Some val \<Rightarrow>
                       substitute_loop fmt params (close + length kEnd)
                         (result @ str_substr fmt pos (brace - pos) @ val))))"
  by pat_completeness auto
termination
proof (relation "measure (\<lambda>(fmt, params, pos, result). length fmt - pos)", simp, goal_cases)
  case (1 fmt params pos result brace close param val)
  from str_find_Some [OF 1(1)] str_find_Some [OF 1(2)] show ?case
    by (auto simp: kStart_def kEnd_def)
qed

declare substitute_loop.simps [simp del]

definition Substitute :: "string \<Rightarrow> (string, string) std_map \<Rightarrow> format_exception + string" where
  "Substitute fmt params = substitute_loop fmt params 0 []"

section \<open>Templates\<close>

text \<open>
  A template is a list of literal/placeholder pairs.  A literal that is followed by a placeholder
  must not create an earlier \<^verbatim>\<open>{{\<close>, not even across its end; a name must not create an earlier
  \<^verbatim>\<open>}}\<close>.
\<close>

type_synonym segments = "(string \<times> string) list"

definition literal_ok :: "string \<Rightarrow> bool" where
  "literal_ok l = (find_sub kStart (l @ ''{'') = None)"

definition name_ok :: "string \<Rightarrow> bool" where
  "name_ok p = (find_sub kEnd (p @ ''}'') = None)"

definition segments_ok :: "segments \<Rightarrow> bool" where
  "segments_ok segs = list_all (\<lambda>(l, p). literal_ok l \<and> name_ok p) segs"

definition segments_text :: "segments \<Rightarrow> string" where
  "segments_text segs = concat (map (\<lambda>(l, p). l @ kStart @ p @ kEnd) segs)"

definition segments_value :: "(string, string) std_map \<Rightarrow> segments \<Rightarrow> string" where
  "segments_value params segs = concat (map (\<lambda>(l, p). l @ the (map_of params p)) segs)"

definition all_known :: "(string, string) std_map \<Rightarrow> segments \<Rightarrow> bool" where
  "all_known params segs = list_all (\<lambda>(l, p). map_of params p \<noteq> None) segs"

section \<open>The loop over a template\<close>

lemma find_sub_doubled:
  "find_sub [c, c] (l @ [c]) = None \<Longrightarrow> find_sub [c, c] (l @ [c, c] @ rest) = Some (length l)"
  by (induction l rule: induct_list012) (auto split: if_splits)

lemma str_find_after: "str_find (pre @ s) p (length pre) = map_option (\<lambda>i. length pre + i) (find_sub p s)"
  by (simp add: str_find_def)

lemma find_placeholder:
  assumes "literal_ok l"
  shows "str_find (pre @ l @ kStart @ rest) kStart (length pre) = Some (length pre + length l)"
  using find_sub_doubled [of "CHR ''{''" l rest] assms
  by (simp add: str_find_after literal_ok_def kStart_def)

lemma find_name_end:
  assumes "name_ok p"
  shows "str_find (pre @ p @ kEnd @ rest) kEnd (length pre) = Some (length pre + length p)"
  using find_sub_doubled [of "CHR ''}''" p rest] assms
  by (simp add: str_find_after name_ok_def kEnd_def)

lemma substitute_loop_segment:
  assumes "literal_ok l" and "name_ok p"
  shows "substitute_loop (pre @ l @ kStart @ p @ kEnd @ rest) params (length pre) result =
    (case map_of params p of
       None \<Rightarrow> Inl (UnknownParameter p (length pre))
     | Some val \<Rightarrow> substitute_loop (pre @ l @ kStart @ p @ kEnd @ rest) params
         (length (pre @ l @ kStart @ p @ kEnd)) (result @ l @ val))"
  using find_placeholder [OF assms(1), of pre "p @ kEnd @ rest"]
    find_name_end [OF assms(2), of "pre @ l @ kStart" rest]
  by (subst substitute_loop.simps) (simp add: str_substr_def add.assoc split: option.split)

lemma substitute_loop_segments:
  assumes "segments_ok segs" and "all_known params segs"
  shows "substitute_loop (pre @ segments_text segs @ rest) params (length pre) result =
    substitute_loop (pre @ segments_text segs @ rest) params
      (length (pre @ segments_text segs)) (result @ segments_value params segs)"
  using assms
proof (induction segs arbitrary: pre result)
  case (Cons seg segs)
  obtain l p where seg: "seg = (l, p)" by fastforce
  from Cons.prems obtain val where val: "map_of params p = Some val"
    by (auto simp: all_known_def seg)
  have "substitute_loop (pre @ l @ kStart @ p @ kEnd @ segments_text segs @ rest) params
      (length pre) result = substitute_loop ((pre @ l @ kStart @ p @ kEnd) @ segments_text segs @ rest)
      params (length (pre @ l @ kStart @ p @ kEnd)) (result @ l @ val)"
    using Cons.prems by (subst substitute_loop_segment) (simp_all add: segments_ok_def seg val)
  also have "\<dots> = substitute_loop ((pre @ l @ kStart @ p @ kEnd) @ segments_text segs @ rest)
      params (length ((pre @ l @ kStart @ p @ kEnd) @ segments_text segs))
      ((result @ l @ val) @ segments_value params segs)"
    using Cons.prems by (intro Cons.IH) (simp_all add: segments_ok_def all_known_def)
  finally show ?case
    by (simp add: segments_text_def segments_value_def seg val)
qed (simp add: segments_text_def segments_value_def)

section \<open>Properties\<close>

text \<open>
  C25.  \<^verbatim>\<open>Substitute\<close> replaces every placeholder of a template by its parameter's value and keeps
  the literal text; values are not expanded again, whatever they contain.
\<close>

theorem Substitute_template:
  assumes "segments_ok segs" and "all_known params segs" and "find_sub kStart rest = None"
  shows "Substitute (segments_text segs @ rest) params = Inr (segments_value params segs @ rest)"
proof -
  have "str_find (segments_text segs @ rest) kStart (length (segments_text segs)) = None"
    using assms(3) by (simp add: str_find_after)
  then show ?thesis
    using substitute_loop_segments [OF assms(1,2), of "[]" rest "[]"]
    by (simp add: Substitute_def substitute_loop.simps [of _ _ "length (segments_text segs)"])
qed

theorem Substitute_template_witness:
  "Substitute ''prefix|{{first}}|{{second}}|suffix'' [(''first'', ''{{x}}''), (''second'', ''two'')]
    = Inr ''prefix|{{x}}|two|suffix''"
  using Substitute_template [of "[(''prefix|'', ''first''), (''|'', ''second'')]"
      "[(''first'', ''{{x}}''), (''second'', ''two'')]" "''|suffix''"]
  by (simp add: segments_ok_def literal_ok_def name_ok_def all_known_def segments_text_def
      segments_value_def kStart_def kEnd_def)

text \<open>
  The error branches of \<^verbatim>\<open>Substitute\<close>: after any number of good placeholders, a placeholder
  that never closes raises the unterminated-placeholder exception at its opening braces, and one
  that names an unknown parameter raises the unknown-parameter exception with that name.
\<close>

theorem Substitute_errors:
  assumes "segments_ok segs" and "all_known params segs" and "literal_ok l"
  shows "(find_sub kEnd rest = None \<longrightarrow>
      Substitute (segments_text segs @ l @ kStart @ rest) params =
        Inl (Unterminated (length (segments_text segs @ l))))
    \<and> (name_ok p \<and> map_of params p = None \<longrightarrow>
      Substitute (segments_text segs @ l @ kStart @ p @ kEnd @ rest) params =
        Inl (UnknownParameter p (length (segments_text segs))))"
proof (intro conjI impI)
  let ?pre = "segments_text segs"
  assume none: "find_sub kEnd rest = None"
  have "str_find (?pre @ l @ kStart @ rest) kEnd (length (?pre @ l @ kStart)) = None"
    using none str_find_after [of "?pre @ l @ kStart" rest kEnd] by simp
  then show "Substitute (?pre @ l @ kStart @ rest) params = Inl (Unterminated (length (?pre @ l)))"
    using substitute_loop_segments [OF assms(1,2), of "[]" "l @ kStart @ rest" "[]"]
      find_placeholder [OF assms(3), of ?pre rest]
    by (simp add: Substitute_def substitute_loop.simps [of _ _ "length ?pre"] add.assoc)
next
  let ?pre = "segments_text segs"
  assume p: "name_ok p \<and> map_of params p = None"
  then show "Substitute (?pre @ l @ kStart @ p @ kEnd @ rest) params =
      Inl (UnknownParameter p (length ?pre))"
    using substitute_loop_segments [OF assms(1,2), of "[]" "l @ kStart @ p @ kEnd @ rest" "[]"]
      substitute_loop_segment [OF assms(3) conjunct1 [OF p], of ?pre rest params]
    by (simp add: Substitute_def)
qed

theorem Substitute_errors_witness:
  "Substitute ''prefix|{{subst|suffix'' [(''subst'', ''v'')] = Inl (Unterminated 7) \<and>
   Substitute ''{{a}}-{{b}}.'' [(''a'', ''1'')] = Inl (UnknownParameter ''b'' 5)"
  using Substitute_errors [of "[]" "[(''subst'', ''v'')]" "''prefix|''" "''subst|suffix''"]
    Substitute_errors [of "[([], ''a'')]" "[(''a'', ''1'')]" "''-''" "''.''" "''b''"]
  by (simp add: segments_ok_def literal_ok_def name_ok_def all_known_def segments_text_def
      kStart_def kEnd_def)

end
