(* ===== verification/Base64.thy ===== *)
theory Base64
  imports Prelude "HOL-Library.Word"
begin

unbundle bit_operations_syntax

text \<open>
  The base64url codec (\<^verbatim>\<open>src/base64.cc\<close>), bit for bit: both loops shift bytes through a 32-bit
  buffer that is never cleared, so the buffers are \<open>32 word\<close>s that wrap around.

  \<^verbatim>\<open>Decode\<close> indexes its 256-entry table with a plain \<^verbatim>\<open>char\<close>, which is signed on the agent's
  platforms: a byte from 128 on becomes a huge index.  Such an access is the value \<open>Inl\<close>.
  The decoder's buffer is a signed \<^verbatim>\<open>int\<close>; it is modelled with the two's complement wrap-around
  compilers produce.
\<close>

section \<open>The code\<close>

type_synonym u32 = "32 word"

definition base64url_chars :: string where
  "base64url_chars = ''ABCDEFGHIJKLMNOPQRSTUVWXYZabcdefghijklmnopqrstuvwxyz0123456789-_''"

definition byte :: "char \<Rightarrow> u32" where
  "byte c = of_nat (of_char c)"

text \<open>\<^verbatim>\<open>base64url_chars[(code_buffer >> code_buffer_size) & 0x3f]\<close>\<close>

definition sextet_char :: "u32 \<Rightarrow> int \<Rightarrow> char" where
  "sextet_char code_buffer code_buffer_size =
     base64url_chars ! unat (drop_bit (nat code_buffer_size) code_buffer AND 0x3f)"

text \<open>The inner \<^verbatim>\<open>while (code_buffer_size >= 0)\<close>.\<close>

function emit_sextets :: "u32 \<Rightarrow> int \<Rightarrow> string \<Rightarrow> int \<times> string" where
  "emit_sextets code_buffer code_buffer_size result =
     (if 0 \<le> code_buffer_size
      then emit_sextets code_buffer (code_buffer_size - 6)
             (result @ [sextet_char code_buffer code_buffer_size])
      else (code_buffer_size, result))"
  by pat_completeness auto
termination
  by (relation "measure (\<lambda>(w, n, r). nat (n + 6))") auto

declare emit_sextets.simps [simp del]

fun encode_loop :: "string \<Rightarrow> u32 \<Rightarrow> int \<Rightarrow> string \<Rightarrow> u32 \<times> int \<times> string" where
  "encode_loop [] code_buffer code_buffer_size result = (code_buffer, code_buffer_size, result)"
| "encode_loop (c # source) code_buffer code_buffer_size result =
     (let code_buffer' = push_bit 8 code_buffer OR byte c;
          (code_buffer_size', result') =
            emit_sextets code_buffer' (code_buffer_size + 8) result
      in encode_loop source code_buffer' code_buffer_size' result')"

definition Encode :: "string \<Rightarrow> string" where
  "Encode source =
     (case encode_loop source 0 (- 6) [] of (code_buffer, code_buffer_size, result) \<Rightarrow>
        if code_buffer_size > - 6
        then result @ [sextet_char (push_bit 8 code_buffer) (code_buffer_size + 8)]
        else result)"

text \<open>The decoder's table: the position of a character in the alphabet, or -1.\<close>

fun index_of :: "char \<Rightarrow> string \<Rightarrow> nat option" where
  "index_of c [] = None"
| "index_of c (d # ds) = (if c = d then Some 0 else map_option Suc (index_of c ds))"

definition decode_table :: "char \<Rightarrow> int" where
  "decode_table c = (case index_of c base64url_chars of None \<Rightarrow> - 1 | Some i \<Rightarrow> int i)"

datatype base64_error = TableIndexOutOfBounds char

fun decode_loop :: "string \<Rightarrow> u32 \<Rightarrow> int \<Rightarrow> string \<Rightarrow> base64_error + string" where
  "decode_loop [] val shift result = Inr result"
| "decode_loop (c # source) val shift result =
     (if 128 \<le> (of_char c :: nat) then Inl (TableIndexOutOfBounds c)
      else if decode_table c = - 1 then Inr result
      else
        let val' = push_bit 6 val + of_int (decode_table c); shift' = shift + 6
        in if 0 \<le> shift'
           then decode_loop source val' (shift' - 8)
                  (result @ [char_of (unat (signed_drop_bit (nat shift') val' AND 0xFF))])
           else decode_loop source val' shift' result)"

definition Decode :: "string \<Rightarrow> base64_error + string" where
  "Decode source = decode_loop source 0 (- 8) []"

section \<open>The alphabet\<close>

lemma length_chars [simp]: "length base64url_chars = 64"
  by (simp add: base64url_chars_def)

lemma chars_distinct: "distinct base64url_chars"
  by (simp add: base64url_chars_def)

lemma chars_ascii: "c \<in> set base64url_chars \<Longrightarrow> (of_char c :: nat) < 128"
  by (auto simp: base64url_chars_def)

lemma index_of_nth: "distinct s \<Longrightarrow> i < length s \<Longrightarrow> index_of (s ! i) s = Some i"
proof (induction s arbitrary: i)
  case (Cons d ds)
  then show ?case by (cases i) auto
qed simp

lemma T_nth [simp]: "i < 64 \<Longrightarrow> decode_table (base64url_chars ! i) = int i"
  by (simp add: decode_table_def index_of_nth chars_distinct)

section \<open>Arithmetic of the buffers\<close>

definition octet :: "char \<Rightarrow> nat" where "octet c = of_char c"

lemma b_bound [simp]: "octet c < 256" and b_inverse [simp]: "char_of (octet c) = c"
  by (simp_all add: octet_def)

lemma byte_take_bit: "byte c = take_bit 8 (byte c)"
proof -
  have "take_bit 8 (of_char c :: nat) = of_char c" by (simp add: take_bit_nat_eq_self)
  then have "of_nat (take_bit 8 (of_char c)) = (of_nat (of_char c) :: u32)" by simp
  then show ?thesis by (simp add: byte_def take_bit_of_nat)
qed

lemma unat_shift_in: "unat (push_bit 8 w OR byte c) = (unat w * 256 + octet c) mod 2 ^ 32" for w :: u32
proof -
  have "push_bit 8 w AND byte c = 0"
    by (subst byte_take_bit) (auto simp: bit_eq_iff bit_simps)
  then have "push_bit 8 w OR byte c = push_bit 8 w + byte c"
    by (simp add: disjunctive_add_eq_or)
  then show ?thesis
    by (simp add: byte_def push_bit_eq_mult unat_word_ariths unat_of_nat octet_def take_bit_eq_mod
        mod_simps mult.commute)
qed

lemma sextet_char_eq:
  "0 \<le> n \<Longrightarrow> sextet_char w n = base64url_chars ! (unat w div 2 ^ nat n mod 64)"
proof -
  have "v AND 63 = take_bit 6 v" for v :: u32
    by (simp add: take_bit_eq_mask mask_eq_exp_minus_1)
  then show ?thesis
    by (simp only: sextet_char_def unsigned_take_bit_eq unat_drop_bit_eq)
      (simp add: take_bit_eq_mod drop_bit_eq_div)
qed

lemma unat_shift_in6:
  "0 \<le> t \<Longrightarrow> t < 64 \<Longrightarrow> unat (push_bit 6 w + of_int t) = (unat w * 64 + nat t) mod 2 ^ 32" for w :: u32
proof -
  assume t: "0 \<le> t" "t < 64"
  have "unat (of_int t :: u32) = nat t"
    using t by (simp add: unsigned_of_int take_bit_eq_mod)
  then show ?thesis
    by (simp add: push_bit_eq_mult unat_word_ariths mod_simps mult.commute)
qed

lemma octet_eq:
  "n \<le> 8 \<Longrightarrow> unat (signed_drop_bit n v AND 0xFF) = unat v div 2 ^ n mod 256" for v :: u32
proof -
  assume n: "n \<le> 8"
  have "signed_drop_bit n v AND 0xFF = take_bit 8 (drop_bit n v)"
  proof -
    have "(0xFF :: u32) = mask 8" by (simp add: mask_eq_exp_minus_1)
    then show ?thesis using n by (auto simp: bit_eq_iff bit_simps)
  qed
  then show ?thesis
    by (simp only: unsigned_take_bit_eq unat_drop_bit_eq)
      (simp add: take_bit_eq_mod drop_bit_eq_div)
qed

text \<open>Only the low bits of the buffers matter.\<close>

lemma encode_low:
  "unat (push_bit 8 w OR byte c) mod 65536 = unat w mod 256 * 256 + octet c"
  "unat (push_bit 8 w OR byte c) mod 256 = octet c" for w :: u32
proof -
  have "n mod 2 ^ 32 mod 65536 = n mod 65536" "n mod 2 ^ 32 mod 256 = n mod 256" for n :: nat
    by (simp_all add: mod_mod_cancel)
  moreover have "(n * 256 + octet c) mod 65536 = n mod 256 * 256 + octet c"
    "(n * 256 + octet c) mod 256 = octet c" for n
    using mod_mult2_eq [of "n * 256 + octet c" 256 256] by simp_all
  ultimately show "unat (push_bit 8 w OR byte c) mod 65536 = unat w mod 256 * 256 + octet c"
    "unat (push_bit 8 w OR byte c) mod 256 = octet c"
    by (simp_all add: unat_shift_in)
qed

lemma decode_low:
  "t < 64 \<Longrightarrow> unat (push_bit 6 v + of_nat t) mod 4096 = unat v mod 64 * 64 + t"
  "t < 64 \<Longrightarrow> unat (push_bit 6 v + of_nat t) mod 64 = t" for v :: u32
proof -
  assume t: "t < 64"
  have "n mod 2 ^ 32 mod 4096 = n mod 4096" "n mod 2 ^ 32 mod 64 = n mod 64" for n :: nat
    by (simp_all add: mod_mod_cancel)
  moreover have "(n * 64 + t) mod 4096 = n mod 64 * 64 + t" "(n * 64 + t) mod 64 = t" for n
    using t mod_mult2_eq [of "n * 64 + t" 64 64] by simp_all
  ultimately show "unat (push_bit 6 v + of_nat t) mod 4096 = unat v mod 64 * 64 + t"
    "unat (push_bit 6 v + of_nat t) mod 64 = t"
    using t unat_shift_in6 [of "int t" v] by simp_all
qed

lemma div_mod_sub: "0 < a \<Longrightarrow> c dvd m \<Longrightarrow> n mod (a * m) div a mod c = n div a mod c"
  for n a c m :: nat
  by (simp add: mod_mult2_eq mod_mod_cancel)

lemma shift_div: "0 < a \<Longrightarrow> (x * (a * m) + y) div a = x * m + y div a" for x a m y :: nat
  using div_mult_self1 [of a y "x * m"] by (simp add: ac_simps)

lemma low_mod: "q < a \<Longrightarrow> (x * a + q) mod (a * m) = x mod m * a + q" for x a m q :: nat
  by (simp add: mod_mult2_eq)

lemma sextet_low:
  "n div 4 mod 64 = n mod 65536 div 4 mod 64"
  "n div 16 mod 64 = n mod 65536 div 16 mod 64"
  "n div 64 mod 64 = n mod 65536 div 64 mod 64"
  "n mod 64 = n mod 65536 mod 64" for n :: nat
  using div_mod_sub [of 4 64 16384 n] apply simp
  using div_mod_sub [of 16 64 4096 n] apply simp
  using div_mod_sub [of 64 64 1024 n] apply simp
  using div_mod_sub [of 1 64 65536 n] apply simp
  done

lemma octet_low:
  "n div 16 mod 256 = n mod 4096 div 16 mod 256"
  "n div 4 mod 256 = n mod 4096 div 4 mod 256"
  "n mod 256 = n mod 4096 mod 256" for n :: nat
  using div_mod_sub [of 16 256 256 n] apply simp
  using div_mod_sub [of 4 256 1024 n] apply simp
  using div_mod_sub [of 1 256 4096 n] apply simp
  done

section \<open>Four characters for three bytes\<close>

definition quad :: "nat \<Rightarrow> nat \<Rightarrow> nat \<Rightarrow> string" where
  "quad x y z = map ((!) base64url_chars)
     [x div 4, x mod 4 * 16 + y div 16, y mod 16 * 4 + z div 64, z mod 64]"

lemma emit_cases:
  "emit_sextets w 2 r = (- 4, r @ [sextet_char w 2])"
  "emit_sextets w 4 r = (- 2, r @ [sextet_char w 4])"
  "emit_sextets w 6 r = (- 6, r @ [sextet_char w 6, sextet_char w 0])"
  by (simp_all add: emit_sextets.simps)

lemma sextet_first: "sextet_char (push_bit 8 w OR byte x) 2 = base64url_chars ! (octet x div 4)"
proof -
  have "(m * 256 + octet x) div 4 mod 64 = octet x div 4" for m
  proof -
    have "octet x div 4 < 64" using b_bound [of x] by linarith
    then show ?thesis
      using shift_div [of 4 m 64 "octet x"] low_mod [of "octet x div 4" 64 m 1] by simp
  qed
  then show ?thesis
    by (simp add: sextet_char_eq sextet_low(1) [of "unat (push_bit 8 w OR byte x)"] encode_low)
qed

lemma sextet_second:
  assumes "unat w mod 256 = x" and "y < 256"
    and "unat v mod 65536 = unat w mod 256 * 256 + y"
  shows "sextet_char v 4 = base64url_chars ! (x mod 4 * 16 + y div 16)"
proof -
  have "(x * 256 + y) div 16 mod 64 = x mod 4 * 16 + y div 16"
    using shift_div [of 16 x 16 y] low_mod [of "y div 16" 16 x 4] assms(2) by simp
  with assms show ?thesis by (simp add: sextet_char_eq sextet_low(2) [of "unat v"])
qed

lemma sextet_third:
  assumes "unat w mod 256 = y" and "z < 256"
    and "unat v mod 65536 = unat w mod 256 * 256 + z"
  shows "sextet_char v 6 = base64url_chars ! (y mod 16 * 4 + z div 64)"
    and "sextet_char v 0 = base64url_chars ! (z mod 64)"
proof -
  have "(y * 256 + z) div 64 mod 64 = y mod 16 * 4 + z div 64"
    using shift_div [of 64 y 4 z] low_mod [of "z div 64" 4 y 16] assms(2) by simp
  moreover have "(y * 256 + z) mod 64 = z mod 64"
    using mod_mult_self1 [of z "4 * y" 64] by (simp add: ac_simps)
  ultimately show "sextet_char v 6 = base64url_chars ! (y mod 16 * 4 + z div 64)"
    "sextet_char v 0 = base64url_chars ! (z mod 64)"
    using assms by (simp_all add: sextet_char_eq sextet_low(3,4) [of "unat v"])
qed

lemma encode_loop_triple:
  "\<exists>w'. encode_loop (x # y # z # s) w (- 6) r = encode_loop s w' (- 6) (r @ quad (octet x) (octet y) (octet z))"
proof -
  let ?w1 = "push_bit 8 w OR byte x"
  let ?w2 = "push_bit 8 ?w1 OR byte y"
  let ?w3 = "push_bit 8 ?w2 OR byte z"
  have "encode_loop (x # y # z # s) w (- 6) r = encode_loop s ?w3 (- 6)
      (r @ [sextet_char ?w1 2, sextet_char ?w2 4, sextet_char ?w3 6, sextet_char ?w3 0])"
    by (simp add: emit_cases Let_def)
  moreover have "[sextet_char ?w1 2, sextet_char ?w2 4, sextet_char ?w3 6, sextet_char ?w3 0] =
      quad (octet x) (octet y) (octet z)"
    by (simp only: quad_def list.map sextet_first
        sextet_second [of ?w1 "octet x" "octet y" ?w2, OF encode_low(2) b_bound encode_low(1)]
        sextet_third [of ?w2 "octet y" "octet z" ?w3, OF encode_low(2) b_bound encode_low(1)])
  ultimately show ?thesis by metis
qed

text \<open>
  The reference: base64url without padding, three bytes at a time (RFC 4648, section 5).
\<close>

fun base64url_spec :: "string \<Rightarrow> string" where
  "base64url_spec [] = []"
| "base64url_spec [x] = take 2 (quad (octet x) 0 0)"
| "base64url_spec [x, y] = take 3 (quad (octet x) (octet y) 0)"
| "base64url_spec (x # y # z # s) = quad (octet x) (octet y) (octet z) @ base64url_spec s"

text \<open>The epilogue of \<^verbatim>\<open>Encode\<close>, which flushes the pending bits.\<close>

definition finish :: "u32 \<times> int \<times> string \<Rightarrow> string" where
  "finish st = (case st of (code_buffer, code_buffer_size, result) \<Rightarrow>
     if code_buffer_size > - 6
     then result @ [sextet_char (push_bit 8 code_buffer) (code_buffer_size + 8)]
     else result)"

lemma unat_shift_zero: "unat (push_bit 8 w) mod 65536 = unat w mod 256 * 256" for w :: u32
proof -
  have "byte (char_of (0::nat)) = 0" and "octet (char_of (0::nat)) = 0" by (simp_all add: byte_def octet_def)
  with encode_low(1) [of w "char_of (0::nat)"] show ?thesis by simp
qed

lemma encode_one:
  "finish (encode_loop [x] w (- 6) r) = r @ take 2 (quad (octet x) 0 0)"
proof -
  let ?w1 = "push_bit 8 w OR byte x"
  have "sextet_char (push_bit 8 ?w1) 4 = base64url_chars ! (octet x mod 4 * 16 + 0 div 16)"
    by (rule sextet_second [of ?w1]) (simp_all only: encode_low unat_shift_zero add_0_right zero_less_numeral)
  then show ?thesis
    by (simp add: Let_def emit_cases finish_def sextet_first quad_def)
qed

lemma encode_two:
  "finish (encode_loop [x, y] w (- 6) r) = r @ take 3 (quad (octet x) (octet y) 0)"
proof -
  let ?w1 = "push_bit 8 w OR byte x"
  let ?w2 = "push_bit 8 ?w1 OR byte y"
  have "sextet_char (push_bit 8 ?w2) 6 = base64url_chars ! (octet y mod 16 * 4 + 0 div 64)"
    by (rule sextet_third [of ?w2]) (simp_all only: encode_low unat_shift_zero add_0_right zero_less_numeral)
  moreover have "sextet_char ?w2 4 = base64url_chars ! (octet x mod 4 * 16 + octet y div 16)"
    by (rule sextet_second [of ?w1]) (simp_all only: encode_low b_bound)
  moreover have "finish (encode_loop [x, y] w (- 6) r) =
      r @ [sextet_char ?w1 2, sextet_char ?w2 4, sextet_char (push_bit 8 ?w2) 6]"
    by (simp add: Let_def emit_cases finish_def)
  ultimately show ?thesis
    by (simp only: sextet_first) (simp add: quad_def)
qed

lemma encode_loop_spec: "finish (encode_loop s w (- 6) r) = r @ base64url_spec s"
proof (induction s arbitrary: w r rule: base64url_spec.induct)
  case 1
  then show ?case by (simp add: finish_def)
next
  case (2 x)
  then show ?case by (simp only: encode_one base64url_spec.simps)
next
  case (3 x y)
  then show ?case by (simp only: encode_two base64url_spec.simps)
next
  case (4 x y z s)
  obtain w' where "encode_loop (x # y # z # s) w (- 6) r =
      encode_loop s w' (- 6) (r @ quad (octet x) (octet y) (octet z))"
    using encode_loop_triple by blast
  with "4.IH" show ?case by (simp only: base64url_spec.simps append_assoc)
qed

section \<open>Decoding\<close>

lemma decode_loop_char:
  assumes "i < 64"
  shows "decode_loop (base64url_chars ! i # s) v shift r =
    (if 0 \<le> shift + 6
     then decode_loop s (push_bit 6 v + of_nat i) (shift - 2)
            (r @ [char_of (unat (signed_drop_bit (nat (shift + 6)) (push_bit 6 v + of_nat i) AND 0xFF))])
     else decode_loop s (push_bit 6 v + of_nat i) (shift + 6) r)"
proof -
  have "(of_char (base64url_chars ! i) :: nat) < 128"
    using assms by (intro chars_ascii) simp
  with assms show ?thesis by (simp add: Let_def)
qed

lemma octet_first:
  fixes v v' :: u32
  assumes "unat v mod 64 = x div 4" and "x < 256" and "q < 16"
    and "unat v' mod 4096 = unat v mod 64 * 64 + (x mod 4 * 16 + q)"
  shows "unat (signed_drop_bit 4 v' AND 0xFF) = x"
proof -
  have "(x div 4 * 64 + (x mod 4 * 16 + q)) div 16 = x div 4 * 4 + (x mod 4 * 16 + q) div 16"
    using shift_div [of 16 "x div 4" 4 "x mod 4 * 16 + q"] by simp
  also have "\<dots> = x"
    using assms(3) by simp
  finally show ?thesis
    using assms by (simp add: octet_eq octet_low(1) [of "unat v'"])
qed

lemma octet_second:
  fixes v v' :: u32
  assumes "unat v mod 64 = p * 16 + y div 16" and "y < 256" and "q < 4"
    and "unat v' mod 4096 = unat v mod 64 * 64 + (y mod 16 * 4 + q)"
  shows "unat (signed_drop_bit 2 v' AND 0xFF) = y"
proof -
  have "((p * 16 + y div 16) * 64 + (y mod 16 * 4 + q)) div 4 =
      (p * 16 + y div 16) * 16 + (y mod 16 * 4 + q) div 4"
    using shift_div [of 4 "p * 16 + y div 16" 16 "y mod 16 * 4 + q"] by simp
  also have "\<dots> = p * 256 + y"
    using assms(3) by (simp add: algebra_simps)
  finally show ?thesis
    using assms by (simp add: octet_eq octet_low(2) [of "unat v'"])
qed

lemma octet_third:
  fixes v v' :: u32
  assumes "unat v mod 64 = p * 4 + z div 64" and "z < 256"
    and "unat v' mod 4096 = unat v mod 64 * 64 + z mod 64"
  shows "unat (signed_drop_bit 0 v' AND 0xFF) = z"
proof -
  have "(p * 4 + z div 64) * 64 + z mod 64 = p * 256 + z"
    by (simp add: algebra_simps)
  then show ?thesis
    using assms octet_eq [of 0 v'] by (simp add: octet_low(3) [of "unat v'"])
qed

lemma sextets_bound:
  fixes x y z :: nat
  assumes "x < 256" "y < 256" "z < 256"
  shows "x div 4 < 64" "x mod 4 * 16 + y div 16 < 64" "y mod 16 * 4 + z div 64 < 64" "z mod 64 < 64"
    "x mod 4 * 16 < 64" "y mod 16 * 4 < 64" "y div 16 < 16" "z div 64 < 4"
proof -
  have "x div 4 < 64" "y div 16 < 16" "z div 64 < 4" using assms by linarith+
  moreover have "x mod 4 < 4" "y mod 16 < 16" by simp_all
  ultimately show "x div 4 < 64" "x mod 4 * 16 + y div 16 < 64" "y mod 16 * 4 + z div 64 < 64"
    "x mod 4 * 16 < 64" "y mod 16 * 4 < 64" "y div 16 < 16" "z div 64 < 4"
    by linarith+
qed simp

text \<open>The first two, three and four characters of a quad yield one, two and three bytes.\<close>

lemma decode_pair:
  assumes "x < 256" "q < 16"
  shows "\<exists>v'. unat v' mod 64 = x mod 4 * 16 + q \<and>
    decode_loop (map ((!) base64url_chars) [x div 4, x mod 4 * 16 + q] @ s) v (- 8) r =
    decode_loop s v' (- 4) (r @ [char_of x])"
proof -
  let ?v1 = "push_bit 6 v + of_nat (x div 4) :: u32"
  let ?v2 = "push_bit 6 ?v1 + of_nat (x mod 4 * 16 + q) :: u32"
  have i: "x div 4 < 64" "x mod 4 * 16 + q < 64"
    using sextets_bound(1) [of x 0 0] sextets_bound(2) [of x "q * 16" 0] assms by simp_all
  have "unat (signed_drop_bit 4 ?v2 AND 0xFF) = x"
    by (rule octet_first [of ?v1 x q]) (use assms i in \<open>simp_all only: decode_low\<close>)
  then have "decode_loop (map ((!) base64url_chars) [x div 4, x mod 4 * 16 + q] @ s) v (- 8) r =
      decode_loop s ?v2 (- 4) (r @ [char_of x])"
    using i by (simp only: list.map append.simps decode_loop_char) simp
  then show ?thesis using i decode_low(2) by blast
qed

lemma decode_third:
  assumes "y < 256" "q < 4" "unat v mod 64 = p * 16 + y div 16"
  shows "\<exists>v'. unat v' mod 64 = y mod 16 * 4 + q \<and>
    decode_loop (base64url_chars ! (y mod 16 * 4 + q) # s) v (- 4) r =
    decode_loop s v' (- 6) (r @ [char_of y])"
proof -
  let ?v = "push_bit 6 v + of_nat (y mod 16 * 4 + q) :: u32"
  have i: "y mod 16 * 4 + q < 64" using sextets_bound(3) [of 0 y "q * 64"] assms by simp
  have "unat (signed_drop_bit 2 ?v AND 0xFF) = y"
    by (rule octet_second [of v p y q]) (use assms i in \<open>simp_all only: decode_low\<close>)
  then have "decode_loop (base64url_chars ! (y mod 16 * 4 + q) # s) v (- 4) r =
      decode_loop s ?v (- 6) (r @ [char_of y])"
    using i by (simp only: decode_loop_char) simp
  then show ?thesis using i decode_low(2) by blast
qed

lemma decode_fourth:
  assumes "z < 256" "unat v mod 64 = p * 4 + z div 64"
  shows "\<exists>v'. decode_loop (base64url_chars ! (z mod 64) # s) v (- 6) r =
    decode_loop s v' (- 8) (r @ [char_of z])"
proof -
  let ?v = "push_bit 6 v + of_nat (z mod 64) :: u32"
  have "unat (signed_drop_bit 0 ?v AND 0xFF) = z"
    by (rule octet_third [of v p z]) (use assms sextets_bound(4) in \<open>simp_all only: decode_low\<close>)
  then have "decode_loop (base64url_chars ! (z mod 64) # s) v (- 6) r =
      decode_loop s ?v (- 8) (r @ [char_of z])"
    by (simp only: decode_loop_char [OF mod_less_divisor] zero_less_numeral) simp
  then show ?thesis by blast
qed

lemma decode_quad:
  assumes "x < 256" "y < 256" "z < 256"
  shows "\<exists>v'. decode_loop (quad x y z @ s) v (- 8) r =
    decode_loop s v' (- 8) (r @ map char_of [x, y, z])"
proof -
  note i = sextets_bound [OF assms]
  obtain v1 where v1: "unat v1 mod 64 = x mod 4 * 16 + y div 16"
    "decode_loop (quad x y z @ s) v (- 8) r = decode_loop (base64url_chars ! (y mod 16 * 4 + z div 64)
      # base64url_chars ! (z mod 64) # s) v1 (- 4) (r @ [char_of x])"
    using decode_pair [OF assms(1) i(7), of "map ((!) base64url_chars)
        [y mod 16 * 4 + z div 64, z mod 64] @ s" v r] by (auto simp: quad_def)
  obtain v2 where v2: "unat v2 mod 64 = y mod 16 * 4 + z div 64"
    "decode_loop (quad x y z @ s) v (- 8) r =
      decode_loop (base64url_chars ! (z mod 64) # s) v2 (- 6) (r @ [char_of x] @ [char_of y])"
    using decode_third [OF assms(2) i(8) v1(1)] v1(2) by (metis append_assoc)
  show ?thesis
    using decode_fourth [OF assms(3) v2(1), of s "r @ [char_of x] @ [char_of y]"] v2(2) by simp
qed

lemma decode_loop_spec: "decode_loop (base64url_spec s) v (- 8) r = Inr (r @ s)"
proof (induction s arbitrary: v r rule: base64url_spec.induct)
  case (2 x)
  show ?case
    using decode_pair [of "octet x" 0 "[]" v r] by (auto simp: quad_def)
next
  case (3 x y)
  obtain v1 where "unat v1 mod 64 = octet x mod 4 * 16 + octet y div 16"
    "decode_loop (base64url_spec [x, y]) v (- 8) r =
      decode_loop [base64url_chars ! (octet y mod 16 * 4 + 0)] v1 (- 4) (r @ [x])"
    using decode_pair [of "octet x" "octet y div 16" "[base64url_chars ! (octet y mod 16 * 4)]" v r]
      sextets_bound(7) [of 0 "octet y" 0] by (auto simp: quad_def)
  with decode_third [of "octet y" 0 v1 "octet x mod 4" "[]" "r @ [x]"] show ?case by auto
next
  case (4 x y z s)
  obtain v' where "decode_loop (quad (octet x) (octet y) (octet z) @ base64url_spec s) v (- 8) r =
      decode_loop (base64url_spec s) v' (- 8) (r @ map char_of [octet x, octet y, octet z])"
    using decode_quad [OF b_bound b_bound b_bound] by blast
  with "4.IH" show ?case by simp
qed simp

lemma T_minus_one_iff: "decode_table c = - 1 \<longleftrightarrow> c \<notin> set base64url_chars"
proof -
  have "index_of c s = None \<longleftrightarrow> c \<notin> set s" for s by (induction s) auto
  then show ?thesis
    by (auto simp: decode_table_def split: option.splits) (metis option.distinct(1))
qed

lemma Cons_split_at:
  "(\<exists>g r. d # s = g @ c # r \<and> Q g) \<longleftrightarrow> (d = c \<and> Q []) \<or> (\<exists>g r. s = g @ c # r \<and> Q (d # g))"
proof
  assume "\<exists>g r. d # s = g @ c # r \<and> Q g"
  then obtain g r where "d # s = g @ c # r" "Q g" by blast
  then show "(d = c \<and> Q []) \<or> (\<exists>g r. s = g @ c # r \<and> Q (d # g))" by (cases g) auto
qed (metis append_Cons append_Nil)

lemma decode_loop_error_iff:
  "decode_loop s v shift r = Inl (TableIndexOutOfBounds c) \<longleftrightarrow>
     (\<exists>good rest. s = good @ c # rest \<and> set good \<subseteq> set base64url_chars \<and> 128 \<le> (of_char c :: nat))"
proof (induction s arbitrary: v shift r)
  case (Cons d s)
  show ?case
    unfolding Cons_split_at using chars_ascii [of d]
    by (auto simp: Cons.IH T_minus_one_iff Let_def)
qed simp

section \<open>Properties\<close>

lemma Encode_spec: "Encode s = base64url_spec s"
  using encode_loop_spec [of s 0 "[]"] by (simp add: Encode_def finish_def)

lemma quad_alphabet:
  assumes "x < 256" "y < 256" "z < 256"
  shows "set (quad x y z) \<subseteq> set base64url_chars"
  using sextets_bound [OF assms] by (auto simp: quad_def intro!: nth_mem)

lemma Encode_alphabet: "set (Encode s) \<subseteq> set base64url_chars"
proof -
  have "set (base64url_spec s) \<subseteq> set base64url_chars"
  proof (induction s rule: base64url_spec.induct)
    case (2 x)
    show ?case using quad_alphabet [of "octet x" 0 0] by (auto dest: in_set_takeD)
  next
    case (3 x y)
    show ?case using quad_alphabet [of "octet x" "octet y" 0] by (auto dest: in_set_takeD)
  next
    case (4 x y z s)
    then show ?case using quad_alphabet [of "octet x" "octet y" "octet z"] by auto
  qed simp
  then show ?thesis by (simp add: Encode_spec)
qed

lemma Decode_of_Encode: "Decode (Encode s) = Inr s"
  by (simp add: Encode_spec Decode_def decode_loop_spec)

text \<open>
  C39.  \<^verbatim>\<open>Encode\<close>, which shifts bytes through a 32-bit buffer it never clears, computes base64url
  without padding: four alphabet characters for every three bytes, two or three for a rest of one
  or two.
\<close>

theorem Encode_is_base64url: "Encode s = base64url_spec s"
  by (rule Encode_spec)

text \<open>
  C5.  \<^verbatim>\<open>Decode\<close> inverts \<^verbatim>\<open>Encode\<close> on every byte string of every length, although its buffer
  wraps around; in particular it never leaves its table on encoded input.
\<close>

theorem Decode_Encode: "Decode (Encode s) = Inr s"
  by (rule Decode_of_Encode)

text \<open>
  When \<^verbatim>\<open>Decode\<close> reads outside its table: exactly when the first byte that is not in the
  alphabet is 128 or more (the table is indexed with a signed \<^verbatim>\<open>char\<close>).  Any other foreign byte
  merely ends the decoding.
\<close>

theorem Decode_out_of_bounds_iff:
  "Decode s = Inl (TableIndexOutOfBounds c) \<longleftrightarrow>
     (\<exists>good rest. s = good @ c # rest \<and> set good \<subseteq> set base64url_chars \<and> 128 \<le> (of_char c :: nat))"
  unfolding Decode_def by (rule decode_loop_error_iff)

end
