(* ===== verification/Resource.thy ===== *)
theory Resource
  imports Json
begin

text \<open>
  Monitored resources (\<^verbatim>\<open>src/resource.h\<close>, \<^verbatim>\<open>src/resource.cc\<close>): a type and a map of labels, with
  the equality and the order that make them keys of the metadata map, the log form and the JSON
  form.  The order is proved to be a linear one, which is what \<^verbatim>\<open>std::map\<close> requires of its keys.
\<close>

section \<open>The code\<close>

datatype MonitoredResource =
  MonitoredResource (resource_type: string) (resource_labels: "(string, string) std_map")

text \<open>The constructor takes the labels as an initializer list and builds the map.\<close>

definition make_resource :: "string \<Rightarrow> (string \<times> string) list \<Rightarrow> MonitoredResource" where
  "make_resource type labels = MonitoredResource type (map_emplace_all labels [])"

definition resource_eq :: "MonitoredResource \<Rightarrow> MonitoredResource \<Rightarrow> bool" where
  "resource_eq this other =
     (resource_type other = resource_type this \<and> resource_labels other = resource_labels this)"

definition resource_less :: "MonitoredResource \<Rightarrow> MonitoredResource \<Rightarrow> bool" where
  "resource_less this other =
     (resource_type this < resource_type other \<or>
      (resource_type this = resource_type other \<and> resource_labels this < resource_labels other))"

definition show_resource :: "MonitoredResource \<Rightarrow> string" where
  "show_resource r =
     (let q = [char_of (39::nat)] in
      ''{ type: '' @ q @ resource_type r @ q @ '' labels: {''
        @ concat (map (\<lambda>(k, v). '' '' @ k @ '': '' @ q @ v @ q) (resource_labels r))
        @ '' } }'')"

definition ToJSON :: "MonitoredResource \<Rightarrow> json" where
  "ToJSON r =
     (let labels = map_emplace_all (map (\<lambda>(k, v). (k, Some (String v))) (resource_labels r)) []
      in object [(''type'', Some (String (resource_type r))),
                 (''labels'', Some (object_of_map labels))])"

definition resource_ok :: "MonitoredResource \<Rightarrow> bool" where
  "resource_ok r = map_ok (resource_labels r)"

section \<open>The order\<close>

instantiation MonitoredResource :: linorder
begin

definition less_MonitoredResource :: "MonitoredResource \<Rightarrow> MonitoredResource \<Rightarrow> bool" where
  "less_MonitoredResource = resource_less"

definition less_eq_MonitoredResource :: "MonitoredResource \<Rightarrow> MonitoredResource \<Rightarrow> bool" where
  "less_eq_MonitoredResource x y = (resource_less x y \<or> x = y)"

instance
proof
  fix x y z :: MonitoredResource
  show "x < y \<longleftrightarrow> x \<le> y \<and> \<not> y \<le> x"
    by (cases x; cases y)
      (auto simp: less_MonitoredResource_def less_eq_MonitoredResource_def resource_less_def)
  show "x \<le> x" by (simp add: less_eq_MonitoredResource_def)
  show "x \<le> z" if "x \<le> y" "y \<le> z"
    using that by (cases x; cases y; cases z)
      (auto simp: less_eq_MonitoredResource_def resource_less_def)
  show "x = y" if "x \<le> y" "y \<le> x"
    using that by (cases x; cases y)
      (auto simp: less_eq_MonitoredResource_def resource_less_def)
  show "x \<le> y \<or> y \<le> x"
    by (cases x; cases y) (auto simp: less_eq_MonitoredResource_def resource_less_def)
qed

end

lemma resource_eq_iff: "resource_eq x y \<longleftrightarrow> x = y"
  by (cases x; cases y) (auto simp: resource_eq_def)

section \<open>JSON form\<close>

lemma resource_ok_make [wf_intros]: "resource_ok (make_resource t ls)"
  by (simp add: resource_ok_def make_resource_def wf_intros)

lemma ToJSON_fields:
  assumes "resource_ok r"
  shows "ToJSON r = Object [(''labels'', Object (map (\<lambda>(k, v). (k, String v)) (resource_labels r))),
    (''type'', String (resource_type r))]"
proof -
  let ?ls = "resource_labels r"
  have "map_ok (map (\<lambda>(k, v). (k, Some (String v))) ?ls)"
    and ok: "map_ok (map (\<lambda>(k, v). (k, String v)) ?ls)"
    using assms by (simp_all add: resource_ok_def)
  moreover have "map (\<lambda>(k, v). (k, Some (String v))) ?ls =
      map (\<lambda>(k, v). (k, Some v)) (map (\<lambda>(k, v). (k, String v)) ?ls)"
    by (simp add: split_def)
  ultimately have "object_of_map (map_emplace_all (map (\<lambda>(k, v). (k, Some (String v))) ?ls) []) =
      Object (map (\<lambda>(k, v). (k, String v)) ?ls)"
    by (simp only: map_emplace_all_copy object_of_map_Some)
  then show ?thesis
    by (simp add: ToJSON_def Let_def object_def object_fields_def map_emplace_all_def
        List.map_filter_simps less_char_def)
qed

lemma json_ok_ToJSON [wf_intros]: "resource_ok r \<Longrightarrow> json_ok (ToJSON r)"
  by (simp add: ToJSON_fields resource_ok_def)
    (auto simp: map_ok_def less_char_def list_all_iff)

text \<open>
  The JSON form of a resource identifies it: two resources with sorted labels that have the
  same JSON are equal, so the resource name sent to the backend or served to a client is unique.
\<close>

theorem ToJSON_injective:
  assumes "resource_ok r" and "resource_ok r'" and "ToJSON r = ToJSON r'"
  shows "r = r'"
proof -
  have "inj (\<lambda>(k :: string, v). (k, String v))" by (auto simp: inj_on_def)
  then have "map (\<lambda>(k, v). (k, String v)) ls = map (\<lambda>(k, v). (k, String v)) ls' \<longleftrightarrow> ls = ls'"
    for ls ls' :: "(string \<times> string) list" by (simp add: inj_map_eq_map)
  with assms show ?thesis
    by (cases r; cases r') (simp add: ToJSON_fields)
qed

theorem ToJSON_injective_witness:
  "let r = make_resource ''gce_instance'' [(''zone'', ''z''), (''instance_id'', ''i'')];
       r' = MonitoredResource ''gce_instance'' [(''instance_id'', ''i''), (''zone'', ''z'')]
   in r = r'"
  unfolding Let_def
  by (rule ToJSON_injective)
    (simp_all add: resource_ok_def make_resource_def map_ok_def map_emplace_all_def less_char_def)

end
