(* ===== verification/Double.thy ===== *)
theory Double
  imports Complex_Main "HOL-Library.Log_Nat"
begin

text \<open>
  Rounding of a rational to a \<^verbatim>\<open>double\<close> (IEEE 754 binary64, round to nearest, ties to even),
  and the rounding of a \<^verbatim>\<open>double\<close> to an integer by \<^verbatim>\<open>std::lround\<close>.  Overflow to infinity is left
  out: the timestamp code, the only user, stays far below it.  The one fact the proofs need is the
  error bound \<open>rnd_error\<close>.
\<close>

definition flog2 :: "rat \<Rightarrow> int" where
  "flog2 q = (case quotient_of q of (n, d) \<Rightarrow>
     let a = bitlen n - bitlen d in if 2 powi a \<le> q then a else a - 1)"

definition round_half_even :: "rat \<Rightarrow> int" where
  "round_half_even x = (let f = \<lfloor>x\<rfloor>; r = x - of_int f in
     if r < 1/2 then f else if 1/2 < r then f + 1 else if even f then f else f + 1)"

definition rnd_pos :: "rat \<Rightarrow> rat" where
  "rnd_pos q = (let u = 2 powi (max (flog2 q) (- 1022) - 52) in of_int (round_half_even (q / u)) * u)"

definition rnd :: "rat \<Rightarrow> rat" where
  "rnd q = (if q = 0 then 0 else if 0 < q then rnd_pos q else - rnd_pos (- q))"

definition lround :: "rat \<Rightarrow> int" where
  "lround x = (if 0 \<le> x then \<lfloor>x + 1/2\<rfloor> else - \<lfloor>- x + 1/2\<rfloor>)"

lemma bitlen_powi:
  assumes "0 < n"
  shows "2 powi (bitlen n - 1) \<le> (of_int n :: rat)" and "(of_int n :: rat) < 2 powi (bitlen n)"
proof -
  have pos: "0 < bitlen n"
    using assms bitlen_nonneg [of n] bitlen_eq_zero_iff [of n] by linarith
  have "2 ^ nat (bitlen n - 1) \<le> n" "n < 2 ^ nat (bitlen n)"
    using bitlen_bounds [OF assms] by auto
  then have "(of_int (2 ^ nat (bitlen n - 1)) :: rat) \<le> of_int n"
    and "(of_int n :: rat) < of_int (2 ^ nat (bitlen n))"
    using of_int_le_iff of_int_less_iff by blast+
  with pos show "2 powi (bitlen n - 1) \<le> (of_int n :: rat)" "(of_int n :: rat) < 2 powi (bitlen n)"
    by (simp_all add: power_int_def)
qed

lemma flog2_bounds:
  assumes "0 < q"
  shows "2 powi (flog2 q) \<le> q"
proof -
  obtain n d where nd: "quotient_of q = (n, d)" by fastforce
  have q: "q = of_int n / of_int d" and d: "0 < d"
    using quotient_of_div [OF nd] quotient_of_denom_pos [OF nd] by auto
  with assms have n: "0 < n" by (simp add: zero_less_divide_iff)
  let ?a = "bitlen n - bitlen d"
  have "2 powi (?a - 1) * (of_int d :: rat) \<le> 2 powi (?a - 1) * 2 powi (bitlen d)"
    using bitlen_powi(2) [OF d] by (intro mult_left_mono) auto
  also have "\<dots> = 2 powi (bitlen n - 1)"
    by (simp flip: power_int_add)
  also have "\<dots> \<le> of_int n" by (rule bitlen_powi(1) [OF n])
  finally have "2 powi (?a - 1) \<le> q"
    using d by (simp add: q le_divide_eq)
  then show ?thesis by (simp add: flog2_def nd Let_def)
qed

lemma flog2_less: "0 < q \<Longrightarrow> q < 2 ^ k \<Longrightarrow> flog2 q < int k"
proof (rule ccontr)
  assume "0 < q" "q < 2 ^ k" "\<not> flog2 q < int k"
  then have "(2 powi (int k) :: rat) \<le> 2 powi (flog2 q)"
    by (intro power_int_increasing) auto
  with flog2_bounds [OF \<open>0 < q\<close>] \<open>q < 2 ^ k\<close> show False by simp
qed

lemma round_half_even_error: "\<bar>of_int (round_half_even x) - x\<bar> \<le> 1/2"
  unfolding round_half_even_def Let_def
  by (auto simp: abs_if) linarith+

lemma rnd_pos_error:
  assumes "0 < q" and "q < 2 ^ k"
  shows "\<bar>rnd_pos q - q\<bar> \<le> 2 powi (int k - 54)"
proof -
  let ?u = "2 powi (max (flog2 q) (- 1022) - 52) :: rat"
  have u: "0 < ?u" by simp
  have "rnd_pos q - q = (of_int (round_half_even (q / ?u)) - q / ?u) * ?u"
    using u by (simp add: rnd_pos_def Let_def left_diff_distrib)
  then have "\<bar>rnd_pos q - q\<bar> = \<bar>of_int (round_half_even (q / ?u)) - q / ?u\<bar> * ?u"
    by (simp add: abs_mult)
  also have "\<dots> \<le> 1/2 * ?u"
    using round_half_even_error u by (intro mult_right_mono) auto
  also have "\<dots> \<le> 1/2 * 2 powi (int k - 53)"
    using flog2_less [OF assms] by (intro mult_left_mono power_int_increasing) auto
  also have "\<dots> = 2 powi (int k - 54)"
    using power_int_add [of "2 :: rat" "int k - 54" 1] by simp
  finally show ?thesis .
qed

lemma rnd_error: "\<bar>q\<bar> < 2 ^ k \<Longrightarrow> \<bar>rnd q - q\<bar> \<le> 2 powi (int k - 54)"
  using rnd_pos_error [of q k] rnd_pos_error [of "- q" k] by (auto simp: rnd_def abs_if split: if_splits)

lemma lround_near: "\<bar>x - of_int n\<bar> < 1/2 \<Longrightarrow> lround x = n"
  unfolding lround_def by (auto simp: abs_if floor_eq_iff split: if_splits) linarith+

end
