(* ===== verification/Agent_Time.thy ===== *)
theory Agent_Time
  imports Prelude Double
begin

text \<open>
  Timestamps, their RFC 3339 form, timers and expirations (\<^verbatim>\<open>src/time.h\<close>, \<^verbatim>\<open>src/time.cc\<close>).

  A \<^verbatim>\<open>time_point\<close> counts nanoseconds since the epoch.  \<^verbatim>\<open>gmtime\<close>, \<^verbatim>\<open>strftime\<close>, \<^verbatim>\<open>strtol\<close> and
  \<^verbatim>\<open>strtod\<close> are modelled from the C++ standard (the decimal form of \<^verbatim>\<open>strtod\<close>, correctly rounded);
  \<^verbatim>\<open>strptime\<close>, a POSIX function, and \<^verbatim>\<open>mktime\<close>, which depends on the time zone database, are the
  parameters \<open>libc\<close>.
\<close>

type_synonym time_point = int

section \<open>The calendar\<close>

record tm =
  tm_year :: int
  tm_mon :: int
  tm_mday :: int
  tm_hour :: int
  tm_min :: int
  tm_sec :: int

definition is_leap :: "int \<Rightarrow> bool" where
  "is_leap y = (4 dvd y \<and> (\<not> 100 dvd y \<or> 400 dvd y))"

definition days_in_year :: "int \<Rightarrow> int" where
  "days_in_year y = (if is_leap y then 366 else 365)"

definition days_in_month :: "int \<Rightarrow> int \<Rightarrow> int" where
  "days_in_month y m =
     (if m = 2 then (if is_leap y then 29 else 28) else if m \<in> {4, 6, 9, 11} then 30 else 31)"

text \<open>The year that contains day \<open>d\<close>, counted from the first day of year \<open>y\<close>.\<close>

function year_day :: "int \<Rightarrow> int \<Rightarrow> int \<times> int" where
  "year_day y d =
     (if d < 0 then year_day (y - 1) (d + days_in_year (y - 1))
      else if d < days_in_year y then (y, d)
      else year_day (y + 1) (d - days_in_year y))"
  by pat_completeness auto
termination
  by (relation "measure (\<lambda>(y, d). if d < 0 then nat (- d) + 1000 else nat d)")
    (auto simp: days_in_year_def split: if_splits)

declare year_day.simps [simp del]

function month_day :: "int \<Rightarrow> int \<Rightarrow> int \<Rightarrow> int \<times> int" where
  "month_day y m d =
     (if 12 \<le> m \<or> d < days_in_month y m then (m, d)
      else month_day y (m + 1) (d - days_in_month y m))"
  by pat_completeness auto
termination
  by (relation "measure (\<lambda>(y, m, d). nat (12 - m))") auto

declare month_day.simps [simp del]

definition gmtime :: "int \<Rightarrow> tm" where
  "gmtime t =
     (let days = t div 86400; secs = t mod 86400;
          (y, yd) = year_day 1970 days;
          (m, md) = month_day y 1 yd
      in \<lparr>tm_year = y, tm_mon = m, tm_mday = md + 1,
          tm_hour = secs div 3600, tm_min = secs mod 3600 div 60, tm_sec = secs mod 60\<rparr>)"

text \<open>The inverse, for the specification: days before a year and a month, seconds of a date.\<close>

definition leaps_before :: "int \<Rightarrow> int" where
  "leaps_before y = (y - 1) div 4 - (y - 1) div 100 + (y - 1) div 400"

definition days_before_year :: "int \<Rightarrow> int" where
  "days_before_year y = 365 * (y - 1970) + leaps_before y - leaps_before 1970"

definition days_before_month :: "int \<Rightarrow> int \<Rightarrow> int" where
  "days_before_month y m = (\<Sum>k \<in> {1..<m}. days_in_month y k)"

definition timegm :: "tm \<Rightarrow> int" where
  "timegm t = (days_before_year (tm_year t) + days_before_month (tm_year t) (tm_mon t)
     + tm_mday t - 1) * 86400 + tm_hour t * 3600 + tm_min t * 60 + tm_sec t"

section \<open>RFC 3339\<close>

record libc =
  strptime :: "string \<Rightarrow> (tm \<times> nat) option"
  mktime :: "tm \<Rightarrow> int"
  start_time :: int

definition trunc_div :: "int \<Rightarrow> int \<Rightarrow> int" where
  "trunc_div a d = sgn a * (\<bar>a\<bar> div d)"

definition pad :: "nat \<Rightarrow> string \<Rightarrow> string" where
  "pad n s = replicate (n - length s) CHR ''0'' @ s"

text \<open>\<^verbatim>\<open>strftime\<close> with the format \<^verbatim>\<open>%Y-%m-%dT%H:%M:%S\<close>.\<close>

definition format_tm :: "tm \<Rightarrow> string" where
  "format_tm t = show_int (tm_year t) @ ''-'' @ pad 2 (show_int (tm_mon t)) @ ''-''
     @ pad 2 (show_int (tm_mday t)) @ ''T'' @ pad 2 (show_int (tm_hour t)) @ '':''
     @ pad 2 (show_int (tm_min t)) @ '':'' @ pad 2 (show_int (tm_sec t))"

definition UTCOffset :: "libc \<Rightarrow> int" where
  "UTCOffset L = start_time L - mktime L (gmtime (start_time L))"

definition rfc3339_ToString :: "time_point \<Rightarrow> string" where
  "rfc3339_ToString t =
     (let time = trunc_div t 1000000000;
          utc_time = gmtime time;
          ns = t - time * 1000000000
      in format_tm utc_time @ ''.'' @ pad 9 (show_int ns) @ ''Z'')"

text \<open>The character a C string pointer reads: the terminator past the end.\<close>

definition char_at :: "string \<Rightarrow> nat \<Rightarrow> char" where
  "char_at s i = (if i < length s then s ! i else CHR 0x00)"

definition is_space :: "char \<Rightarrow> bool" where
  "is_space c = (c \<in> set '' '' \<or> of_char c \<in> {9..(13::nat)})"

text \<open>How far \<^verbatim>\<open>strtol(s, &end, 10)\<close> reads.\<close>

definition strtol_end :: "string \<Rightarrow> nat" where
  "strtol_end s =
     (let ws = length (takeWhile is_space s);
          sg = (if char_at s ws \<in> set ''+-'' then 1 else 0);
          ds = length (takeWhile is_digit (drop (ws + sg) s))
      in if ds = 0 then 0 else ws + sg + ds)"

text \<open>\<^verbatim>\<open>strtod\<close> on decimal digits with an optional fraction: the value and the length read.\<close>

definition strtod :: "string \<Rightarrow> rat \<times> nat" where
  "strtod s =
     (let i = takeWhile is_digit s; r = dropWhile is_digit s
      in if char_at r 0 = CHR ''.''
         then let f = takeWhile is_digit (drop 1 r)
              in (rnd (of_nat (read_nat (i @ f)) / 10 ^ length f), length i + 1 + length f)
         else (rnd (of_nat (read_nat i)), length i))"

definition rfc3339_FromString :: "libc \<Rightarrow> string \<Rightarrow> time_point" where
  "rfc3339_FromString L str =
     (let s = takeWhile (\<lambda>c. c \<noteq> CHR 0x00) str in
      case strptime L s of
        None \<Rightarrow> 0
      | Some (tm, e) \<Rightarrow>
          if \<not> is_digit (char_at s (e - 2)) then 0
          else
            let frac = (char_at s e = CHR ''.'');
                zone = (if frac then e + 1 + strtol_end (drop (e + 1) s) else e)
            in if frac \<and> zone \<le> e + 1 then 0
               else if char_at s zone \<noteq> CHR ''Z'' \<or> char_at s (zone + 1) \<noteq> CHR 0x00 then 0
               else (case strtod (drop (e - 2) s) of (seconds, used) \<Rightarrow>
                 if e - 2 + used \<noteq> zone then 0
                 else
                   let ns = trunc_div (lround (rnd (rnd (seconds - of_int (tm_sec tm)) * 10000000000))) 10;
                       utc_time = mktime L tm + UTCOffset L
                   in utc_time * 1000000000 + ns))"

definition SecondsSinceEpoch :: "time_point \<Rightarrow> int" where
  "SecondsSinceEpoch t = trunc_div t 1000000000"

section \<open>Timers and expirations\<close>

text \<open>
  \<^verbatim>\<open>TimerImpl\<close> uses a timed mutex: locked while the timer runs, unlocked by \<^verbatim>\<open>Cancel\<close>.  \<^verbatim>\<open>Wait\<close>
  tries to take the mutex until its deadline.  The results of its attempts come from the other
  threads and the clock, so they are a list: either the mutex was taken, or the attempt gave up
  with the clock at some reading (a reading before the deadline is a spurious wake-up).  \<open>None\<close> is
  a wait that has not returned yet.  \<^verbatim>\<open>Init\<close> on a locked mutex blocks, and unlocking a mutex that is
  not locked is undefined: both are \<open>None\<close>.
\<close>

record timer =
  timer_locked :: bool

datatype attempt = Taken | GaveUp (clock: int)

definition Init :: "timer \<Rightarrow> timer option" where
  "Init t = (if timer_locked t then None else Some (t\<lparr>timer_locked := True\<rparr>))"

definition Cancel :: "timer \<Rightarrow> timer option" where
  "Cancel t = (if timer_locked t then Some (t\<lparr>timer_locked := False\<rparr>) else None)"

fun wait_loop :: "int \<Rightarrow> attempt list \<Rightarrow> bool option" where
  "wait_loop wakeup [] = None"
| "wait_loop wakeup (Taken # as) = Some False"
| "wait_loop wakeup (GaveUp now # as) = (if now < wakeup then wait_loop wakeup as else Some True)"

definition Wait :: "int \<Rightarrow> int \<Rightarrow> attempt list \<Rightarrow> bool option" where
  "Wait start duration attempts = wait_loop (start + duration) attempts"

record expiration =
  token_expiration :: time_point

definition IsExpired :: "expiration \<Rightarrow> time_point \<Rightarrow> bool" where
  "IsExpired e now = (token_expiration e < now)"

definition Reset :: "int \<Rightarrow> time_point \<Rightarrow> expiration \<Rightarrow> expiration" where
  "Reset duration_s now e = e\<lparr>token_expiration := now + duration_s * 1000000000\<rparr>"

section \<open>An instance of the C library\<close>

text \<open>In UTC, with a \<^verbatim>\<open>strptime\<close> that reads fields of fixed width.\<close>

definition read_tm :: "string \<Rightarrow> (tm \<times> nat) option" where
  "read_tm s = (let num = (\<lambda>i n. int (read_nat (take n (drop i s)))) in
     if length s < 19 then None
     else Some (\<lparr>tm_year = num 0 4, tm_mon = num 5 2, tm_mday = num 8 2,
                 tm_hour = num 11 2, tm_min = num 14 2, tm_sec = num 17 2\<rparr>, 19))"

definition utc_libc :: libc where
  "utc_libc = \<lparr>strptime = read_tm, mktime = timegm, start_time = 0\<rparr>"

section \<open>The calendar is inverted by the specification\<close>

lemma leaps_step: "leaps_before (y + 1) - leaps_before y = (if is_leap y then 1 else 0)"
proof -
  have step: "y div n - (y - 1) div n = of_bool (n dvd y)" if "0 < n" for n :: int
  proof (cases "n dvd y")
    case True
    then obtain k where k: "y = n * k" by blast
    have "(n * k - 1) div n = k - 1"
      using that by (intro int_div_pos_eq [of _ _ _ "n - 1"]) (auto simp: algebra_simps)
    with that k show ?thesis by simp
  next
    case False
    then have "0 < y mod n" using that by (simp add: dvd_eq_mod_eq_0 order_neq_le_trans)
    moreover have "y = n * (y div n) + y mod n" by simp
    ultimately have "(y - 1) div n = y div n"
      using that pos_mod_bound [OF that, of y]
      by (intro int_div_pos_eq [of _ _ _ "y mod n - 1"]) auto
    with False show ?thesis by simp
  qed
  have "is_leap y \<longleftrightarrow> of_bool (4 dvd y) - of_bool (100 dvd y) + of_bool (400 dvd y) = (1::int)"
    "\<not> is_leap y \<longleftrightarrow> of_bool (4 dvd y) - of_bool (100 dvd y) + of_bool (400 dvd y) = (0::int)"
    unfolding is_leap_def using dvd_trans [of 100 400 y] dvd_trans [of 4 100 y] by auto
  with step [of 4] step [of 100] step [of 400] show ?thesis
    by (auto simp: leaps_before_def)
qed

lemma days_before_year_step: "days_before_year (y + 1) = days_before_year y + days_in_year y"
  using leaps_step [of y] by (auto simp: days_before_year_def days_in_year_def)

lemma days_before_month_step:
  assumes "1 \<le> m"
  shows "days_before_month y (m + 1) = days_before_month y m + days_in_month y m"
proof -
  have "{1..<m + 1} = insert m {1..<m}" using assms by auto
  then show ?thesis by (simp add: days_before_month_def)
qed

lemma year_day_spec:
  "year_day y d = (y', d')
    \<Longrightarrow> days_before_year y + d = days_before_year y' + d' \<and> 0 \<le> d' \<and> d' < days_in_year y'"
proof (induction y d rule: year_day.induct)
  case (1 y d)
  consider "d < 0" | "0 \<le> d" "d < days_in_year y" | "0 \<le> d" "days_in_year y \<le> d" by linarith
  then show ?case
  proof cases
    case 1
    with "1.IH"(1) "1.prems" days_before_year_step [of "y - 1"] show ?thesis
      by (simp add: year_day.simps [of y d])
  next
    case 2
    with "1.prems" show ?thesis by (simp add: year_day.simps [of y d])
  next
    case 3
    with "1.IH"(2) "1.prems" days_before_year_step [of y] show ?thesis
      by (simp add: year_day.simps [of y d])
  qed
qed

lemma month_day_spec:
  "month_day y m d = (m', d') \<Longrightarrow> 1 \<le> m
    \<Longrightarrow> days_before_month y m + d = days_before_month y m' + d'"
proof (induction y m d rule: month_day.induct)
  case (1 y m d)
  then show ?case
    using days_before_month_step [of m y]
    by (cases "12 \<le> m \<or> d < days_in_month y m") (simp_all add: month_day.simps [of y m d])
qed

lemma hms_split: "s = s div 3600 * 3600 + s mod 3600 div 60 * 60 + s mod 60" for s :: int
proof -
  have "s mod 3600 mod 60 = s mod 60" by (rule mod_mod_cancel) simp
  then show ?thesis
    using div_mult_mod_eq [of s 3600] div_mult_mod_eq [of "s mod 3600" 60] by linarith
qed

lemma timegm_gmtime [simp]: "timegm (gmtime t) = t"
proof -
  obtain y yd where y: "year_day 1970 (t div 86400) = (y, yd)" by fastforce
  obtain m md where m: "month_day y 1 yd = (m, md)" by fastforce
  have "t div 86400 = days_before_year y + days_before_month y m + md"
    using year_day_spec [OF y] month_day_spec [OF m]
    by (simp add: days_before_year_def days_before_month_def)
  moreover note hms_split [of "t mod 86400"]
  moreover have "t = t div 86400 * 86400 + t mod 86400" by simp
  ultimately show ?thesis
    unfolding gmtime_def timegm_def Let_def y m prod.case by simp
qed

lemma gmtime_sec: "0 \<le> tm_sec (gmtime t)" "tm_sec (gmtime t) < 60"
  by (simp_all add: gmtime_def Let_def split: prod.split)

section \<open>The fraction survives the double arithmetic\<close>

lemma read_nat_append: "read_nat (a @ b) = read_nat a * 10 ^ length b + read_nat b"
proof (induction b rule: rev_induct)
  case (snoc c b)
  have "read_nat (a @ b @ [c]) = 10 * read_nat (a @ b) + digit_val c"
    using read_nat_snoc [of "a @ b" c] by simp
  with snoc show ?case by (simp add: algebra_simps)
qed (simp add: read_nat_def)

lemma read_nat_less: "list_all is_digit s \<Longrightarrow> read_nat s < 10 ^ length s"
proof (induction s rule: rev_induct)
  case (snoc c s)
  then have "digit_val c < 10" by (auto simp: digit_val_def is_digit_def)
  with snoc show ?case by simp
qed (simp add: read_nat_def)

text \<open>
  Seconds below 128 with \<open>n \<le> 10\<close> decimals: parsing, subtracting the whole seconds and scaling by
  \<open>10^10\<close> round three times, by less than half a unit together.
\<close>

lemma lround_fraction:
  fixes s f :: nat
  assumes s: "s < 100" and f: "f < 10 ^ n" and n: "n \<le> 10"
  shows "lround (rnd (rnd (rnd (of_nat (s * 10 ^ n + f) / 10 ^ n) - of_nat s) * 10000000000))
    = int (f * 10 ^ (10 - n))"
proof -
  define x :: rat where "x = of_nat f / 10 ^ n"
  define q where "q = rnd (of_nat s + x)"
  define r where "r = rnd (q - of_nat s)"
  have x: "0 \<le> x" "x < 1" using f by (simp_all add: x_def)
  have q: "\<bar>q - (of_nat s + x)\<bar> \<le> 1 / 140737488355328"
    using rnd_error [of "of_nat s + x" 7] x s by (simp add: q_def)
  have r: "\<bar>r - (q - of_nat s)\<bar> \<le> 1 / 9007199254740992"
  proof -
    have "\<bar>q - of_nat s\<bar> < 2" using x q by linarith
    then show ?thesis using rnd_error [of "q - of_nat s" 1] by (simp add: r_def)
  qed
  have "\<bar>r * 10000000000 - x * 10000000000\<bar> < 1 / 4"
    using q r by linarith
  moreover have "\<bar>rnd (r * 10000000000) - r * 10000000000\<bar> \<le> 1 / 524288"
  proof -
    have "\<bar>r * 10000000000\<bar> < 34359738368" using x q r by linarith
    then show ?thesis using rnd_error [of "r * 10000000000" 35] by simp
  qed
  ultimately have "\<bar>rnd (r * 10000000000) - x * 10000000000\<bar> < 1 / 2" by linarith
  moreover have "x * 10000000000 = of_int (int (f * 10 ^ (10 - n)))"
  proof -
    have "(10::rat) ^ n * 10 ^ (10 - n) = 10000000000" using n by (simp flip: power_add)
    then show ?thesis by (simp add: x_def field_simps)
  qed
  ultimately have "lround (rnd (r * 10000000000)) = int (f * 10 ^ (10 - n))"
    by (intro lround_near) simp
  moreover have "(of_nat (s * 10 ^ n + f) / 10 ^ n :: rat) = of_nat s + x"
    by (simp add: x_def field_simps)
  ultimately show ?thesis by (simp add: q_def r_def)
qed

lemma digit_not [simp]:
  assumes "is_digit c"
  shows "c \<noteq> CHR ''.''" "c \<noteq> CHR ''Z''" "c \<noteq> CHR 0x00" "\<not> is_space c" "c \<noteq> CHR ''+''" "c \<noteq> CHR ''-''"
  using assms by (auto simp: is_digit_def is_space_def)

lemma takeWhile_digits:
  "list_all is_digit f \<Longrightarrow> \<not> is_digit c \<Longrightarrow> takeWhile is_digit (f @ c # r) = f"
  "list_all is_digit f \<Longrightarrow> \<not> is_digit c \<Longrightarrow> dropWhile is_digit (f @ c # r) = c # r"
  by (simp_all add: list_all_iff takeWhile_append2 dropWhile_append2)

lemma not_digit [simp]: "\<not> is_digit CHR ''.''" "\<not> is_digit CHR ''Z''"
  by (simp_all add: is_digit_def)

lemma strtol_end_digits:
  assumes "list_all is_digit f" and "f \<noteq> []"
  shows "strtol_end (f @ ''Z'') = length f"
proof -
  obtain c r where f: "f = c # r" using assms by (cases f) auto
  then have "takeWhile is_space (f @ ''Z'') = []" "char_at (f @ ''Z'') 0 = c"
    using assms by (simp_all add: char_at_def)
  then show ?thesis
    using assms f takeWhile_digits [of f "CHR ''Z''" "[]"] by (simp add: strtol_end_def Let_def)
qed

lemma strtod_digits:
  assumes "list_all is_digit s" and "list_all is_digit f"
  shows "strtod (s @ ''.'' @ f @ ''Z'')
    = (rnd (of_nat (read_nat s * 10 ^ length f + read_nat f) / 10 ^ length f), length s + 1 + length f)"
  using assms by (simp add: strtod_def takeWhile_digits char_at_def Let_def read_nat_append)

lemma char_at_append:
  "char_at (a @ b) (length a + i) = char_at b i" "char_at (c # b) 0 = c"
  by (auto simp: char_at_def nth_append)

lemma FromString_digits:
  assumes strptime: "strptime L (d @ [c1, c2] @ ''.'' @ f @ ''Z'') = Some (t, length d + 2)"
    and sec: "is_digit c1" "is_digit c2" "tm_sec t = int (read_nat [c1, c2])"
    and f: "list_all is_digit f" "1 \<le> length f" "length f \<le> 10"
    and d: "CHR 0x00 \<notin> set d"
  shows "rfc3339_FromString L (d @ [c1, c2] @ ''.'' @ f @ ''Z'')
    = (mktime L t + UTCOffset L) * 1000000000 + int (read_nat f * 10 ^ (10 - length f) div 10)"
proof -
  let ?s = "d @ [c1, c2] @ ''.'' @ f @ ''Z''" and ?e = "length d + 2"
  have nul: "takeWhile (\<lambda>c. c \<noteq> CHR 0x00) ?s = ?s"
    using d f sec by (intro takeWhile_eq_all_conv [THEN iffD2]) (auto simp: list_all_iff is_digit_def)
  have chars: "char_at ?s (?e - 2) = c1" "char_at ?s ?e = CHR ''.''" "char_at ?s (?e + 1 + length f) = CHR ''Z''"
      "char_at ?s (?e + 1 + length f + 1) = CHR 0x00"
    by (auto simp: char_at_def nth_append)
  have zone: "strtol_end (drop (?e + 1) ?s) = length f"
    using f strtol_end_digits [of f] by (cases f) auto
  have "lround (rnd (rnd (fst (strtod (drop (?e - 2) ?s)) - of_int (tm_sec t)) * 10000000000))
      = int (read_nat f * 10 ^ (10 - length f))"
    and used: "snd (strtod (drop (?e - 2) ?s)) = 3 + length f"
    using strtod_digits [of "[c1, c2]" f] sec f read_nat_less [of f] read_nat_less [of "[c1, c2]"]
      lround_fraction [of "read_nat [c1, c2]" "read_nat f" "length f"]
    by simp_all
  then have ns: "trunc_div (lround (rnd (rnd (fst (strtod (drop (?e - 2) ?s)) - of_int (tm_sec t)) * 10000000000))) 10
      = int (read_nat f * 10 ^ (10 - length f) div 10)"
    by (auto simp: trunc_div_def sgn_if zdiv_int)
  show ?thesis
    unfolding rfc3339_FromString_def nul Let_def strptime option.case prod.case chars zone
    using f sec ns used chars by (auto simp: case_prod_beta)
qed

section \<open>Round trip\<close>

lemma read_nat_pad [simp]: "read_nat (pad k s) = read_nat s"
proof -
  have "read_nat (replicate m CHR ''0'') = 0" for m
    by (induction m) (simp_all add: read_nat_def digit_val_def)
  then show ?thesis by (simp add: pad_def read_nat_append)
qed

lemma length_show_nat: "0 < k \<Longrightarrow> n < 10 ^ k \<Longrightarrow> length (show_nat n) \<le> k"
proof (induction n arbitrary: k rule: show_nat.induct)
  case (1 n)
  show ?case
  proof (cases "n < 10")
    case True
    with "1.prems" show ?thesis by (simp add: show_nat.simps [of n])
  next
    case False
    then have "k \<noteq> 1" using "1.prems" by auto
    then obtain j where "k = Suc j" "0 < j" using "1.prems" by (cases k) auto
    moreover have "n div 10 < 10 ^ j" using "1.prems" \<open>k = Suc j\<close> by auto
    ultimately show ?thesis using "1.IH" False by (simp add: show_nat.simps [of n])
  qed
qed

lemma length_pad: "0 < k \<Longrightarrow> n < 10 ^ k \<Longrightarrow> length (pad k (show_nat n)) = k"
  using length_show_nat [of k n] by (simp add: pad_def)

lemma pad_digits: "list_all is_digit (pad k (show_nat n))"
  using show_nat_digits [of _ n] by (auto simp: pad_def list_all_iff is_digit_def)

lemma nul_show_int [simp]: "CHR 0x00 \<notin> set (show_int i)" "CHR 0x00 \<notin> set (pad k (show_int i))"
  using show_nat_digits [of "CHR 0x00"] by (auto simp: show_int_def pad_def is_digit_def split: if_splits)

lemma format_tm_split:
  assumes "0 \<le> tm_sec t" "tm_sec t < 100"
  obtains d c1 c2 where "format_tm t = d @ [c1, c2]" "is_digit c1" "is_digit c2"
    "tm_sec t = int (read_nat [c1, c2])" "CHR 0x00 \<notin> set d"
proof -
  let ?p = "pad 2 (show_int (tm_sec t))"
  have len: "length ?p = 2" and dig: "list_all is_digit ?p" and val: "int (read_nat ?p) = tm_sec t"
    using assms length_pad [of 2 "nat (tm_sec t)"] pad_digits [of 2 "nat (tm_sec t)"]
    by (simp_all add: show_int_def)
  then obtain c1 c2 where "?p = [c1, c2]"
    by (auto simp: length_Suc_conv numeral_2_eq_2)
  moreover from this dig val have "is_digit c1" "is_digit c2" "tm_sec t = int (read_nat [c1, c2])"
    by simp_all
  ultimately show ?thesis
    by (intro that [of "show_int (tm_year t) @ ''-'' @ pad 2 (show_int (tm_mon t)) @ ''-''
       @ pad 2 (show_int (tm_mday t)) @ ''T'' @ pad 2 (show_int (tm_hour t)) @ '':''
       @ pad 2 (show_int (tm_min t)) @ '':''" c1 c2]) (simp_all add: format_tm_def)
qed

text \<open>
  C40.  A timestamp whose date part \<^verbatim>\<open>strptime\<close> accepts, whose seconds have two digits and which has
  between one and ten decimals reads as exactly those nanoseconds: the detour through a double in
  \<^verbatim>\<open>FromString\<close> loses nothing, the digits past the ninth are truncated.
\<close>

theorem FromString_fraction:
  assumes "strptime L (d @ [c1, c2] @ ''.'' @ f @ ''Z'') = Some (t, length d + 2)"
    and "is_digit c1" "is_digit c2" "tm_sec t = int (read_nat [c1, c2])"
    and "list_all is_digit f" "1 \<le> length f" "length f \<le> 10"
    and "CHR 0x00 \<notin> set d"
  shows "rfc3339_FromString L (d @ [c1, c2] @ ''.'' @ f @ ''Z'')
    = (mktime L t + UTCOffset L) * 1000000000 + int (read_nat f * 10 ^ (10 - length f) div 10)"
  using assms by (rule FromString_digits)

theorem FromString_fraction_witness:
  "rfc3339_FromString utc_libc ''1970-01-02T00:00:05.0000000129Z'' = 86405000000012"
proof -
  let ?t = "\<lparr>tm_year = 1970, tm_mon = 1, tm_mday = 2, tm_hour = 0, tm_min = 0, tm_sec = 5\<rparr>"
  have "mktime utc_libc ?t + UTCOffset utc_libc = 86405"
    unfolding UTCOffset_def utc_libc_def
    by (simp add: timegm_def [of ?t] days_before_year_def days_before_month_def)
  then show ?thesis
    using FromString_fraction [of utc_libc "''1970-01-02T00:00:''" "CHR ''0''" "CHR ''5''" "''0000000129''" ?t]
    by (simp add: read_tm_def read_nat_def digit_val_def is_digit_def utc_libc_def)
qed

text \<open>
  C6.  Round trip of timestamps: printing a time at or after the epoch and reading it back gives the
  same nanosecond, whatever the (fixed) time zone, provided \<^verbatim>\<open>strptime\<close> reads back the broken-down
  time that \<^verbatim>\<open>strftime\<close> printed and \<^verbatim>\<open>mktime\<close> without DST is the UTC count less a constant offset.
\<close>

theorem FromString_ToString:
  assumes t: "0 \<le> t"
    and strptime: "strptime L (rfc3339_ToString t)
      = Some (gmtime (t div 1000000000), length (format_tm (gmtime (t div 1000000000))))"
    and mktime: "\<forall>u. mktime L (gmtime u) = timegm (gmtime u) - zone"
  shows "rfc3339_FromString L (rfc3339_ToString t) = t"
proof -
  let ?g = "gmtime (t div 1000000000)" and ?n = "nat (t mod 1000000000)"
  let ?f = "pad 9 (show_nat ?n)"
  obtain d c1 c2 where d: "format_tm ?g = d @ [c1, c2]" "is_digit c1" "is_digit c2"
      "tm_sec ?g = int (read_nat [c1, c2])" "CHR 0x00 \<notin> set d"
    using format_tm_split [of ?g] gmtime_sec [of "t div 1000000000"] by auto
  have sec: "trunc_div t 1000000000 = t div 1000000000"
    using t by (cases "t = 0") (simp_all add: trunc_div_def)
  have s: "rfc3339_ToString t = d @ [c1, c2] @ ''.'' @ ?f @ ''Z''"
  proof -
    have "show_int (t - t div 1000000000 * 1000000000) = show_nat ?n"
      by (simp only: minus_div_mult_eq_mod) (simp add: show_int_def)
    then show ?thesis by (simp add: rfc3339_ToString_def sec Let_def d)
  qed
  have f: "length ?f = 9" by (rule length_pad) (simp_all add: nat_less_iff)
  have "rfc3339_FromString L (d @ [c1, c2] @ ''.'' @ ?f @ ''Z'')
      = (mktime L ?g + UTCOffset L) * 1000000000 + int (read_nat ?f * 10 ^ (10 - length ?f) div 10)"
    using strptime d pad_digits f by (intro FromString_digits) (simp_all add: s)
  also have "\<dots> = t div 1000000000 * 1000000000 + t mod 1000000000"
    using mktime f by (simp add: UTCOffset_def)
  finally show ?thesis by (simp add: s)
qed

lemma gmtime_example:
  "gmtime 100000000 = \<lparr>tm_year = 1973, tm_mon = 3, tm_mday = 3, tm_hour = 9, tm_min = 46, tm_sec = 40\<rparr>"
proof -
  have "year_day 1970 1157 = (1973, 61)" by (simp add: year_day.simps days_in_year_def is_leap_def)
  moreover have "month_day 1973 1 61 = (3, 2)" by (simp add: month_day.simps days_in_month_def is_leap_def)
  ultimately show ?thesis by (simp add: gmtime_def)
qed

theorem FromString_ToString_witness:
  "rfc3339_FromString utc_libc (rfc3339_ToString 100000000012345678) = 100000000012345678"
proof (rule FromString_ToString)
  have "rfc3339_ToString 100000000012345678 = ''1973-03-03T09:46:40.012345678Z''"
    unfolding rfc3339_ToString_def Let_def
    by (simp add: trunc_div_def gmtime_example format_tm_def show_int_def show_nat.simps pad_def
        digit_char_def char_of_def bit_0)
  then show "strptime utc_libc (rfc3339_ToString 100000000012345678)
      = Some (gmtime (100000000012345678 div 1000000000),
          length (format_tm (gmtime (100000000012345678 div 1000000000))))"
    by (simp add: utc_libc_def gmtime_example format_tm_def show_int_def show_nat.simps pad_def
        read_tm_def read_nat_def digit_val_def digit_char_def char_of_def bit_0)
  show "\<forall>u. mktime utc_libc (gmtime u) = timegm (gmtime u) - 0" by (simp add: utc_libc_def)
qed simp

section \<open>Timers\<close>

text \<open>
  The first wake-up that is not spurious decides a \<^verbatim>\<open>Wait\<close>: taking the mutex means it was
  cancelled, an attempt that gave up at or after the deadline means the whole duration has passed.
\<close>

theorem Wait_decided:
  "Wait start d as =
     (case dropWhile (\<lambda>a. a \<noteq> Taken \<and> clock a < start + d) as of
        [] \<Rightarrow> None
      | a # _ \<Rightarrow> Some (a \<noteq> Taken))"
proof -
  have "wait_loop w as =
     (case dropWhile (\<lambda>a. a \<noteq> Taken \<and> clock a < w) as of [] \<Rightarrow> None | a # _ \<Rightarrow> Some (a \<noteq> Taken))" for w
    by (induction w as rule: wait_loop.induct) simp_all
  then show ?thesis by (simp add: Wait_def)
qed

end
