(* ===== verification/Store.thy ===== *)
theory Store
  imports Resource Agent_Time
begin

text \<open>
  The metadata store (\<^verbatim>\<open>src/store.h\<close>, \<^verbatim>\<open>src/store.cc\<close>): the resource map, the metadata map and the
  last collection times.  Every operation holds a mutex for its whole body, so the operations of
  the agent's threads happen one after the other and a history of the store is a list of
  operations.  \<open>store_spec\<close> is the abstract contract (three partial functions); the locale
  \<open>metadata_store\<close> states it as laws and derives what a history leaves in the store, and the
  interpretation \<open>ms\<close> is the refinement of the contract by the code.
\<close>

section \<open>The code\<close>

record Metadata =
  version :: string
  is_deleted :: bool
  created_at :: time_point
  collected_at :: time_point
  metadata :: json
  ignore :: bool

definition make_Metadata :: "string \<Rightarrow> bool \<Rightarrow> time_point \<Rightarrow> time_point \<Rightarrow> json \<Rightarrow> Metadata" where
  "make_Metadata v deleted created collected m =
     \<lparr>version = v, is_deleted = deleted, created_at = created, collected_at = collected,
      metadata = m, ignore = False\<rparr>"

definition IGNORED :: Metadata where
  "IGNORED = \<lparr>version = [], is_deleted = False, created_at = 0, collected_at = 0,
     metadata = object [], ignore = True\<rparr>"

definition Metadata_Clone :: "Metadata \<Rightarrow> Metadata" where
  "Metadata_Clone m =
     (if ignore m then IGNORED
      else make_Metadata (version m) (is_deleted m) (created_at m) (collected_at m) (Clone (metadata m)))"

record MetadataStore =
  resource_map :: "(string, MonitoredResource) std_map"
  metadata_map :: "(MonitoredResource, Metadata) std_map"
  last_collection_times :: "(string, time_point) std_map"

definition empty_store :: MetadataStore where
  "empty_store = \<lparr>resource_map = [], metadata_map = [], last_collection_times = []\<rparr>"

datatype out_of_range = OutOfRange

definition LookupResource :: "MetadataStore \<Rightarrow> string \<Rightarrow> out_of_range + MonitoredResource" where
  "LookupResource s resource_id =
     (case map_of (resource_map s) resource_id of None \<Rightarrow> Inl OutOfRange | Some r \<Rightarrow> Inr r)"

definition UpdateResource :: "string list \<Rightarrow> MonitoredResource \<Rightarrow> MetadataStore \<Rightarrow> MetadataStore" where
  "UpdateResource resource_ids resource s =
     s\<lparr>resource_map := fold (\<lambda>i m. map_emplace i resource m) resource_ids (resource_map s)\<rparr>"

definition update_collection_time :: "string \<Rightarrow> time_point \<Rightarrow> (string, time_point) std_map
    \<Rightarrow> (string, time_point) std_map" where
  "update_collection_time type t ts =
     (case map_of ts type of
        None \<Rightarrow> map_emplace type t ts
      | Some found \<Rightarrow> if found < t then map_assign type t ts else ts)"

definition UpdateMetadata :: "MonitoredResource \<Rightarrow> Metadata \<Rightarrow> MetadataStore \<Rightarrow> MetadataStore" where
  "UpdateMetadata resource entry s =
     (if ignore entry then s
      else s\<lparr>metadata_map := map_emplace resource entry (map_erase resource (metadata_map s)),
             last_collection_times :=
               update_collection_time (resource_type resource) (collected_at entry)
                 (last_collection_times s)\<rparr>)"

definition GetMetadataMap :: "MetadataStore \<Rightarrow> (MonitoredResource, Metadata) std_map" where
  "GetMetadataMap s =
     fold (\<lambda>(resource, m) result. map_emplace resource (Metadata_Clone m) result) (metadata_map s) []"

definition GetLastCollectionTimes :: "MetadataStore \<Rightarrow> (string, time_point) std_map" where
  "GetLastCollectionTimes s = last_collection_times s"

text \<open>The loop over the metadata map with its iterator: an erased element is skipped.\<close>

fun purge_loop :: "(MonitoredResource, Metadata) std_map \<Rightarrow> (MonitoredResource, Metadata) std_map" where
  "purge_loop [] = []"
| "purge_loop ((resource, entry) # rest) =
     (if is_deleted entry then purge_loop rest else (resource, entry) # purge_loop rest)"

definition PurgeDeletedEntries :: "MetadataStore \<Rightarrow> MetadataStore" where
  "PurgeDeletedEntries s = s\<lparr>metadata_map := purge_loop (metadata_map s)\<rparr>"

text \<open>The operations that change the store, as the other threads can order them.\<close>

datatype store_op =
    Op_UpdateResource "string list" MonitoredResource
  | Op_UpdateMetadata MonitoredResource Metadata
  | Op_PurgeDeletedEntries

fun store_step :: "store_op \<Rightarrow> MetadataStore \<Rightarrow> MetadataStore" where
  "store_step (Op_UpdateResource ids r) s = UpdateResource ids r s"
| "store_step (Op_UpdateMetadata r e) s = UpdateMetadata r e s"
| "store_step Op_PurgeDeletedEntries s = PurgeDeletedEntries s"

section \<open>The contract\<close>

record store_spec =
  spec_ids :: "string \<rightharpoonup> MonitoredResource"
  spec_entries :: "MonitoredResource \<rightharpoonup> Metadata"
  spec_times :: "string \<rightharpoonup> time_point"

definition spec_empty :: store_spec where
  "spec_empty = \<lparr>spec_ids = Map.empty, spec_entries = Map.empty, spec_times = Map.empty\<rparr>"

fun spec_step :: "store_op \<Rightarrow> store_spec \<Rightarrow> store_spec" where
  "spec_step (Op_UpdateResource is r) a =
     a\<lparr>spec_ids := (\<lambda>i. if spec_ids a i = None \<and> i \<in> set is then Some r else spec_ids a i)\<rparr>"
| "spec_step (Op_UpdateMetadata r e) a =
     (if ignore e then a
      else a\<lparr>spec_entries := (spec_entries a)(r \<mapsto> e),
             spec_times := (spec_times a)(resource_type r \<mapsto>
               (case spec_times a (resource_type r) of
                  None \<Rightarrow> collected_at e | Some t \<Rightarrow> max t (collected_at e)))\<rparr>)"
| "spec_step Op_PurgeDeletedEntries a =
     a\<lparr>spec_entries := (\<lambda>r. case spec_entries a r of
        Some e \<Rightarrow> if is_deleted e then None else Some e | None \<Rightarrow> None)\<rparr>"

text \<open>What the operations of a history say about ids and collection times.\<close>

fun bindings :: "store_op \<Rightarrow> (string \<times> MonitoredResource) list" where
  "bindings (Op_UpdateResource is r) = map (\<lambda>i. (i, r)) is"
| "bindings _ = []"

fun collections :: "string \<Rightarrow> store_op \<Rightarrow> time_point list" where
  "collections t (Op_UpdateMetadata r e) =
     (if resource_type r = t \<and> \<not> ignore e then [collected_at e] else [])"
| "collections t _ = []"

text \<open>An operation that removes or replaces the entry \<open>e\<close> of \<open>r\<close>.\<close>

fun displaces :: "MonitoredResource \<Rightarrow> Metadata \<Rightarrow> store_op \<Rightarrow> bool" where
  "displaces r e (Op_UpdateMetadata r' e') = (r' = r \<and> \<not> ignore e')"
| "displaces r e Op_PurgeDeletedEntries = is_deleted e"
| "displaces r e (Op_UpdateResource is r') = False"

lemma map_of_alias: "map_of (map (\<lambda>i. (i, r)) xs) i = (if i \<in> set xs then Some r else None)"
  by (induction xs) auto

locale metadata_store =
  fixes abs :: "'s \<Rightarrow> store_spec"
    and step :: "store_op \<Rightarrow> 's \<Rightarrow> 's"
    and start :: 's
    and ok :: "'s \<Rightarrow> bool"
  assumes ok_start: "ok start"
    and ok_step: "ok s \<Longrightarrow> ok (step op s)"
    and abs_start: "abs start = spec_empty"
    and abs_step: "ok s \<Longrightarrow> abs (step op s) = spec_step op (abs s)"
begin

lemma ok_run: "ok s \<Longrightarrow> ok (fold step ops s)"
  by (induction ops arbitrary: s) (auto intro: ok_step)

lemma abs_run: "ok s \<Longrightarrow> abs (fold step ops s) = fold spec_step ops (abs s)"
  by (induction ops arbitrary: s) (simp_all add: abs_step ok_step)

lemma abs_snoc: "abs (fold step (ops @ [op]) start) = spec_step op (abs (fold step ops start))"
  using abs_step [OF ok_run [OF ok_start]] by simp

text \<open>The first registration of an id is the one a lookup returns.\<close>

lemma ids_run: "spec_ids (abs (fold step ops start)) i = map_of (concat (map bindings ops)) i"
proof (induction ops rule: rev_induct)
  case (snoc op ops)
  then show ?case
    by (cases op) (auto simp: abs_snoc map_add_def map_of_alias split: option.splits simp del: fold_append)
qed (simp add: abs_start spec_empty_def)

text \<open>The collection time of a type is the latest one of its updates.\<close>

lemma times_run:
  "spec_times (abs (fold step ops start)) t =
     (let ts = concat (map (collections t) ops) in if ts = [] then None else Some (Max (set ts)))"
proof (induction ops rule: rev_induct)
  case (snoc op ops)
  define ts where "ts = concat (map (collections t) ops)"
  have "spec_times (spec_step op (abs (fold step ops start))) t =
      (if ts @ collections t op = [] then None else Some (Max (set (ts @ collections t op))))"
    using snoc unfolding ts_def [symmetric]
    by (cases op) (auto simp: Let_def max.commute split: if_splits)
  then show ?case by (simp only: abs_snoc ts_def Let_def map_append concat_append list.map concat.simps append_Nil2)
qed (simp add: abs_start spec_empty_def)

text \<open>An entry is present when it was the last update of its resource and no purge removed it.\<close>

lemma entries_run:
  "spec_entries (abs (fold step ops start)) r = Some e \<longleftrightarrow>
     (\<exists>pre post. ops = pre @ Op_UpdateMetadata r e # post \<and> \<not> ignore e
        \<and> list_all (\<lambda>op. \<not> displaces r e op) post)"
proof (induction ops rule: rev_induct)
  case (snoc op ops)
  have "(\<exists>pre post. ops @ [op] = pre @ Op_UpdateMetadata r e # post \<and> \<not> ignore e
        \<and> list_all (\<lambda>op. \<not> displaces r e op) post) \<longleftrightarrow>
      (op = Op_UpdateMetadata r e \<and> \<not> ignore e) \<or>
      (\<not> displaces r e op \<and> (\<exists>pre post. ops = pre @ Op_UpdateMetadata r e # post \<and> \<not> ignore e
        \<and> list_all (\<lambda>op. \<not> displaces r e op) post))" (is "?L \<longleftrightarrow> ?R")
  proof
    assume ?L
    then obtain pre post where "ops @ [op] = pre @ Op_UpdateMetadata r e # post" "\<not> ignore e"
      "list_all (\<lambda>op. \<not> displaces r e op) post" by blast
    then show ?R by (cases post rule: rev_cases) auto
  next
    assume ?R
    then show ?L
    proof
      assume "op = Op_UpdateMetadata r e \<and> \<not> ignore e"
      then show ?L by (intro exI [of _ ops] exI [of _ "[]"]) simp
    next
      assume "\<not> displaces r e op \<and> (\<exists>pre post. ops = pre @ Op_UpdateMetadata r e # post \<and> \<not> ignore e
        \<and> list_all (\<lambda>op. \<not> displaces r e op) post)"
      then obtain pre post where "ops = pre @ Op_UpdateMetadata r e # post" "\<not> ignore e"
        "list_all (\<lambda>op. \<not> displaces r e op) (post @ [op])" by auto
      then show ?L by (intro exI [of _ pre] exI [of _ "post @ [op]"]) simp
    qed
  qed
  then show ?case
    using snoc by (cases op) (auto simp: abs_snoc simp del: fold_append split: option.splits if_splits)
qed (simp add: abs_start spec_empty_def)

end

section \<open>The code refines the contract\<close>

definition abs_store :: "MetadataStore \<Rightarrow> store_spec" where
  "abs_store s = \<lparr>spec_ids = map_of (resource_map s), spec_entries = map_of (metadata_map s),
     spec_times = map_of (last_collection_times s)\<rparr>"

text \<open>
  The maps are sorted, no ignored entry is stored, and the collection time of a type is at least
  that of each of its entries.
\<close>

definition store_ok :: "MetadataStore \<Rightarrow> bool" where
  "store_ok s =
     (map_ok (resource_map s) \<and> map_ok (metadata_map s) \<and> map_ok (last_collection_times s) \<and>
      list_all (\<lambda>(r, e). \<not> ignore e \<and>
        (case map_of (last_collection_times s) (resource_type r) of
           None \<Rightarrow> False | Some t \<Rightarrow> collected_at e \<le> t)) (metadata_map s))"

lemma purge_loop_filter: "purge_loop m = filter (\<lambda>(r, e). \<not> is_deleted e) m"
  by (induction m rule: purge_loop.induct) auto

lemma map_ok_fold_alias [wf_intros]:
  "map_ok m \<Longrightarrow> map_ok (fold (\<lambda>i. map_emplace i r) is m)"
  by (induction "is" arbitrary: m) (auto intro: wf_intros)

lemma map_of_fold_alias:
  "map_ok m \<Longrightarrow> map_of (fold (\<lambda>i. map_emplace i r) is m) i =
     (if map_of m i = None \<and> i \<in> set is then Some r else map_of m i)"
proof (induction "is" arbitrary: m)
  case (Cons j js)
  then show ?case
    using sm.find_emplace [of m j r] map_ok_emplace [of m j r] by (auto split: option.splits)
qed simp

lemma map_ok_update_time [wf_intros]: "map_ok ts \<Longrightarrow> map_ok (update_collection_time k t ts)"
  by (auto simp: update_collection_time_def intro: wf_intros split: option.splits)

lemma map_of_update_time:
  "map_ok ts \<Longrightarrow> map_of (update_collection_time k t ts) =
     (map_of ts)(k \<mapsto> (case map_of ts k of None \<Rightarrow> t | Some t' \<Rightarrow> max t' t))"
  by (auto simp: update_collection_time_def sm.find_emplace sm.find_assign max_def fun_eq_iff
      split: option.splits)

lemma set_emplace_erase:
  "map_ok m \<Longrightarrow> set (map_emplace k v (map_erase k m)) \<subseteq> insert (k, v) (set m)"
  using set_map_emplace [of k v "map_erase k m"] set_map_erase [of k m] by blast

lemma store_ok_step:
  assumes "store_ok s"
  shows "store_ok (store_step op s)"
proof (cases op)
  case (Op_UpdateResource ids r)
  with assms show ?thesis by (simp add: store_ok_def UpdateResource_def wf_intros)
next
  case (Op_UpdateMetadata r e)
  let ?ts = "update_collection_time (resource_type r) (collected_at e) (last_collection_times s)"
  have "\<not> ignore e' \<and> (case map_of ?ts (resource_type r') of None \<Rightarrow> False | Some t \<Rightarrow> collected_at e' \<le> t)"
    if "\<not> ignore e" "(r', e') = (r, e) \<or> (r', e') \<in> set (metadata_map s)" for r' e'
    using that(2)
  proof
    assume "(r', e') \<in> set (metadata_map s)"
    then have "\<not> ignore e' \<and> (case map_of (last_collection_times s) (resource_type r') of
        None \<Rightarrow> False | Some t \<Rightarrow> collected_at e' \<le> t)"
      using assms by (fastforce simp: list_all_iff store_ok_def)
    with assms show ?thesis
      by (auto simp: store_ok_def map_of_update_time max_def split: option.splits)
  qed (use assms that(1) in \<open>auto simp: store_ok_def map_of_update_time split: option.splits\<close>)
  then have "list_all (\<lambda>(r', e'). \<not> ignore e' \<and>
      (case map_of ?ts (resource_type r') of None \<Rightarrow> False | Some t \<Rightarrow> collected_at e' \<le> t))
      (map_emplace r e (map_erase r (metadata_map s)))" if "\<not> ignore e"
    using assms that set_emplace_erase [of "metadata_map s" r e]
    unfolding list_all_iff store_ok_def by blast
  with Op_UpdateMetadata assms show ?thesis
    by (simp add: store_ok_def UpdateMetadata_def wf_intros)
next
  case Op_PurgeDeletedEntries
  with assms show ?thesis
    by (simp add: store_ok_def PurgeDeletedEntries_def purge_loop_filter wf_intros)
      (auto simp: list_all_iff)
qed

lemma abs_store_step:
  assumes "store_ok s"
  shows "abs_store (store_step op s) = spec_step op (abs_store s)"
proof (cases op)
  case (Op_UpdateResource ids r)
  with assms show ?thesis
    by (simp add: abs_store_def store_ok_def UpdateResource_def map_of_fold_alias fun_eq_iff)
next
  case (Op_UpdateMetadata r e)
  with assms show ?thesis
    by (simp add: abs_store_def store_ok_def UpdateMetadata_def map_of_update_time sm.find_erase_emplace)
next
  case Op_PurgeDeletedEntries
  with assms show ?thesis
    by (auto simp: abs_store_def store_ok_def PurgeDeletedEntries_def purge_loop_filter fun_eq_iff
        map_of_filter_snd [OF map_ok_distinct] split: option.splits)
qed

interpretation ms: metadata_store abs_store store_step empty_store store_ok
proof unfold_locales
  show "store_ok empty_store" by (simp add: store_ok_def empty_store_def)
  show "abs_store empty_store = spec_empty" by (simp add: abs_store_def empty_store_def spec_empty_def)
qed (simp_all add: store_ok_step abs_store_step)

lemmas store_ok_run = ms.ok_run [OF ms.ok_start]

lemma GetMetadataMap_eq:
  assumes "store_ok s"
  shows "GetMetadataMap s = map (\<lambda>(r, e). (r, Metadata_Clone e)) (metadata_map s)"
proof -
  have "GetMetadataMap s = map_emplace_all (map (\<lambda>(r, e). (r, Metadata_Clone e)) (metadata_map s)) []"
    by (simp add: GetMetadataMap_def map_emplace_all_def fold_map comp_def split_def)
  moreover have "map_ok (map (\<lambda>(r, e). (r, Metadata_Clone e)) (metadata_map s))"
    using assms by (simp add: store_ok_def)
  ultimately show ?thesis by (simp only: map_emplace_all_copy)
qed

lemma map_of_GetMetadataMap:
  assumes "store_ok s"
  shows "map_of (GetMetadataMap s) r = map_option Metadata_Clone (map_of (metadata_map s) r)"
proof -
  have "map_of (map (\<lambda>(r, e). (r, Metadata_Clone e)) m) r = map_option Metadata_Clone (map_of m r)"
    for m :: "(MonitoredResource, Metadata) std_map"
    by (induction m) auto
  then show ?thesis by (simp add: GetMetadataMap_eq [OF assms])
qed

text \<open>
  C1.  Refinement: each operation of the store, run on a store that satisfies the invariant, keeps the
  invariant (sorted maps, no ignored entries, collection times that cover the entries) and has on the
  three maps exactly the effect of its abstract specification.
\<close>

theorem store_refines:
  assumes "store_ok s"
  shows "store_ok (store_step op s) \<and> abs_store (store_step op s) = spec_step op (abs_store s)"
  using assms store_ok_step abs_store_step by blast

theorem store_refines_witness:
  "let s = UpdateResource [''a''] (MonitoredResource ''t'' []) empty_store
   in abs_store (store_step Op_PurgeDeletedEntries s) = spec_step Op_PurgeDeletedEntries (abs_store s)"
  using store_refines [of "UpdateResource [''a''] (MonitoredResource ''t'' []) empty_store" Op_PurgeDeletedEntries]
  by (simp add: store_ok_def UpdateResource_def empty_store_def map_ok_def)

text \<open>
  C8.  After any history of operations, looking up a local id returns the resource of the first
  registration of that id, later ones having no effect, and throws exactly when there was none.
\<close>

theorem LookupResource_first_registration:
  "LookupResource (fold store_step ops empty_store) resource_id =
     (case map_of (concat (map bindings ops)) resource_id of None \<Rightarrow> Inl OutOfRange | Some r \<Rightarrow> Inr r)"
  using ms.ids_run [of ops resource_id] by (simp add: LookupResource_def abs_store_def)

text \<open>
  C2.  After any history of operations, the map the reporter reads contains for a resource exactly
  the copy of its last entry that was not marked ignored, unless that entry is a deletion and a purge
  followed it; and the map is in the order of the resources.
\<close>

theorem GetMetadataMap_last_update:
  "map_ok (GetMetadataMap (fold store_step ops empty_store)) \<and>
   (map_of (GetMetadataMap (fold store_step ops empty_store)) r = Some e' \<longleftrightarrow>
     (\<exists>e pre post. ops = pre @ Op_UpdateMetadata r e # post \<and> \<not> ignore e
        \<and> list_all (\<lambda>op. \<not> displaces r e op) post \<and> e' = Metadata_Clone e))"
proof -
  let ?s = "fold store_step ops empty_store"
  have ok: "map_ok (metadata_map ?s)" using store_ok_run [of ops] by (simp add: store_ok_def)
  have "map_of (GetMetadataMap ?s) r = Some e' \<longleftrightarrow>
      (\<exists>e. spec_entries (abs_store ?s) r = Some e \<and> e' = Metadata_Clone e)"
    by (auto simp: map_of_GetMetadataMap [OF store_ok_run] abs_store_def)
  with ok show ?thesis
    by (auto simp: GetMetadataMap_eq [OF store_ok_run] ms.entries_run)
qed

text \<open>
  C7.  After any history of operations, the last collection time of a resource type is the latest
  collection time among all entries of that type that were not ignored, whatever the order in which
  they arrived, and is absent exactly when there was none.
\<close>

theorem GetLastCollectionTimes_latest:
  "map_of (GetLastCollectionTimes (fold store_step ops empty_store)) t =
     (let ts = concat (map (collections t) ops) in if ts = [] then None else Some (Max (set ts)))"
  using ms.times_run [of ops t] by (simp add: GetLastCollectionTimes_def abs_store_def)

end
