(* ===== verification/Configuration.thy ===== *)
theory Configuration
  imports Prelude Std_Map
begin

text \<open>
  The agent configuration (\<^verbatim>\<open>src/configuration.h\<close>, \<^verbatim>\<open>src/configuration.cc\<close>): the option
  variables with their accessors, the table of named options with their defaults, the configuration
  file and the command line.

  The parsers are third-party libraries and parameters here: \<^verbatim>\<open>yaml-cpp\<close> is the record \<open>yaml\<close>
  (loading a document as its list of key and value nodes, conversions of a node to a type), and
  \<^verbatim>\<open>boost::program_options\<close> is a function from the arguments to the \<open>flags\<close>.  The contents of a
  file come from the function \<open>file\<close>, a stream that cannot be opened being empty.
\<close>

section \<open>The option variables\<close>

record Configuration =
  verbose_logging :: bool
  project_id :: string
  credentials_file :: string
  metadata_api_num_threads :: int
  metadata_api_port :: int
  metadata_api_bind_address :: string
  metadata_api_resource_type_separator :: string
  metadata_reporter_interval_seconds :: int
  metadata_reporter_purge_deleted :: bool
  metadata_reporter_user_agent :: string
  metadata_ingestion_endpoint_format :: string
  metadata_ingestion_request_size_limit_bytes :: int
  metadata_ingestion_request_size_limit_count :: int
  metadata_ingestion_raw_content_version :: string
  instance_updater_interval_seconds :: int
  instance_resource_type :: string
  docker_updater_interval_seconds :: int
  docker_endpoint_host :: string
  docker_api_version :: string
  docker_container_filter :: string
  kubernetes_updater_interval_seconds :: int
  kubernetes_updater_watch_connection_retries :: int
  kubernetes_updater_watch_max_connection_failures :: int
  kubernetes_updater_watch_reconnect_interval_seconds :: int
  kubernetes_updater_watch_reconnect_max_silence_seconds :: int
  kubernetes_endpoint_host :: string
  kubernetes_pod_label_selector :: string
  kubernetes_cluster_name :: string
  kubernetes_cluster_location :: string
  kubernetes_node_name :: string
  kubernetes_use_watch :: bool
  kubernetes_cluster_level_metadata :: bool
  kubernetes_service_metadata :: bool
  instance_id :: string
  instance_zone :: string
  health_check_max_data_age_seconds :: int

text \<open>
  An option refers to one variable, given by its selector and its update, and has a default.
\<close>

datatype config_option =
    StringOption "Configuration \<Rightarrow> string" "(string \<Rightarrow> string) \<Rightarrow> Configuration \<Rightarrow> Configuration" string
  | IntOption "Configuration \<Rightarrow> int" "(int \<Rightarrow> int) \<Rightarrow> Configuration \<Rightarrow> Configuration" int
  | BoolOption "Configuration \<Rightarrow> bool" "(bool \<Rightarrow> bool) \<Rightarrow> Configuration \<Rightarrow> Configuration" bool

datatype config_value = VString string | VInt int | VBool bool

text \<open>The constructor of \<^verbatim>\<open>OptionDef\<close> stores the default in the variable.\<close>

fun set_default :: "config_option \<Rightarrow> Configuration \<Rightarrow> Configuration" where
  "set_default (StringOption var upd d) c = upd (\<lambda>_. d) c"
| "set_default (IntOption var upd d) c = upd (\<lambda>_. d) c"
| "set_default (BoolOption var upd d) c = upd (\<lambda>_. d) c"

text \<open>The table, in the order of the source; \<open>agent_version\<close> is the macro \<^verbatim>\<open>AGENT_VERSION\<close>.\<close>

definition option_list :: "string \<Rightarrow> (string \<times> config_option) list" where
  "option_list agent_version = [
     (''ProjectId'', StringOption project_id project_id_update ''''),
     (''CredentialsFile'', StringOption credentials_file credentials_file_update ''''),
     (''MetadataApiNumThreads'',
       IntOption metadata_api_num_threads metadata_api_num_threads_update 3),
     (''MetadataApiPort'', IntOption metadata_api_port metadata_api_port_update 8000),
     (''MetadataApiBindAddress'',
       StringOption metadata_api_bind_address metadata_api_bind_address_update ''0.0.0.0''),
     (''MetadataApiResourceTypeSeparator'',
       StringOption metadata_api_resource_type_separator metadata_api_resource_type_separator_update ''.''),
     (''MetadataReporterIntervalSeconds'',
       IntOption metadata_reporter_interval_seconds metadata_reporter_interval_seconds_update 60),
     (''MetadataReporterPurgeDeleted'',
       BoolOption metadata_reporter_purge_deleted metadata_reporter_purge_deleted_update False),
     (''MetadataReporterUserAgent'',
       StringOption metadata_reporter_user_agent
         metadata_reporter_user_agent_update
         (''metadata-agent/'' @ agent_version)),
     (''MetadataIngestionEndpointFormat'',
       StringOption metadata_ingestion_endpoint_format
         metadata_ingestion_endpoint_format_update
         ''https://stackdriver.googleapis.com/v1beta2/projects/{{project_id}}/resourceMetadata:batchUpdate''),
     (''MetadataIngestionRequestSizeLimitBytes'',
       IntOption metadata_ingestion_request_size_limit_bytes
         metadata_ingestion_request_size_limit_bytes_update
         8388608),
     (''MetadataIngestionRequestSizeLimitCount'',
       IntOption metadata_ingestion_request_size_limit_count
         metadata_ingestion_request_size_limit_count_update
         1000),
     (''MetadataIngestionRawContentVersion'',
       StringOption metadata_ingestion_raw_content_version
         metadata_ingestion_raw_content_version_update
         ''0.1''),
     (''InstanceUpdaterIntervalSeconds'',
       IntOption instance_updater_interval_seconds instance_updater_interval_seconds_update 3600),
     (''InstanceResourceType'',
       StringOption instance_resource_type instance_resource_type_update ''''),
     (''DockerUpdaterIntervalSeconds'',
       IntOption docker_updater_interval_seconds docker_updater_interval_seconds_update 0),
     (''DockerEndpointHost'',
       StringOption docker_endpoint_host docker_endpoint_host_update ''unix://%2Fvar%2Frun%2Fdocker.sock/''),
     (''DockerApiVersion'', StringOption docker_api_version docker_api_version_update ''1.23''),
     (''DockerContainerFilter'',
       StringOption docker_container_filter docker_container_filter_update ''limit=30''),
     (''KubernetesUpdaterIntervalSeconds'',
       IntOption kubernetes_updater_interval_seconds kubernetes_updater_interval_seconds_update 0),
     (''KubernetesUpdaterWatchConnectionRetries'',
       IntOption kubernetes_updater_watch_connection_retries
         kubernetes_updater_watch_connection_retries_update
         0),
     (''KubernetesUpdaterWatchMaxConnectionFailures'',
       IntOption kubernetes_updater_watch_max_connection_failures
         kubernetes_updater_watch_max_connection_failures_update
         15),
     (''KubernetesUpdaterWatchReconnectIntervalSeconds'',
       IntOption kubernetes_updater_watch_reconnect_interval_seconds
         kubernetes_updater_watch_reconnect_interval_seconds_update
         3600),
     (''KubernetesUpdaterWatchReconnectMaxSilenceSeconds'',
       IntOption kubernetes_updater_watch_reconnect_max_silence_seconds
         kubernetes_updater_watch_reconnect_max_silence_seconds_update
         300),
     (''KubernetesEndpointHost'',
       StringOption kubernetes_endpoint_host
         kubernetes_endpoint_host_update
         ''https://kubernetes.default.svc''),
     (''KubernetesPodLabelSelector'',
       StringOption kubernetes_pod_label_selector kubernetes_pod_label_selector_update ''''),
     (''KubernetesClusterName'',
       StringOption kubernetes_cluster_name kubernetes_cluster_name_update ''''),
     (''KubernetesClusterLocation'',
       StringOption kubernetes_cluster_location kubernetes_cluster_location_update ''''),
     (''KubernetesNodeName'', StringOption kubernetes_node_name kubernetes_node_name_update ''''),
     (''KubernetesUseWatch'', BoolOption kubernetes_use_watch kubernetes_use_watch_update False),
     (''KubernetesClusterLevelMetadata'',
       BoolOption kubernetes_cluster_level_metadata kubernetes_cluster_level_metadata_update False),
     (''KubernetesServiceMetadata'',
       BoolOption kubernetes_service_metadata kubernetes_service_metadata_update True),
     (''InstanceId'', StringOption instance_id instance_id_update ''''),
     (''InstanceZone'', StringOption instance_zone instance_zone_update ''''),
     (''HealthCheckMaxDataAgeSeconds'',
       IntOption health_check_max_data_age_seconds health_check_max_data_age_seconds_update 300)]"

definition OptionMap :: "string \<Rightarrow> (string, config_option) std_map" where
  "OptionMap agent_version = map_emplace_all (option_list agent_version) []"

text \<open>The storage before the member initialisers run has no defined contents; every variable is set.\<close>

definition uninitialised :: Configuration where
  "uninitialised = \<lparr>
     verbose_logging = False, project_id = '''', credentials_file = '''',
     metadata_api_num_threads = 0, metadata_api_port = 0, metadata_api_bind_address = '''',
     metadata_api_resource_type_separator = '''', metadata_reporter_interval_seconds = 0,
     metadata_reporter_purge_deleted = False, metadata_reporter_user_agent = '''',
     metadata_ingestion_endpoint_format = '''', metadata_ingestion_request_size_limit_bytes =
     0, metadata_ingestion_request_size_limit_count = 0, metadata_ingestion_raw_content_version
     = '''', instance_updater_interval_seconds = 0, instance_resource_type = '''',
     docker_updater_interval_seconds = 0, docker_endpoint_host = '''', docker_api_version =
     '''', docker_container_filter = '''', kubernetes_updater_interval_seconds = 0,
     kubernetes_updater_watch_connection_retries = 0,
     kubernetes_updater_watch_max_connection_failures = 0,
     kubernetes_updater_watch_reconnect_interval_seconds = 0,
     kubernetes_updater_watch_reconnect_max_silence_seconds = 0, kubernetes_endpoint_host =
     '''', kubernetes_pod_label_selector = '''', kubernetes_cluster_name = '''',
     kubernetes_cluster_location = '''', kubernetes_node_name = '''', kubernetes_use_watch =
     False, kubernetes_cluster_level_metadata = False, kubernetes_service_metadata = False,
     instance_id = '''', instance_zone = '''', health_check_max_data_age_seconds = 0\<rparr>"

definition Configuration_new :: "string \<Rightarrow> Configuration" where
  "Configuration_new agent_version =
     fold (\<lambda>(name, opt). set_default opt) (option_list agent_version)
       (uninitialised\<lparr>verbose_logging := False\<rparr>)"

section \<open>Configuration files\<close>

record 'n yaml =
  load :: "string \<Rightarrow> string + ('n \<times> 'n) list"
  as_string :: "'n \<Rightarrow> string option"
  as_int :: "'n \<Rightarrow> int option"
  as_bool :: "'n \<Rightarrow> bool option"

text \<open>\<^verbatim>\<open>var_ = value.as<T>(var_)\<close>: a value that does not convert leaves the variable as it was.\<close>

fun option_Set :: "'n yaml \<Rightarrow> 'n \<Rightarrow> config_option \<Rightarrow> Configuration \<Rightarrow> Configuration" where
  "option_Set Y v (StringOption var upd d) c =
     upd (\<lambda>_. case as_string Y v of Some x \<Rightarrow> x | None \<Rightarrow> var c) c"
| "option_Set Y v (IntOption var upd d) c =
     upd (\<lambda>_. case as_int Y v of Some x \<Rightarrow> x | None \<Rightarrow> var c) c"
| "option_Set Y v (BoolOption var upd d) c =
     upd (\<lambda>_. case as_bool Y v of Some x \<Rightarrow> x | None \<Rightarrow> var c) c"

text \<open>
  The exceptions are those of yaml-cpp: a document that does not parse, a key that is not a scalar
  (thrown after the earlier pairs took effect).
\<close>

definition set_pair :: "string \<Rightarrow> 'n yaml \<Rightarrow> 'n \<times> 'n \<Rightarrow> (Configuration, string, unit) meth" where
  "set_pair agent_version Y kv =
     (case as_string Y (fst kv) of
        None \<Rightarrow> throwM ''bad conversion''
      | Some key \<Rightarrow>
          (case map_of (OptionMap agent_version) key of
             Some opt \<Rightarrow> modifyM (option_Set Y (snd kv) opt)
           | None \<Rightarrow> returnM ()))"

fun iterM :: "('a \<Rightarrow> ('s, 'e, unit) meth) \<Rightarrow> 'a list \<Rightarrow> ('s, 'e, unit) meth" where
  "iterM f [] = returnM ()"
| "iterM f (x # xs) = bindM (f x) (\<lambda>_. iterM f xs)"

definition ParseConfiguration :: "string \<Rightarrow> 'n yaml \<Rightarrow> string \<Rightarrow> (Configuration, string, unit) meth" where
  "ParseConfiguration agent_version Y input =
     bindM (liftM (load Y input)) (iterM (set_pair agent_version Y))"

definition ParseConfigFile ::
  "string \<Rightarrow> 'n yaml \<Rightarrow> (string \<Rightarrow> string) \<Rightarrow> string \<Rightarrow> (Configuration, string, unit) meth" where
  "ParseConfigFile agent_version Y file filename =
     (if filename = [] then returnM () else ParseConfiguration agent_version Y (file filename))"

section \<open>The command line\<close>

record flags =
  flag_help :: bool
  flag_version :: bool
  flag_verbose :: bool
  flag_option :: "string list"
  flag_config_file :: string

text \<open>The document built from the \<^verbatim>\<open>-o KEY=VALUE\<close> options, or the option that has no separator.\<close>

fun option_stream :: "string list \<Rightarrow> string option" where
  "option_stream [] = Some []"
| "option_stream (opt # opts) =
     (case str_find opt ''='' 0 of
        None \<Rightarrow> None
      | Some separator_pos \<Rightarrow>
          (case option_stream opts of
             None \<Rightarrow> None
           | Some rest \<Rightarrow>
               Some (take separator_pos opt @ '': '' @ drop (separator_pos + 1) opt @ [CHR 0x0A] @ rest)))"

definition ParseArguments ::
  "string \<Rightarrow> 'n yaml \<Rightarrow> (string \<Rightarrow> string) \<Rightarrow> (string list \<Rightarrow> flags option) \<Rightarrow> string list
    \<Rightarrow> (Configuration, string, int) meth" where
  "ParseArguments agent_version Y file command_line av =
     (case command_line av of
        None \<Rightarrow> returnM 1
      | Some flags \<Rightarrow>
          bindM (modifyM (\<lambda>c. c\<lparr>verbose_logging := flag_verbose flags\<rparr>)) (\<lambda>_.
          if flag_help flags then returnM (- 1)
          else if flag_version flags then returnM (- 1)
          else
            bindM (ParseConfigFile agent_version Y file (flag_config_file flags)) (\<lambda>_.
            if flag_option flags = [] then returnM 0
            else
              (case option_stream (flag_option flags) of
                 None \<Rightarrow> returnM 1
               | Some options \<Rightarrow>
                   bindM (ParseConfiguration agent_version Y options) (\<lambda>_. returnM 0)))))"

section \<open>An instance of the parsers\<close>

text \<open>Documents of lines \<^verbatim>\<open>key: value\<close> with string nodes.\<close>

fun split_lines :: "string \<Rightarrow> string list" where
  "split_lines [] = []"
| "split_lines (c # cs) =
     (if c = CHR 0x0A then [] # split_lines cs
      else case split_lines cs of [] \<Rightarrow> [[c]] | l # ls \<Rightarrow> (c # l) # ls)"

definition line_yaml :: "string yaml" where
  "line_yaml = \<lparr>
     load = (\<lambda>s. mapE (\<lambda>l. case str_find l '': '' 0 of
        None \<Rightarrow> Inl ''not a pair'' | Some i \<Rightarrow> Inr (take i l, drop (i + 2) l)) (split_lines s)),
     as_string = Some,
     as_int = (\<lambda>v. if v \<noteq> [] \<and> list_all is_digit v then Some (int (read_nat v)) else None),
     as_bool = (\<lambda>v. if v = ''true'' then Some True else if v = ''false'' then Some False else None)\<rparr>"

section \<open>Options are independent variables\<close>

fun option_value :: "config_option \<Rightarrow> Configuration \<Rightarrow> config_value" where
  "option_value (StringOption var upd d) c = VString (var c)"
| "option_value (IntOption var upd d) c = VInt (var c)"
| "option_value (BoolOption var upd d) c = VBool (var c)"

fun option_default :: "config_option \<Rightarrow> config_value" where
  "option_default (StringOption var upd d) = VString d"
| "option_default (IntOption var upd d) = VInt d"
| "option_default (BoolOption var upd d) = VBool d"

text \<open>The value a node gives to an option, if it converts to the option's type.\<close>

fun converted :: "'n yaml \<Rightarrow> config_option \<Rightarrow> 'n \<Rightarrow> config_value option" where
  "converted Y (StringOption var upd d) v = map_option VString (as_string Y v)"
| "converted Y (IntOption var upd d) v = map_option VInt (as_int Y v)"
| "converted Y (BoolOption var upd d) v = map_option VBool (as_bool Y v)"

text \<open>Writing one variable and reading another, or the same one.\<close>

fun write_option :: "config_value \<Rightarrow> config_option \<Rightarrow> Configuration \<Rightarrow> Configuration" where
  "write_option (VString x) (StringOption var upd d) c = upd (\<lambda>_. x) c"
| "write_option (VInt x) (IntOption var upd d) c = upd (\<lambda>_. x) c"
| "write_option (VBool x) (BoolOption var upd d) c = upd (\<lambda>_. x) c"
| "write_option _ _ c = c"

definition unaffected :: "config_option \<Rightarrow> config_option \<Rightarrow> bool" where
  "unaffected o1 o2 = (\<forall>x c. option_value o1 (write_option x o2 c) = option_value o1 c
     \<and> option_value o2 (write_option x o1 c) = option_value o2 c)"

fun reads_back :: "config_option \<Rightarrow> bool" where
  "reads_back (StringOption var upd d) = (\<forall>x c. var (upd (\<lambda>_. x) c) = x)"
| "reads_back (IntOption var upd d) = (\<forall>x c. var (upd (\<lambda>_. x) c) = x)"
| "reads_back (BoolOption var upd d) = (\<forall>x c. var (upd (\<lambda>_. x) c) = x)"

lemma write_option_simps:
  "write_option x (StringOption var upd d) c = (case x of VString y \<Rightarrow> upd (\<lambda>_. y) c | _ \<Rightarrow> c)"
  "write_option x (IntOption ivar iupd i) c = (case x of VInt y \<Rightarrow> iupd (\<lambda>_. y) c | _ \<Rightarrow> c)"
  "write_option x (BoolOption bvar bupd b) c = (case x of VBool y \<Rightarrow> bupd (\<lambda>_. y) c | _ \<Rightarrow> c)"
  by (cases x; simp)+

lemma options_distinct: "distinct (map fst (option_list ver))"
  by (simp add: option_list_def)

lemma unaffected_ss:
  "(\<And>x c. v (u' (\<lambda>_. x) c) = v c) \<Longrightarrow> (\<And>x c. v' (u (\<lambda>_. x) c) = v' c)
    \<Longrightarrow> unaffected (StringOption v u d) (StringOption v' u' d')"
  by (simp add: unaffected_def write_option_simps split: config_value.split)

lemma unaffected_si:
  "(\<And>x c. v (u' (\<lambda>_. x) c) = v c) \<Longrightarrow> (\<And>x c. v' (u (\<lambda>_. x) c) = v' c)
    \<Longrightarrow> unaffected (StringOption v u d) (IntOption v' u' d')"
  by (simp add: unaffected_def write_option_simps split: config_value.split)

lemma unaffected_sb:
  "(\<And>x c. v (u' (\<lambda>_. x) c) = v c) \<Longrightarrow> (\<And>x c. v' (u (\<lambda>_. x) c) = v' c)
    \<Longrightarrow> unaffected (StringOption v u d) (BoolOption v' u' d')"
  by (simp add: unaffected_def write_option_simps split: config_value.split)

lemma unaffected_is:
  "(\<And>x c. v (u' (\<lambda>_. x) c) = v c) \<Longrightarrow> (\<And>x c. v' (u (\<lambda>_. x) c) = v' c)
    \<Longrightarrow> unaffected (IntOption v u d) (StringOption v' u' d')"
  by (simp add: unaffected_def write_option_simps split: config_value.split)

lemma unaffected_ii:
  "(\<And>x c. v (u' (\<lambda>_. x) c) = v c) \<Longrightarrow> (\<And>x c. v' (u (\<lambda>_. x) c) = v' c)
    \<Longrightarrow> unaffected (IntOption v u d) (IntOption v' u' d')"
  by (simp add: unaffected_def write_option_simps split: config_value.split)

lemma unaffected_ib:
  "(\<And>x c. v (u' (\<lambda>_. x) c) = v c) \<Longrightarrow> (\<And>x c. v' (u (\<lambda>_. x) c) = v' c)
    \<Longrightarrow> unaffected (IntOption v u d) (BoolOption v' u' d')"
  by (simp add: unaffected_def write_option_simps split: config_value.split)

lemma unaffected_bs:
  "(\<And>x c. v (u' (\<lambda>_. x) c) = v c) \<Longrightarrow> (\<And>x c. v' (u (\<lambda>_. x) c) = v' c)
    \<Longrightarrow> unaffected (BoolOption v u d) (StringOption v' u' d')"
  by (simp add: unaffected_def write_option_simps split: config_value.split)

lemma unaffected_bi:
  "(\<And>x c. v (u' (\<lambda>_. x) c) = v c) \<Longrightarrow> (\<And>x c. v' (u (\<lambda>_. x) c) = v' c)
    \<Longrightarrow> unaffected (BoolOption v u d) (IntOption v' u' d')"
  by (simp add: unaffected_def write_option_simps split: config_value.split)

lemma unaffected_bb:
  "(\<And>x c. v (u' (\<lambda>_. x) c) = v c) \<Longrightarrow> (\<And>x c. v' (u (\<lambda>_. x) c) = v' c)
    \<Longrightarrow> unaffected (BoolOption v u d) (BoolOption v' u' d')"
  by (simp add: unaffected_def write_option_simps split: config_value.split)

lemmas unaffectedI = unaffected_ss unaffected_si unaffected_sb unaffected_is unaffected_ii unaffected_ib
  unaffected_bs unaffected_bi unaffected_bb

lemma options_unaffected: "sorted_wrt unaffected (map snd (option_list ver))"
  unfolding option_list_def list.map snd_conv sorted_wrt.simps list.set ball_simps
  by (intro conjI TrueI ballI unaffectedI) simp_all

lemma options_read_back: "list_all reads_back (map snd (option_list ver))"
  by (simp add: option_list_def)

lemma options_not_verbose:
  "list_all (\<lambda>(n, opt). \<forall>b c. option_value opt (c\<lparr>verbose_logging := b\<rparr>) = option_value opt c) (option_list ver)"
  by (simp add: option_list_def)

lemma unaffected_sym: "unaffected o1 o2 \<Longrightarrow> unaffected o2 o1"
  by (auto simp: unaffected_def)

lemma option_unaffected:
  assumes "map_of (option_list ver) n1 = Some o1" and "map_of (option_list ver) n2 = Some o2" and "n1 \<noteq> n2"
  shows "unaffected o1 o2"
proof -
  let ?l = "option_list ver"
  obtain i j where ij: "i < length ?l" "?l ! i = (n1, o1)" "j < length ?l" "?l ! j = (n2, o2)"
    using map_of_SomeD [OF assms(1)] map_of_SomeD [OF assms(2)] unfolding in_set_conv_nth by auto
  with assms(3) consider "i < j" | "j < i" by fastforce
  then show ?thesis
  proof cases
    case 1
    then show ?thesis
      using ij options_unaffected [of ver] unfolding sorted_wrt_iff_nth_less by fastforce
  next
    case 2
    then have "unaffected o2 o1"
      using ij options_unaffected [of ver] unfolding sorted_wrt_iff_nth_less by fastforce
    then show ?thesis by (rule unaffected_sym)
  qed
qed

lemma option_reads_back: "map_of (option_list ver) n = Some opt \<Longrightarrow> reads_back opt"
  using options_read_back [of ver] by (fastforce simp: list_all_iff dest: map_of_SomeD)

lemma map_of_OptionMap: "map_of (OptionMap ver) n = map_of (option_list ver) n"
  by (simp add: OptionMap_def map_of_emplace_all)

lemma option_Set_write:
  "option_Set Y v opt c =
     write_option (case converted Y opt v of Some x \<Rightarrow> x | None \<Rightarrow> option_value opt c) opt c"
  by (cases opt) (auto split: option.splits)

lemma option_value_write:
  "reads_back opt \<Longrightarrow> option_value opt (write_option (case converted Y opt v of Some x \<Rightarrow> x | None \<Rightarrow> option_value opt c) opt c)
     = (case converted Y opt v of Some x \<Rightarrow> x | None \<Rightarrow> option_value opt c)"
  by (cases opt) (auto split: option.splits)

text \<open>The values a document gives to an option, in document order.\<close>

definition given_values :: "'n yaml \<Rightarrow> string \<Rightarrow> config_option \<Rightarrow> ('n \<times> 'n) list \<Rightarrow> config_value list" where
  "given_values Y name opt kvs =
     List.map_filter (\<lambda>(k, v). if as_string Y k = Some name then converted Y opt v else None) kvs"

definition keys_ok :: "'n yaml \<Rightarrow> ('n \<times> 'n) list \<Rightarrow> bool" where
  "keys_ok Y kvs = list_all (\<lambda>(k, v). as_string Y k \<noteq> None) kvs"

lemma given_values_simps [simp]:
  "given_values Y name opt [] = []"
  "given_values Y name opt ((k, v) # kvs) =
     (case if as_string Y k = Some name then converted Y opt v else None of
        None \<Rightarrow> given_values Y name opt kvs | Some x \<Rightarrow> x # given_values Y name opt kvs)"
  by (simp_all add: given_values_def List.map_filter_simps split: option.split)

lemma set_pair_value:
  assumes opt: "map_of (option_list ver) name = Some opt" and key: "as_string Y k = Some key"
  obtains c' where "set_pair ver Y (k, v) c = (Inr (), c')"
    and "option_value opt c' = last (option_value opt c # given_values Y name opt [(k, v)])"
proof (cases "map_of (option_list ver) key")
  case None
  then have "key \<noteq> name" using opt by auto
  with None key that [of c] show ?thesis
    by (simp add: set_pair_def map_of_OptionMap meth_simps)
next
  case (Some opt')
  have "option_value opt (option_Set Y v opt' c) = last (option_value opt c # given_values Y name opt [(k, v)])"
  proof (cases "key = name")
    case True
    then show ?thesis
      using Some opt key option_value_write [OF option_reads_back [OF opt], of c Y v]
      by (cases "converted Y opt v") (auto simp: option_Set_write)
  next
    case False
    then show ?thesis
      using key option_unaffected [OF opt Some]
      by (auto simp: option_Set_write unaffected_def)
  qed
  with Some key that show ?thesis
    by (auto simp: set_pair_def map_of_OptionMap meth_simps)
qed

lemma iterM_set_pair:
  assumes opt: "map_of (option_list ver) name = Some opt" and "keys_ok Y kvs"
  shows "\<exists>c'. iterM (set_pair ver Y) kvs c = (Inr (), c')
    \<and> option_value opt c' = last (option_value opt c # given_values Y name opt kvs)"
  using assms(2)
proof (induction kvs arbitrary: c)
  case Nil
  then show ?case by (simp add: meth_simps)
next
  case (Cons kv kvs)
  obtain k v where kv: "kv = (k, v)" by fastforce
  with Cons.prems obtain key where key: "as_string Y k = Some key" and rest: "keys_ok Y kvs"
    by (auto simp: keys_ok_def)
  obtain c1 where c1: "set_pair ver Y (k, v) c = (Inr (), c1)"
    "option_value opt c1 = last (option_value opt c # given_values Y name opt [(k, v)])"
    using set_pair_value [OF opt key] by metis
  obtain c' where c': "iterM (set_pair ver Y) kvs c1 = (Inr (), c')"
    "option_value opt c' = last (option_value opt c1 # given_values Y name opt kvs)"
    using Cons.IH [OF rest] by blast
  have "given_values Y name opt (kv # kvs) = given_values Y name opt [(k, v)] @ given_values Y name opt kvs"
    by (simp add: kv split: option.splits)
  then have "option_value opt c' = last (option_value opt c # given_values Y name opt (kv # kvs))"
    using c' c1 by (simp only:) (simp add: last_append)
  with c1 c' show ?case by (simp add: kv meth_simps)
qed

lemma ParseConfiguration_value:
  assumes "load Y input = Inr kvs" and "keys_ok Y kvs" and "map_of (option_list ver) name = Some opt"
  shows "\<exists>c'. ParseConfiguration ver Y input c = (Inr (), c')
    \<and> option_value opt c' = last (option_value opt c # given_values Y name opt kvs)"
  using iterM_set_pair [OF assms(3,2)] assms(1) by (simp add: ParseConfiguration_def meth_simps)

lemma Configuration_new_value:
  assumes "map_of (option_list ver) name = Some opt"
  shows "option_value opt (Configuration_new ver) = option_default opt"
proof -
  have same: "option_value o1 (set_default o1 c) = option_default o1" if "reads_back o1" for o1 c
    using that by (cases o1) auto
  have other: "option_value o1 (set_default o2 c) = option_value o1 c" if "unaffected o1 o2" for o1 o2 c
  proof -
    have "set_default o2 c = write_option (option_default o2) o2 c" by (cases o2) auto
    with that show ?thesis by (simp add: unaffected_def)
  qed
  have "option_value opt (fold (\<lambda>(name, opt). set_default opt) xs c) =
      (if name \<in> fst ` set xs then option_default opt else option_value opt c)"
    if "set xs \<subseteq> set (option_list ver)" for xs c
    using that
  proof (induction xs arbitrary: c)
    case (Cons x xs)
    obtain n o' where x: "x = (n, o')" by fastforce
    with Cons.prems have o': "map_of (option_list ver) n = Some o'"
      using map_of_is_SomeI [OF options_distinct] by auto
    show ?case
    proof (cases "n = name")
      case True
      with o' assms Cons show ?thesis by (auto simp: x same option_reads_back)
    next
      case False
      with o' assms Cons other [OF option_unaffected [OF assms o']] show ?thesis by (auto simp: x)
    qed
  qed simp
  moreover have "name \<in> fst ` set (option_list ver)"
    using assms by (force dest: map_of_SomeD)
  ultimately show ?thesis by (simp add: Configuration_new_def)
qed

section \<open>Precedence of defaults, file and command line\<close>

text \<open>
  Parsing a document gives every option the last value in the document that converts to the
  option's type; without one the option keeps what it had.  Unknown keys and values of the wrong type
  change nothing.
\<close>

theorem ParseConfiguration_last_wins:
  assumes "load Y input = Inr kvs" and "keys_ok Y kvs" and "map_of (option_list ver) name = Some opt"
  shows "\<exists>c'. ParseConfiguration ver Y input c = (Inr (), c')
    \<and> option_value opt c' = last (option_value opt c # given_values Y name opt kvs)"
  using assms by (rule ParseConfiguration_value)

theorem ParseConfiguration_last_wins_witness:
  "\<exists>c'. ParseConfiguration ''1.0'' line_yaml (''MetadataApiPort: 1'' @ [CHR 0x0A] @ ''MetadataApiPort: x'')
        (Configuration_new ''1.0'') = (Inr (), c') \<and> metadata_api_port c' = 1"
proof -
  let ?opt = "IntOption metadata_api_port metadata_api_port_update 8000"
  have "load line_yaml (''MetadataApiPort: 1'' @ [CHR 0x0A] @ ''MetadataApiPort: x'')
      = Inr [(''MetadataApiPort'', ''1''), (''MetadataApiPort'', ''x'')]"
    by (simp add: line_yaml_def str_simps)
  moreover have "map_of (option_list ''1.0'') ''MetadataApiPort'' = Some ?opt" by (simp add: option_list_def)
  moreover have "keys_ok line_yaml [(''MetadataApiPort'', ''1''), (''MetadataApiPort'', ''x'')]"
    by (simp add: keys_ok_def line_yaml_def)
  moreover have "given_values line_yaml ''MetadataApiPort'' ?opt [(''MetadataApiPort'', ''1''), (''MetadataApiPort'', ''x'')]
      = [VInt 1]"
    by (simp add: line_yaml_def is_digit_def digit_val_def)
  ultimately show ?thesis
    using ParseConfiguration_last_wins [of line_yaml _ _ "''1.0''" "''MetadataApiPort''" ?opt] by fastforce
qed

text \<open>The pairs of a document that may not be given at all.\<close>

definition given_pairs :: "'n yaml \<Rightarrow> string option \<Rightarrow> ('n \<times> 'n) list \<Rightarrow> bool" where
  "given_pairs Y doc kvs =
     (case doc of None \<Rightarrow> kvs = [] | Some input \<Rightarrow> load Y input = Inr kvs \<and> keys_ok Y kvs)"

lemma given_document_value:
  assumes "given_pairs Y doc kvs" and "map_of (option_list ver) name = Some opt"
  shows "\<exists>c'. (case doc of None \<Rightarrow> returnM () | Some input \<Rightarrow> ParseConfiguration ver Y input) c = (Inr (), c')
    \<and> option_value opt c' = last (option_value opt c # given_values Y name opt kvs)"
proof (cases doc)
  case None
  with assms(1) show ?thesis by (simp add: given_pairs_def meth_simps)
next
  case (Some input)
  with assms(1) have "load Y input = Inr kvs" "keys_ok Y kvs" by (simp_all add: given_pairs_def)
  from ParseConfiguration_value [OF this assms(2), of c] Some show ?thesis by simp
qed

text \<open>
  C26.  Starting from a fresh configuration, a command line that boost accepts, that asks neither for help
  nor for the version and whose documents (the file and the explicit options, each present or not) load with
  string keys returns zero, and every option then has the last value given on the command line, or else the
  last one of the file, or else its default.
\<close>

theorem ParseArguments_precedence:
  assumes cmd: "command_line av = Some flags" "\<not> flag_help flags" "\<not> flag_version flags"
    and conf: "given_pairs Y (if flag_config_file flags = [] then None else Some (file (flag_config_file flags))) in_file"
    and opts: "option_stream (flag_option flags) = Some doc"
      "given_pairs Y (if flag_option flags = [] then None else Some doc) on_cmd"
    and opt: "map_of (option_list ver) name = Some opt"
  shows "\<exists>c'. ParseArguments ver Y file command_line av (Configuration_new ver) = (Inr 0, c')
    \<and> option_value opt c' =
        last (option_default opt # given_values Y name opt in_file @ given_values Y name opt on_cmd)"
proof -
  let ?c = "(Configuration_new ver)\<lparr>verbose_logging := flag_verbose flags\<rparr>"
  have "option_value opt ?c = option_value opt (Configuration_new ver)"
    using options_not_verbose [of ver] map_of_SomeD [OF opt] by (auto simp: list_all_iff)
  then have "option_value opt ?c = option_default opt" using Configuration_new_value [OF opt] by simp
  moreover obtain c1 where c1: "ParseConfigFile ver Y file (flag_config_file flags) ?c = (Inr (), c1)"
    "option_value opt c1 = last (option_value opt ?c # given_values Y name opt in_file)"
    using given_document_value [OF conf opt, of ?c] by (auto simp: ParseConfigFile_def split: if_splits)
  moreover obtain c' where c': "(if flag_option flags = [] then returnM () else ParseConfiguration ver Y doc) c1 = (Inr (), c')"
    "option_value opt c' = last (option_value opt c1 # given_values Y name opt on_cmd)"
    using given_document_value [OF opts(2) opt, of c1] by (auto split: if_splits)
  ultimately show ?thesis
    using cmd opts(1) by (auto simp: ParseArguments_def meth_simps last_append split: if_splits)
qed

theorem ParseArguments_precedence_witness:
  "let flags = \<lparr>flag_help = False, flag_version = False, flag_verbose = True,
                flag_option = [''MetadataApiPort=9''], flag_config_file = ''conf''\<rparr>
   in \<exists>c'. ParseArguments ''1.0'' line_yaml (\<lambda>f. ''MetadataApiPort: 1'') (\<lambda>av. Some flags)
             [''-v'', ''-o'', ''MetadataApiPort=9'', ''conf''] (Configuration_new ''1.0'') = (Inr 0, c')
           \<and> metadata_api_port c' = 9"
proof -
  let ?opt = "IntOption metadata_api_port metadata_api_port_update 8000"
  let ?flags = "\<lparr>flag_help = False, flag_version = False, flag_verbose = True,
                flag_option = [''MetadataApiPort=9''], flag_config_file = ''conf''\<rparr>"
  have "load line_yaml ''MetadataApiPort: 1'' = Inr [(''MetadataApiPort'', ''1'')]"
    "load line_yaml (''MetadataApiPort: 9'' @ [CHR 0x0A]) = Inr [(''MetadataApiPort'', ''9'')]"
    by (simp_all add: line_yaml_def str_simps)
  moreover have "option_stream [''MetadataApiPort=9''] = Some (''MetadataApiPort: 9'' @ [CHR 0x0A])"
    by (simp add: str_simps)
  moreover have "map_of (option_list ''1.0'') ''MetadataApiPort'' = Some ?opt" by (simp add: option_list_def)
  moreover have "keys_ok line_yaml [(''MetadataApiPort'', x)]" for x
    by (simp add: keys_ok_def line_yaml_def)
  moreover have "given_values line_yaml ''MetadataApiPort'' ?opt [(''MetadataApiPort'', ''9'')] = [VInt 9]"
    by (simp add: line_yaml_def is_digit_def digit_val_def)
  ultimately show ?thesis
    using ParseArguments_precedence [of "\<lambda>av. Some ?flags" "[''-v'', ''-o'', ''MetadataApiPort=9'', ''conf'']" ?flags
        line_yaml "\<lambda>f. ''MetadataApiPort: 1''"
        "[(''MetadataApiPort'', ''1'')]" "''MetadataApiPort: 9'' @ [CHR 0x0A]" "[(''MetadataApiPort'', ''9'')]"
        "''1.0''" "''MetadataApiPort''" ?opt]
    unfolding Let_def given_pairs_def by simp
qed

end
