(* ===== verification/Environment.thy ===== *)
theory Environment
  imports Configuration Json Format Agent_Time
begin

text \<open>
  What the process runs on, and the environment detection (\<^verbatim>\<open>src/environment.h\<close>,
  \<^verbatim>\<open>src/environment.cc\<close>).

  The HTTP client, the clock, the environment variables and the file system are not code of the
  repository.  They are the parameter \<open>platform\<close>: functions of a world state of type \<open>'w\<close> that the
  model threads through every operation, so the order of requests is explicit.  yajl is part of it.
\<close>

section \<open>The platform\<close>

datatype http_method = GET | POST

record request =
  req_method :: http_method
  req_url :: string
  req_headers :: "(string \<times> string) list"
  req_body :: string

record response =
  resp_status :: int
  resp_message :: string
  resp_body :: string

text \<open>
  A request ends in a response or in a \<^verbatim>\<open>boost::system::system_error\<close> with its message.
\<close>

record ('w, 'y) platform =
  http_client :: "request \<Rightarrow> 'w \<Rightarrow> (string + response) \<times> 'w"
  system_now :: "'w \<Rightarrow> time_point \<times> 'w"
  getenv :: "string \<Rightarrow> string option"
  open_file :: "string \<Rightarrow> string option"
  parser :: "'y yajl"
  generator :: serializer

text \<open>The message of the error thrown for an unsuccessful response.\<close>

definition server_error :: "response \<Rightarrow> string" where
  "server_error r =
     (case Substitute (''Server responded with '' @ [CHR 0x27] @ ''{{message}}'' @ [CHR 0x27] @ '' ({{code}})'')
        (map_emplace_all [(''message'', resp_message r), (''code'', show_int (resp_status r))] [])
      of Inl e \<Rightarrow> format_what e | Inr s \<Rightarrow> s)"

section \<open>The code\<close>

record Environment =
  env_project_id :: string
  env_zone :: string
  env_instance_id :: string
  env_instance_resource_type :: string
  env_kubernetes_cluster_name :: string
  env_kubernetes_cluster_location :: string
  env_client_email :: string
  env_private_key :: string
  env_credentials_project_id :: string
  env_metadata_server_url :: string
  env_credentials_read :: bool

definition kGceMetadataServerAddress :: string where
  "kGceMetadataServerAddress = ''http://metadata.google.internal./computeMetadata/v1/''"

definition kGceInstanceResourceType :: string where
  "kGceInstanceResourceType = ''gce_instance''"

definition Environment_new :: Environment where
  "Environment_new =
     \<lparr>env_project_id = [], env_zone = [], env_instance_id = [], env_instance_resource_type = [],
      env_kubernetes_cluster_name = [], env_kubernetes_cluster_location = [], env_client_email = [],
      env_private_key = [], env_credentials_project_id = [],
      env_metadata_server_url = kGceMetadataServerAddress, env_credentials_read = False\<rparr>"

datatype credentials_error = CredentialsJson json_exception | NoCredentials string

definition ReadCredentials :: "('w, 'y) platform \<Rightarrow> string \<Rightarrow> credentials_error + json" where
  "ReadCredentials P creds_file =
     (let filename =
        (if creds_file = [] then
           (case getenv P ''GOOGLE_APPLICATION_CREDENTIALS'' of
              Some creds_env_var \<Rightarrow> creds_env_var
            | None \<Rightarrow> ''/etc/google/auth/application_default_credentials.json'')
         else creds_file)
      in case open_file P filename of
           None \<Rightarrow> Inl (NoCredentials filename)
         | Some input \<Rightarrow>
             (case FromStream (parser P) input of
                Inl e \<Rightarrow> Inl (CredentialsJson e)
              | Inr None \<Rightarrow>
                  Inl (CredentialsJson (Explanation (''Could not parse credentials from '' @ filename)))
              | Inr (Some creds_json) \<Rightarrow> Inr creds_json))"

text \<open>
  The state of a method is the environment and the world; all cached members are mutable.  A failed
  request is logged and gives the empty string.
\<close>

definition GetMetadataString ::
  "('w, 'y) platform \<Rightarrow> string \<Rightarrow> Environment \<times> 'w \<Rightarrow> string \<times> Environment \<times> 'w" where
  "GetMetadataString P path s =
     (case http_client P
        \<lparr>req_method = GET, req_url = env_metadata_server_url (fst s) @ path,
         req_headers = [(''Metadata-Flavor'', ''Google'')], req_body = []\<rparr> (snd s) of
        (Inr response, w) \<Rightarrow> (if resp_status response < 300 then resp_body response else [], fst s, w)
      | (Inl e, w) \<Rightarrow> ([], fst s, w))"

text \<open>
  The three fields are stored one after the other: an exception keeps those stored before it.
\<close>

definition store_credentials :: "json \<Rightarrow> (Environment, json_exception, unit) meth" where
  "store_credentials creds_json =
     bindM (liftM (As_Object creds_json)) (\<lambda>creds.
     bindM (liftM (Get_String creds ''client_email'')) (\<lambda>email.
     bindM (modifyM (\<lambda>e. e\<lparr>env_client_email := email\<rparr>)) (\<lambda>_.
     bindM (liftM (Get_String creds ''private_key'')) (\<lambda>key.
     bindM (modifyM (\<lambda>e. e\<lparr>env_private_key := key\<rparr>)) (\<lambda>_.
     if Has creds ''project_id'' then
       bindM (liftM (Get_String creds ''project_id'')) (\<lambda>project.
       modifyM (\<lambda>e. e\<lparr>env_credentials_project_id := project\<rparr>))
     else returnM ())))))"

definition ReadApplicationDefaultCredentials ::
  "('w, 'y) platform \<Rightarrow> Configuration \<Rightarrow> Environment \<Rightarrow> Environment" where
  "ReadApplicationDefaultCredentials P config env =
     (if env_credentials_read env then env
      else
        (case ReadCredentials P (credentials_file config) of
           Inl e \<Rightarrow> env
         | Inr creds_json \<Rightarrow> snd (store_credentials creds_json env))\<lparr>env_credentials_read := True\<rparr>)"

text \<open>
  \<^verbatim>\<open>client_email_.substr(at + 1, new_style - at - 1)\<close>: the count is a \<^verbatim>\<open>size_t\<close> and wraps.
\<close>

definition email_project :: "string \<Rightarrow> string" where
  "email_project client_email =
     (case str_find client_email ''.iam.gserviceaccount.com'' 0 of
        None \<Rightarrow> []
      | Some new_style \<Rightarrow>
          (case str_find client_email ''@'' 0 of
             None \<Rightarrow> []
           | Some at_pos \<Rightarrow>
               str_substr client_email (at_pos + 1)
                 (nat ((int new_style - int at_pos - 1) mod 2 ^ 64))))"

definition ProjectId ::
  "('w, 'y) platform \<Rightarrow> Configuration \<Rightarrow> Environment \<times> 'w \<Rightarrow> string \<times> Environment \<times> 'w" where
  "ProjectId P config s =
     (let env = fst s; w = snd s in
      if env_project_id env \<noteq> [] then (env_project_id env, s)
      else if project_id config \<noteq> [] then
        (project_id config, env\<lparr>env_project_id := project_id config\<rparr>, w)
      else
        let env = ReadApplicationDefaultCredentials P config env;
            found = (if env_credentials_project_id env \<noteq> [] then env_credentials_project_id env
                     else if env_client_email env \<noteq> [] then email_project (env_client_email env)
                     else [])
        in if found \<noteq> [] then (found, env\<lparr>env_project_id := found\<rparr>, w)
           else (case GetMetadataString P ''project/project-id'' (env, w) of
                   (p, env, w) \<Rightarrow> (p, env\<lparr>env_project_id := p\<rparr>, w)))"

definition InstanceZone ::
  "('w, 'y) platform \<Rightarrow> Configuration \<Rightarrow> Environment \<times> 'w \<Rightarrow> string \<times> Environment \<times> 'w" where
  "InstanceZone P config s =
     (if env_zone (fst s) \<noteq> [] then (env_zone (fst s), s)
      else if instance_zone config \<noteq> [] then
        (instance_zone config, (fst s)\<lparr>env_zone := instance_zone config\<rparr>, snd s)
      else (case GetMetadataString P ''instance/zone'' s of
              (z, env, w) \<Rightarrow>
                let zone = drop (case str_rfind z CHR ''/'' of None \<Rightarrow> 0 | Some i \<Rightarrow> i + 1) z
                in (zone, env\<lparr>env_zone := zone\<rparr>, w)))"

definition InstanceId ::
  "('w, 'y) platform \<Rightarrow> Configuration \<Rightarrow> Environment \<times> 'w \<Rightarrow> string \<times> Environment \<times> 'w" where
  "InstanceId P config s =
     (if env_instance_id (fst s) \<noteq> [] then (env_instance_id (fst s), s)
      else if instance_id config \<noteq> [] then
        (instance_id config, (fst s)\<lparr>env_instance_id := instance_id config\<rparr>, snd s)
      else (case GetMetadataString P ''instance/id'' s of
              (i, env, w) \<Rightarrow> (i, env\<lparr>env_instance_id := i\<rparr>, w)))"

definition InstanceResourceType ::
  "Configuration \<Rightarrow> Environment \<times> 'w \<Rightarrow> string \<times> Environment \<times> 'w" where
  "InstanceResourceType config s =
     (if env_instance_resource_type (fst s) \<noteq> [] then (env_instance_resource_type (fst s), s)
      else
        let type = (if instance_resource_type config \<noteq> [] then instance_resource_type config
                    else kGceInstanceResourceType)
        in (type, (fst s)\<lparr>env_instance_resource_type := type\<rparr>, snd s))"

definition KubernetesClusterName ::
  "('w, 'y) platform \<Rightarrow> Configuration \<Rightarrow> Environment \<times> 'w \<Rightarrow> string \<times> Environment \<times> 'w" where
  "KubernetesClusterName P config s =
     (if env_kubernetes_cluster_name (fst s) \<noteq> [] then (env_kubernetes_cluster_name (fst s), s)
      else if kubernetes_cluster_name config \<noteq> [] then
        (kubernetes_cluster_name config,
         (fst s)\<lparr>env_kubernetes_cluster_name := kubernetes_cluster_name config\<rparr>, snd s)
      else (case GetMetadataString P ''instance/attributes/cluster-name'' s of
              (n, env, w) \<Rightarrow> (n, env\<lparr>env_kubernetes_cluster_name := n\<rparr>, w)))"

text \<open>The loop over the lines of the kube-env; \<open>None\<close> when no line has the variable.\<close>

fun kube_env_zone :: "string list \<Rightarrow> string option" where
  "kube_env_zone [] = None"
| "kube_env_zone (line # ls) =
     (if str_find line ''ZONE: '' 0 = Some 0
      then Some (drop ((case str_find line '':'' 0 of None \<Rightarrow> 0 | Some i \<Rightarrow> i) + 2) line)
      else kube_env_zone ls)"

definition KubernetesClusterLocation ::
  "('w, 'y) platform \<Rightarrow> Configuration \<Rightarrow> Environment \<times> 'w \<Rightarrow> string \<times> Environment \<times> 'w" where
  "KubernetesClusterLocation P config s =
     (if env_kubernetes_cluster_location (fst s) \<noteq> [] then (env_kubernetes_cluster_location (fst s), s)
      else if kubernetes_cluster_location config \<noteq> [] then
        (kubernetes_cluster_location config,
         (fst s)\<lparr>env_kubernetes_cluster_location := kubernetes_cluster_location config\<rparr>, snd s)
      else (case GetMetadataString P ''instance/attributes/cluster-location'' s of
              (l, env, w) \<Rightarrow>
                if l \<noteq> [] then (l, env\<lparr>env_kubernetes_cluster_location := l\<rparr>, w)
                else (case GetMetadataString P ''instance/attributes/kube-env'' (env, w) of
                        (kube_env, env, w) \<Rightarrow>
                          let zone = (case kube_env_zone (split_lines kube_env) of Some z \<Rightarrow> z | None \<Rightarrow> [])
                          in (zone, env\<lparr>env_kubernetes_cluster_location := zone\<rparr>, w))))"

definition CredentialsClientEmail ::
  "('w, 'y) platform \<Rightarrow> Configuration \<Rightarrow> Environment \<Rightarrow> string \<times> Environment" where
  "CredentialsClientEmail P config env =
     (let env = ReadApplicationDefaultCredentials P config env in (env_client_email env, env))"

definition CredentialsPrivateKey ::
  "('w, 'y) platform \<Rightarrow> Configuration \<Rightarrow> Environment \<Rightarrow> string \<times> Environment" where
  "CredentialsPrivateKey P config env =
     (let env = ReadApplicationDefaultCredentials P config env in (env_private_key env, env))"

section \<open>Cached members\<close>

text \<open>
  The contract of a cached string member: a non-empty cache is returned without further effect,
  and a call leaves what it returned in the cache.
\<close>

locale cached_member =
  fixes cache :: "'s \<Rightarrow> string" and getter :: "'s \<Rightarrow> string \<times> 's"
  assumes hit: "cache s \<noteq> [] \<Longrightarrow> getter s = (cache s, s)"
    and fill: "getter s = (x, t) \<Longrightarrow> cache t = x"
begin

lemma cached_stable:
  assumes "getter s = (x, t)" and "x \<noteq> []"
  shows "((snd \<circ> getter) ^^ n) t = t \<and> getter t = (x, t)"
proof -
  have "getter t = (x, t)" using assms hit [of t] fill by fastforce
  then show ?thesis by (induction n) simp_all
qed

end

lemma GetMetadataString_env [simp]: "fst (snd (GetMetadataString P path s)) = fst s"
  by (simp add: GetMetadataString_def split: prod.split sum.split)

lemma ReadApplicationDefaultCredentials_twice [simp]:
  "ReadApplicationDefaultCredentials P c (ReadApplicationDefaultCredentials P c env)
     = ReadApplicationDefaultCredentials P c env"
  by (simp add: ReadApplicationDefaultCredentials_def)

interpretation project: cached_member "env_project_id \<circ> fst" "ProjectId P config"
  for P :: "('w, 'y) platform" and config
  by unfold_locales (auto simp: ProjectId_def Let_def split: if_splits prod.splits)

interpretation zone: cached_member "env_zone \<circ> fst" "InstanceZone P config"
  for P :: "('w, 'y) platform" and config
  by unfold_locales (auto simp: InstanceZone_def Let_def split: if_splits prod.splits)

interpretation instance_id: cached_member "env_instance_id \<circ> fst" "InstanceId P config"
  for P :: "('w, 'y) platform" and config
  by unfold_locales (auto simp: InstanceId_def Let_def split: if_splits prod.splits)

interpretation resource_type: cached_member "env_instance_resource_type \<circ> fst" "InstanceResourceType config"
  for config
  by unfold_locales (auto simp: InstanceResourceType_def Let_def split: if_splits prod.splits)

interpretation cluster_name: cached_member "env_kubernetes_cluster_name \<circ> fst" "KubernetesClusterName P config"
  for P :: "('w, 'y) platform" and config
  by unfold_locales (auto simp: KubernetesClusterName_def Let_def split: if_splits prod.splits)

interpretation cluster_location:
  cached_member "env_kubernetes_cluster_location \<circ> fst" "KubernetesClusterLocation P config"
  for P :: "('w, 'y) platform" and config
  by unfold_locales (auto simp: KubernetesClusterLocation_def Let_def split: if_splits prod.splits)

text \<open>
  A project id, once found, is kept: every later call returns it and neither the environment
  nor the world changes any more (no credentials are read, no request is made).
\<close>

theorem ProjectId_sticky:
  assumes "ProjectId P config s = (project, t)" and "project \<noteq> []"
  shows "((snd \<circ> ProjectId P config) ^^ n) t = t \<and> ProjectId P config t = (project, t)"
  using assms by (rule project.cached_stable)

section \<open>Project ids from service accounts\<close>

lemma find_sub_skip:
  "p \<noteq> [] \<Longrightarrow> hd p \<notin> set a \<Longrightarrow> find_sub p (a @ b) = map_option (\<lambda>i. length a + i) (find_sub p b)"
proof (induction a)
  case (Cons c cs)
  moreover have "\<not> prefix p (c # cs @ b)" using Cons.prems by (cases p) auto
  ultimately show ?case by (cases "find_sub p b") auto
next
  case Nil
  then show ?case by (cases "find_sub p b") simp_all
qed

lemma find_sub_here: "find_sub p (p @ b) = Some 0"
  by (simp add: find_sub_zero_iff)

lemma email_project_new_style:
  assumes "CHR ''@'' \<notin> set user" and "CHR ''.'' \<notin> set (user @ project)" and "length project < 2 ^ 64"
  shows "email_project (user @ ''@'' @ project @ ''.iam.gserviceaccount.com'') = project"
proof -
  let ?d = "''.iam.gserviceaccount.com''" and ?e = "user @ ''@'' @ project @ ''.iam.gserviceaccount.com''"
  have "find_sub ?d ?e = Some (length (user @ ''@'' @ project))"
    using assms(2) find_sub_skip [of ?d "user @ ''@'' @ project" ?d] find_sub_here [of ?d "[]"] by simp
  moreover have "find_sub ''@'' ?e = Some (length user)"
    using assms(1) find_sub_skip [of "''@''" user "''@'' @ project @ ?d"]
      find_sub_here [of "''@''" "project @ ?d"] by simp
  moreover have "nat ((int (length (user @ ''@'' @ project)) - int (length user) - 1) mod 2 ^ 64) = length project"
    using assms(3) by (simp add: nat_eq_iff)
  ultimately show ?thesis
    by (simp add: email_project_def str_simps str_substr_def)
qed

text \<open>
  With no configured project id and credentials of a new-style service account that name no
  project, the project id is the part of the e-mail address between the at sign and the
  domain suffix; it is cached and no request is made.
\<close>

theorem ProjectId_from_email:
  assumes "project_id config = []" and "env_project_id env = []" and "env_credentials_read env"
    and "env_credentials_project_id env = []"
    and "env_client_email env = user @ ''@'' @ project @ ''.iam.gserviceaccount.com''"
    and "CHR ''@'' \<notin> set user" and "CHR ''.'' \<notin> set (user @ project)"
    and "project \<noteq> []" and "length project < 2 ^ 64"
  shows "ProjectId P config (env, w) = (project, env\<lparr>env_project_id := project\<rparr>, w)"
proof -
  have "ReadApplicationDefaultCredentials P config env = env"
    using assms(3) by (simp add: ReadApplicationDefaultCredentials_def)
  moreover have "email_project (env_client_email env) = project"
    unfolding assms(5) using assms by (intro email_project_new_style)
  ultimately show ?thesis using assms by (simp add: ProjectId_def Let_def)
qed

section \<open>A platform without network\<close>

text \<open>Every request fails, no file exists and the clock stands still; the parser refuses all input.\<close>

definition null_yajl :: "unit yajl" where
  "null_yajl = \<lparr>yajl_alloc = (), yajl_parse = (\<lambda>y s. ((), [], False)), yajl_complete_parse = (\<lambda>y. ((), [], False)),
     yajl_get_bytes_consumed = (\<lambda>y. 0), yajl_get_error = (\<lambda>y. ''refused'')\<rparr>"

definition offline :: "(unit, unit) platform" where
  "offline = \<lparr>http_client = (\<lambda>r w. (Inl ''unreachable'', w)), system_now = (\<lambda>w. (0, w)),
     getenv = (\<lambda>n. None), open_file = (\<lambda>f. None), parser = null_yajl,
     generator = \<lparr>to_double = id, render = (\<lambda>evs. replicate (length evs) CHR ''x'')\<rparr>\<rparr>"

theorem ProjectId_sticky_witness:
  "let config = (Configuration_new ''1'')\<lparr>project_id := ''p''\<rparr>;
       t = (Environment_new\<lparr>env_project_id := ''p''\<rparr>, ())
   in ProjectId offline config t = (''p'', t)"
  using ProjectId_sticky [of offline "(Configuration_new ''1'')\<lparr>project_id := ''p''\<rparr>" "(Environment_new, ())" "''p''"
      "(Environment_new\<lparr>env_project_id := ''p''\<rparr>, ())" 0]
  by (simp add: ProjectId_def Environment_new_def)

theorem ProjectId_from_email_witness:
  "let env = Environment_new\<lparr>env_credentials_read := True,
         env_client_email := ''agent@my-project.iam.gserviceaccount.com''\<rparr>
   in ProjectId offline ((Configuration_new ''1'')\<lparr>project_id := []\<rparr>) (env, ())
        = (''my-project'', env\<lparr>env_project_id := ''my-project''\<rparr>, ())"
  unfolding Let_def
  by (rule ProjectId_from_email [where user = "''agent''"]) (simp_all add: Environment_new_def)

end
