(* ===== verification/OAuth2.thy ===== *)
theory OAuth2
  imports Environment Base64
begin

text \<open>
  Access tokens (\<^verbatim>\<open>src/oauth2.h\<close>, \<^verbatim>\<open>src/oauth2.cc\<close>): the signed assertion sent for the credentials
  of a service account, the token of the metadata server, and the cached authorization header with
  its expiration.  The signature (OpenSSL) and the URL encoding (cpp-netlib) are the parameter
  \<open>crypto\<close>.
\<close>

record crypto =
  sign :: "string \<Rightarrow> string \<Rightarrow> string"
  encode_fragment :: "string \<Rightarrow> string"

record OAuth2 =
  auth_header_value :: string
  token_expires :: expiration
  token_endpoint :: string

definition kDefaultTokenEndpoint :: string where
  "kDefaultTokenEndpoint = ''https://www.googleapis.com/oauth2/v3/token''"

definition OAuth2_new :: OAuth2 where
  "OAuth2_new = \<lparr>auth_header_value = [], token_expires = \<lparr>token_expiration = 0\<rparr>,
     token_endpoint = kDefaultTokenEndpoint\<rparr>"

text \<open>
  What can leave \<^verbatim>\<open>GetAuthHeaderValue\<close> other than a value: a JSON exception of the metadata server's
  token, and two undefined behaviours (logging a null token, converting an infinite or undefined
  number to \<^verbatim>\<open>long\<close>).
\<close>

datatype auth_error = TokenJson json_exception | NullTokenLogged | NotALong

type_synonym 'w auth_state = "OAuth2 \<times> Environment \<times> 'w"

section \<open>The assertion\<close>

definition jwt_object :: json where
  "jwt_object = object [(''alg'', Some (String ''RS256'')), (''typ'', Some (String ''JWT''))]"

definition claim_set_object :: "string \<Rightarrow> string \<Rightarrow> time_point \<Rightarrow> json" where
  "claim_set_object email endpoint t =
     object [(''iss'', Some (String email)),
             (''scope'', Some (String ''https://www.googleapis.com/auth/monitoring'')),
             (''aud'', Some (String endpoint)),
             (''iat'', Some (Number (Fin (of_int (SecondsSinceEpoch t))))),
             (''exp'', Some (Number (Fin (of_int (SecondsSinceEpoch (t + 3600 * 1000000000))))))]"

definition token_request :: "('w, 'y) platform \<Rightarrow> crypto \<Rightarrow> string \<Rightarrow> string \<Rightarrow> string \<Rightarrow> time_point \<Rightarrow> string" where
  "token_request P K email key endpoint t =
     (let grant_type = encode_fragment K ''urn:ietf:params:oauth:grant-type:jwt-bearer'';
          jwt_header = Encode (ToString (generator P) jwt_object);
          claim_set = Encode (ToString (generator P) (claim_set_object email endpoint t));
          signature = Encode (sign K (jwt_header @ ''.'' @ claim_set) key)
      in ''grant_type='' @ grant_type @ ''&assertion='' @ jwt_header @ ''.'' @ claim_set @ ''.'' @ signature)"

text \<open>
  The value is null (\<open>None\<close>) without credentials and after a failed exchange, whose exceptions are
  caught.
\<close>

definition ComputeTokenFromCredentials ::
  "('w, 'y) platform \<Rightarrow> crypto \<Rightarrow> Configuration \<Rightarrow> ('w auth_state, auth_error, json option) meth" where
  "ComputeTokenFromCredentials P K config s =
     (case s of (auth, env, w) \<Rightarrow>
      let (email, env) = CredentialsClientEmail P config env;
          (key, env) = CredentialsPrivateKey P config env
      in if key = [] \<or> email = [] then (Inr None, auth, env, w)
         else
           let (t, w) = system_now P w;
               request_body = token_request P K email key (token_endpoint auth) t
           in case http_client P
                \<lparr>req_method = POST, req_url = token_endpoint auth,
                 req_headers = [(''Content-Length'', show_nat (length request_body)),
                                (''Content-Type'', ''application/x-www-form-urlencoded'')],
                 req_body = request_body\<rparr> w of
                (Inl e, w) \<Rightarrow> (Inr None, auth, env, w)
              | (Inr response, w) \<Rightarrow>
                  if 300 \<le> resp_status response then (Inr None, auth, env, w)
                  else (case FromString (parser P) (resp_body response) of
                          Inl e \<Rightarrow> (Inr None, auth, env, w)
                        | Inr parsed_token \<Rightarrow>
                            if verbose_logging config \<and> parsed_token = None
                            then (Inl NullTokenLogged, auth, env, w)
                            else (Inr parsed_token, auth, env, w)))"

definition GetMetadataToken ::
  "('w, 'y) platform \<Rightarrow> Configuration \<Rightarrow> ('w auth_state, auth_error, json option) meth" where
  "GetMetadataToken P config s =
     (case s of (auth, env, w) \<Rightarrow>
      case GetMetadataString P ''instance/service-accounts/default/token'' (env, w) of
        (token_response, env, w) \<Rightarrow>
          if token_response = [] then (Inr None, auth, env, w)
          else (case FromString (parser P) token_response of
                  Inl e \<Rightarrow> (Inl (TokenJson e), auth, env, w)
                | Inr parsed_token \<Rightarrow>
                    if verbose_logging config \<and> parsed_token = None
                    then (Inl NullTokenLogged, auth, env, w)
                    else (Inr parsed_token, auth, env, w)))"

section \<open>The cached header\<close>

text \<open>\<^verbatim>\<open>static_cast<long>\<close> of a double truncates.\<close>

fun to_long :: "ldouble \<Rightarrow> int option" where
  "to_long (Fin q) = Some (if 0 \<le> q then \<lfloor>q\<rfloor> else \<lceil>q\<rceil>)"
| "to_long NegZero = Some 0"
| "to_long _ = None"

text \<open>The three fields read from a token, in the order of the accesses.\<close>

definition token_fields :: "json \<Rightarrow> json_exception + string \<times> string \<times> ldouble" where
  "token_fields token_json =
     bindE (As_Object token_json) (\<lambda>token.
     bindE (Get_String token ''access_token'') (\<lambda>access_token.
     bindE (Get_String token ''token_type'') (\<lambda>token_type.
     bindE (Get_Number token ''expires_in'') (\<lambda>expires_in.
     Inr (access_token, token_type, expires_in)))))"

definition use_token ::
  "('w, 'y) platform \<Rightarrow> json \<Rightarrow> ('w auth_state, auth_error, string) meth" where
  "use_token P token_json s =
     (case s of (auth, env, w) \<Rightarrow>
      case token_fields token_json of
        Inl e \<Rightarrow> (Inr [], auth, env, w)
      | Inr (access_token, token_type, expires_in) \<Rightarrow>
          let auth = auth\<lparr>auth_header_value := token_type @ '' '' @ access_token\<rparr>
          in case to_long (to_double (generator P) expires_in) of
               None \<Rightarrow> (Inl NotALong, auth, env, w)
             | Some n \<Rightarrow>
                 let (t, w) = system_now P w
                 in (Inr (auth_header_value auth),
                     auth\<lparr>token_expires := Reset (n - 60) t (token_expires auth)\<rparr>, env, w))"

definition refresh_token ::
  "('w, 'y) platform \<Rightarrow> crypto \<Rightarrow> Configuration \<Rightarrow> ('w auth_state, auth_error, string) meth" where
  "refresh_token P K config =
     bindM (ComputeTokenFromCredentials P K config) (\<lambda>token_json.
     bindM (case token_json of None \<Rightarrow> GetMetadataToken P config | Some t \<Rightarrow> returnM (Some t)) (\<lambda>token_json.
     case token_json of None \<Rightarrow> returnM [] | Some t \<Rightarrow> use_token P t))"

definition GetAuthHeaderValue ::
  "('w, 'y) platform \<Rightarrow> crypto \<Rightarrow> Configuration \<Rightarrow> ('w auth_state, auth_error, string) meth" where
  "GetAuthHeaderValue P K config s =
     (case s of (auth, env, w) \<Rightarrow>
      if auth_header_value auth = [] then refresh_token P K config s
      else let (t, w) = system_now P w
           in if IsExpired (token_expires auth) t then refresh_token P K config (auth, env, w)
              else (Inr (auth_header_value auth), auth, env, w))"

section \<open>Properties\<close>

text \<open>
  The assertion of a token request has three dot-separated parts, none of which contains a dot;
  they decode to the JWT header, to the claim set issued at the time of the request and expiring an
  hour later, and to the signature of the first two parts as sent.
\<close>

theorem token_request_assertion:
  "\<exists>h c sg. token_request P K email key endpoint t =
       ''grant_type='' @ encode_fragment K ''urn:ietf:params:oauth:grant-type:jwt-bearer''
         @ ''&assertion='' @ h @ ''.'' @ c @ ''.'' @ sg
     \<and> CHR ''.'' \<notin> set h \<union> set c \<union> set sg
     \<and> Decode h = Inr (ToString (generator P) jwt_object)
     \<and> Decode c = Inr (ToString (generator P) (claim_set_object email endpoint t))
     \<and> Decode sg = Inr (sign K (h @ ''.'' @ c) key)"
proof -
  have "CHR ''.'' \<notin> set (Encode s)" for s
    using Encode_alphabet [of s] by (auto simp: base64url_chars_def)
  then show ?thesis
    unfolding token_request_def Let_def
    by (intro exI conjI) (rule refl, simp_all add: Decode_of_Encode)
qed

text \<open>A header value that is returned is the cached one, or the empty string.\<close>

lemma use_token_cached:
  "use_token P tok s = (Inr h, auth', rest) \<Longrightarrow> h = [] \<or> auth_header_value auth' = h"
  by (auto simp: use_token_def Let_def split: prod.splits sum.splits option.splits)

lemma refresh_token_cached:
  "refresh_token P K config s = (Inr h, auth', rest) \<Longrightarrow> h = [] \<or> auth_header_value auth' = h"
  by (auto simp: refresh_token_def meth_simps dest: use_token_cached split: prod.splits sum.splits option.splits)

lemma GetAuthHeaderValue_cached:
  assumes "GetAuthHeaderValue P K config s = (Inr h, auth', rest)"
  shows "h = [] \<or> auth_header_value auth' = h"
  using assms
  by (auto simp: GetAuthHeaderValue_def Let_def dest: refresh_token_cached split: prod.splits if_splits)

text \<open>
  A header obtained from a call is reused: as long as the clock has not passed the recorded
  expiration, the next call returns the same header and neither reads credentials nor makes a
  request; only the clock is read.
\<close>

theorem GetAuthHeaderValue_reused:
  assumes "GetAuthHeaderValue P K config s = (Inr h, auth, env, w)" and "h \<noteq> []"
    and "system_now P w' = (t, w'')" and "t \<le> token_expiration (token_expires auth)"
  shows "GetAuthHeaderValue P K config (auth, env', w') = (Inr h, auth, env', w'')"
proof -
  have "auth_header_value auth = h" using GetAuthHeaderValue_cached [OF assms(1)] assms(2) by blast
  then show ?thesis
    using assms by (simp add: GetAuthHeaderValue_def IsExpired_def)
qed

text \<open>
  A fresh token replaces the header and expires a minute before the server says: after a token
  with a whole number of seconds was accepted, the header is its type and value, and the recorded
  expiration is the time of acceptance plus the lifetime less sixty seconds.
\<close>

theorem use_token_expiration:
  assumes "token_fields tok = Inr (access, type, Fin (of_int n))"
    and "to_double (generator P) (Fin (of_int n)) = Fin (of_int n)"
    and "system_now P w = (t, w')"
  shows "use_token P tok (auth, env, w) =
    (Inr (type @ '' '' @ access),
     auth\<lparr>auth_header_value := type @ '' '' @ access,
          token_expires := (token_expires auth)\<lparr>token_expiration := t + (n - 60) * 1000000000\<rparr>\<rparr>,
     env, w')"
  using assms by (simp add: use_token_def Let_def Reset_def)

definition test_token :: json where
  "test_token = object [(''access_token'', Some (String ''T'')), (''token_type'', Some (String ''Bearer'')),
     (''expires_in'', Some (Number (Fin 3600)))]"

lemma token_fields_test: "token_fields test_token = Inr (''T'', ''Bearer'', Fin 3600)"
  by (simp add: token_fields_def test_token_def object_def object_fields_def List.map_filter_simps
      map_emplace_all_def As_Object_def As_def Is_def Get_String_def Get_Number_def GetField_def less_char_def)

theorem use_token_expiration_witness:
  "use_token offline test_token (OAuth2_new, Environment_new, ()) =
    (Inr ''Bearer T'',
     OAuth2_new\<lparr>auth_header_value := ''Bearer T'', token_expires := \<lparr>token_expiration = 3540000000000\<rparr>\<rparr>,
     Environment_new, ())"
  using use_token_expiration [of test_token "''T''" "''Bearer''" 3600 offline "()" 0 "()" OAuth2_new Environment_new]
  by (simp add: token_fields_test offline_def OAuth2_new_def)

theorem GetAuthHeaderValue_reused_witness:
  "let auth = OAuth2_new\<lparr>auth_header_value := ''Bearer T'', token_expires := \<lparr>token_expiration = 5\<rparr>\<rparr>
   in GetAuthHeaderValue offline \<lparr>sign = (\<lambda>d k. d), encode_fragment = id\<rparr> (Configuration_new ''1'')
        (auth, Environment_new, ()) = (Inr ''Bearer T'', auth, Environment_new, ())"
proof -
  let ?auth = "OAuth2_new\<lparr>auth_header_value := ''Bearer T'', token_expires := \<lparr>token_expiration = 5\<rparr>\<rparr>"
  let ?K = "\<lparr>sign = (\<lambda>d k. d), encode_fragment = id\<rparr>"
  have "GetAuthHeaderValue offline ?K (Configuration_new ''1'') (?auth, Environment_new, ())
      = (Inr ''Bearer T'', ?auth, Environment_new, ())"
    by (simp add: GetAuthHeaderValue_def IsExpired_def offline_def OAuth2_new_def)
  from GetAuthHeaderValue_reused [OF this, of "()" 0 "()" Environment_new] show ?thesis
    by (simp add: offline_def OAuth2_new_def)
qed

end
