(* ===== verification/Reporter.thy ===== *)
theory Reporter
  imports Store OAuth2
begin

text \<open>
  The metadata reporter (\<^verbatim>\<open>src/reporter.h\<close>, \<^verbatim>\<open>src/reporter.cc\<close>): the request entries, their
  batching under the size and count limits, the requests, and the reporting loop with the purge of
  deleted entries.  \<open>batches\<close> is the specification of the batching; the streaming loop of
  \<^verbatim>\<open>SendMetadata\<close> is proved to send exactly those batches, in order, up to the first failure.

  Sizes are the code's \<^verbatim>\<open>int\<close>: a \<^verbatim>\<open>size_t\<close> is narrowed to 32 bits, and a sum outside their range, which is
  undefined in C++, is the outcome \<open>Overflow\<close>.  The specification of the batches counts the true sizes.
\<close>

section \<open>Requests\<close>

text \<open>
  A failed request is a \<^verbatim>\<open>boost::system::system_error\<close>, the one exception \<^verbatim>\<open>SendMetadata\<close> declares.
  Any other one (of the endpoint template or of the authorization header) violates the
  specification and ends the process.  An overflow of the sizes is undefined.
\<close>

datatype report_error = SystemError string | Terminated | Overflow

type_synonym 'w reporter_state = "'w auth_state"

definition SendMetadataRequest ::
  "('w, 'y) platform \<Rightarrow> string \<Rightarrow> string \<Rightarrow> string \<Rightarrow> json list \<Rightarrow> ('w reporter_state, report_error, unit) meth" where
  "SendMetadataRequest P endpoint auth_header user_agent entries s =
     (case s of (auth, env, w) \<Rightarrow>
      let update_metadata_request = object [(''entries'', Some (array (map Some entries)))];
          request_body = ToString (generator P) update_metadata_request
      in case http_client P
           \<lparr>req_method = POST, req_url = endpoint,
            req_headers = [(''User-Agent'', user_agent),
                           (''Content-Length'', show_nat (length request_body)),
                           (''Content-Type'', ''application/json''),
                           (''Authorization'', auth_header)],
            req_body = request_body\<rparr> w of
           (Inl e, w) \<Rightarrow> (Inl (SystemError e), auth, env, w)
         | (Inr response, w) \<Rightarrow>
             if 300 \<le> resp_status response
             then (Inl (SystemError (server_error response)), auth, env, w)
             else (Inr (), auth, env, w))"

definition metadata_entry :: "MonitoredResource \<Rightarrow> Metadata \<Rightarrow> json" where
  "metadata_entry resource m =
     object [(''resource'', Some (ToJSON resource)),
             (''rawContentVersion'', Some (String (version m))),
             (''rawContent'', Some (metadata m)),
             (''state'', Some (String (if is_deleted m then ''DELETED'' else ''ACTIVE''))),
             (''createTime'', Some (String (rfc3339_ToString (created_at m)))),
             (''collectTime'', Some (String (rfc3339_ToString (collected_at m))))]"

definition empty_request :: json where
  "empty_request = object [(''entries'', Some (array []))]"

section \<open>Batching\<close>

text \<open>The conversion of a size to a 32-bit \<^verbatim>\<open>int\<close>, and the sum of two.\<close>

definition int_of_size :: "nat \<Rightarrow> int" where
  "int_of_size n = sint (word_of_nat n :: 32 word)"

definition int_add :: "int \<Rightarrow> int \<Rightarrow> int option" where
  "int_add a b = (if a + b \<in> {- (2 ^ 31)..< 2 ^ 31} then Some (a + b) else None)"

text \<open>
  The loop over the metadata: \<open>entries\<close> and \<open>total_size\<close> are its variables, \<open>send\<close> the request.
  \<open>sz\<close> (the size of a value) and \<open>empty_size\<close> are lengths of serialised values, as \<^verbatim>\<open>int\<close>.  The sum with the
  total is only formed when the count is below its limit.
\<close>

fun send_loop ::
  "(json list \<Rightarrow> ('s, report_error, unit) meth) \<Rightarrow> (json \<Rightarrow> int) \<Rightarrow> int \<Rightarrow> int \<Rightarrow> int \<Rightarrow> json list \<Rightarrow> json list \<Rightarrow> int
    \<Rightarrow> ('s, report_error, unit) meth" where
  "send_loop send sz empty_size limit_bytes limit_count [] entries total_size =
     (if entries \<noteq> [] then send entries else returnM ())"
| "send_loop send sz empty_size limit_bytes limit_count (e # es) entries total_size =
     (case int_add empty_size (sz e) of
        None \<Rightarrow> throwM Overflow
      | Some alone \<Rightarrow>
          if alone > limit_bytes
          then send_loop send sz empty_size limit_bytes limit_count es entries total_size
          else
            (case (if int (length entries) = limit_count then Some True
                   else map_option (\<lambda>total. total > limit_bytes) (int_add total_size (sz e))) of
               None \<Rightarrow> throwM Overflow
             | Some True \<Rightarrow> bindM (send entries) (\<lambda>_.
                 send_loop send sz empty_size limit_bytes limit_count es [e] (empty_size + sz e))
             | Some False \<Rightarrow>
                 send_loop send sz empty_size limit_bytes limit_count es (entries @ [e]) (total_size + sz e)))"

definition SendMetadata ::
  "('w, 'y) platform \<Rightarrow> crypto \<Rightarrow> Configuration \<Rightarrow> (MonitoredResource, Metadata) std_map
    \<Rightarrow> ('w reporter_state, report_error, unit) meth" where
  "SendMetadata P K config md s =
     (if md = [] then (Inr (), s)
      else
        (case s of (auth, env, w) \<Rightarrow>
         let (project, env, w) = ProjectId P config (env, w)
         in case Substitute (metadata_ingestion_endpoint_format config) [(''project_id'', project)] of
              Inl e \<Rightarrow> (Inl Terminated, auth, env, w)
            | Inr endpoint \<Rightarrow>
                (case GetAuthHeaderValue P K config (auth, env, w) of
                   (Inl e, s) \<Rightarrow> (Inl Terminated, s)
                 | (Inr auth_header, s) \<Rightarrow>
                     let sz = (\<lambda>v. int_of_size (length (ToString (generator P) v)));
                         empty_size = sz empty_request
                     in send_loop
                          (SendMetadataRequest P endpoint auth_header (metadata_reporter_user_agent config))
                          sz empty_size
                          (metadata_ingestion_request_size_limit_bytes config)
                          (metadata_ingestion_request_size_limit_count config)
                          (map (\<lambda>(r, m). metadata_entry r m) md) [] empty_size s)))"

section \<open>The reporting loop\<close>

text \<open>
  One turn of the loop.  The store is shared: \<open>ops\<close> are the operations that other threads complete
  between the copy of the metadata map and the purge.  \<open>None\<close> is the end of the process.
\<close>

definition report_turn ::
  "('w, 'y) platform \<Rightarrow> crypto \<Rightarrow> Configuration \<Rightarrow> store_op list \<Rightarrow> MetadataStore \<times> 'w reporter_state
    \<Rightarrow> (MetadataStore \<times> 'w reporter_state) option" where
  "report_turn P K config ops st =
     (case SendMetadata P K config (GetMetadataMap (fst st)) (snd st) of
        (Inr _, s) \<Rightarrow>
          let store = fold store_step ops (fst st)
          in Some (if metadata_reporter_purge_deleted config then PurgeDeletedEntries store else store, s)
      | (Inl (SystemError e), s) \<Rightarrow> Some (fold store_step ops (fst st), s)
      | (Inl Terminated, s) \<Rightarrow> None
      | (Inl Overflow, s) \<Rightarrow> None)"

text \<open>
  The loop, given for each turn the operations of other threads before the copy, those during the
  turn, and whether the wait after it ran to its end.  The flag of the result says that the loop was
  left; a list that runs out leaves it waiting.
\<close>

fun report_loop ::
  "('w, 'y) platform \<Rightarrow> crypto \<Rightarrow> Configuration \<Rightarrow> (store_op list \<times> store_op list \<times> bool) list
    \<Rightarrow> MetadataStore \<times> 'w reporter_state \<Rightarrow> (bool \<times> MetadataStore \<times> 'w reporter_state) option" where
  "report_loop P K config [] st = Some (False, st)"
| "report_loop P K config ((before, during, waited) # turns) st =
     (case report_turn P K config during (fold store_step before (fst st), snd st) of
        None \<Rightarrow> None
      | Some st' \<Rightarrow> if waited then report_loop P K config turns st' else Some (True, st'))"

definition ReportMetadata ::
  "('w, 'y) platform \<Rightarrow> crypto \<Rightarrow> Configuration \<Rightarrow> timer \<Rightarrow> (store_op list \<times> store_op list \<times> bool) list
    \<Rightarrow> MetadataStore \<times> 'w reporter_state \<Rightarrow> (timer \<times> bool \<times> MetadataStore \<times> 'w reporter_state) option" where
  "ReportMetadata P K config tm turns st =
     (case Init tm of
        None \<Rightarrow> None
      | Some tm' \<Rightarrow> map_option (Pair tm') (report_loop P K config turns st))"

definition NotifyStopReporter :: "timer \<Rightarrow> timer option" where
  "NotifyStopReporter tm = Cancel tm"

section \<open>The specification of the batches\<close>

text \<open>Greedy batches of the entries that fit on their own.\<close>

fun batches :: "(json \<Rightarrow> int) \<Rightarrow> int \<Rightarrow> int \<Rightarrow> int \<Rightarrow> json list \<Rightarrow> json list \<Rightarrow> json list list" where
  "batches sz empty_size limit_bytes limit_count [] entries = (if entries \<noteq> [] then [entries] else [])"
| "batches sz empty_size limit_bytes limit_count (e # es) entries =
     (if int (length entries) = limit_count \<or> empty_size + sum_list (map sz entries) + sz e > limit_bytes
      then entries # batches sz empty_size limit_bytes limit_count es [e]
      else batches sz empty_size limit_bytes limit_count es (entries @ [e]))"

definition fitting :: "(json \<Rightarrow> int) \<Rightarrow> int \<Rightarrow> int \<Rightarrow> json list \<Rightarrow> json list" where
  "fitting sz empty_size limit_bytes es = filter (\<lambda>e. empty_size + sz e \<le> limit_bytes) es"

lemma bindM_return_unit: "bindM m (\<lambda>_. returnM ()) = m"
  by (auto simp: bindM_def returnM_def fun_eq_iff split: prod.splits sum.splits)

lemma int_of_size_small: "n < 2 ^ 31 \<Longrightarrow> int_of_size n = int n"
  by (simp add: int_of_size_def sint_uint unsigned_of_nat take_bit_nat_eq_self signed_take_bit_int_eq_self)

lemma int_add_Some: "- (2 ^ 31) \<le> a + b \<Longrightarrow> a + b < 2 ^ 31 \<Longrightarrow> int_add a b = Some (a + b)"
  by (simp add: int_add_def)

text \<open>Within the range of \<^verbatim>\<open>int\<close> the loop makes the requests of the greedy batches.\<close>

lemma send_loop_batches:
  assumes "0 \<le> empty_size" and "limit_bytes < 2 ^ 30"
  shows "total_size = empty_size + sum_list (map sz entries) \<Longrightarrow>
   (entries \<noteq> [] \<longrightarrow> total_size \<le> limit_bytes) \<Longrightarrow>
   list_all (\<lambda>e. 0 \<le> sz e \<and> empty_size + sz e < 2 ^ 31) es \<Longrightarrow>
   list_all (\<lambda>e. 0 \<le> sz e) entries \<Longrightarrow>
   send_loop send sz empty_size limit_bytes limit_count es entries total_size =
     iterM send (batches sz empty_size limit_bytes limit_count
       (fitting sz empty_size limit_bytes es) entries)"
proof (induction es arbitrary: entries total_size)
  case Nil
  then show ?case by (simp add: fitting_def bindM_return_unit)
next
  case (Cons e es)
  have e: "0 \<le> sz e" "empty_size + sz e < 2 ^ 31" and es: "list_all (\<lambda>e. 0 \<le> sz e \<and> empty_size + sz e < 2 ^ 31) es"
    using Cons.prems(3) by simp_all
  have alone: "int_add empty_size (sz e) = Some (empty_size + sz e)"
    using e assms(1) by (intro int_add_Some) simp_all
  show ?case
  proof (cases "empty_size + sz e \<le> limit_bytes")
    case False
    then show ?thesis using Cons alone by (simp add: fitting_def)
  next
    case True
    have "0 \<le> sum_list (map sz entries)"
      using Cons.prems(4) by (intro sum_list_nonneg) (auto simp: list_all_iff)
    then have "0 \<le> total_size" using Cons.prems(1) assms(1) by simp
    moreover have "total_size + sz e < 2 ^ 31"
    proof (cases "entries = []")
      case True
      with Cons.prems(1) e(2) show ?thesis by simp
    next
      case False
      with Cons.prems(2) have "total_size \<le> limit_bytes" by blast
      with True assms(1,2) show ?thesis by simp
    qed
    ultimately have total: "int_add total_size (sz e) = Some (total_size + sz e)"
      using e(1) by (intro int_add_Some) simp_all
    have fit: "fitting sz empty_size limit_bytes (e # es) = e # fitting sz empty_size limit_bytes es"
      using True by (simp add: fitting_def)
    show ?thesis
    proof (cases "int (length entries) = limit_count \<or> total_size + sz e > limit_bytes")
      case full: True
      have "send_loop send sz empty_size limit_bytes limit_count (e # es) entries total_size =
          bindM (send entries) (\<lambda>_. send_loop send sz empty_size limit_bytes limit_count es [e] (empty_size + sz e))"
        using True full alone total by (auto simp: not_less [symmetric])
      also have "send_loop send sz empty_size limit_bytes limit_count es [e] (empty_size + sz e) =
          iterM send (batches sz empty_size limit_bytes limit_count (fitting sz empty_size limit_bytes es) [e])"
        using True e es by (intro Cons.IH) simp_all
      finally show ?thesis using full Cons.prems(1) by (simp add: fit)
    next
      case room: False
      have "send_loop send sz empty_size limit_bytes limit_count (e # es) entries total_size =
          send_loop send sz empty_size limit_bytes limit_count es (entries @ [e]) (total_size + sz e)"
        using True room alone total by simp
      also have "\<dots> = iterM send
          (batches sz empty_size limit_bytes limit_count (fitting sz empty_size limit_bytes es) (entries @ [e]))"
        using room e es Cons.prems by (intro Cons.IH) simp_all
      finally show ?thesis using room Cons.prems(1) by (simp add: fit)
    qed
  qed
qed

lemma concat_batches: "concat (batches sz empty_size limit_bytes limit_count es entries) = entries @ es"
  by (induction sz empty_size limit_bytes limit_count es entries rule: batches.induct) auto

lemma batches_bounds:
  assumes "list_all (\<lambda>e. empty_size + sz e \<le> limit_bytes) es"
    and "1 \<le> limit_count" and "entries \<noteq> [] \<longrightarrow> empty_size + sum_list (map sz entries) \<le> limit_bytes"
    and "int (length entries) \<le> limit_count"
    and "b \<in> set (batches sz empty_size limit_bytes limit_count es entries)"
  shows "b \<noteq> [] \<and> int (length b) \<le> limit_count \<and> empty_size + sum_list (map sz b) \<le> limit_bytes"
  using assms
proof (induction sz empty_size limit_bytes limit_count es entries rule: batches.induct)
  case (2 sz empty_size limit_bytes limit_count e es entries)
  then show ?case by (cases "entries = []") (auto split: if_splits)
qed (auto split: if_splits)

text \<open>
  \<^verbatim>\<open>SendMetadata\<close> once the endpoint and the authorization header are known: requests for the greedy batches of
  the entries that fit on their own.  \<open>sizes_in_range\<close> says that no size reaches the range of \<^verbatim>\<open>int\<close>: the limit
  is below one gibibyte and no entry has two.
\<close>

definition size_of :: "serializer \<Rightarrow> json \<Rightarrow> int" where
  "size_of z v = int (length (ToString z v))"

definition sizes_in_range :: "serializer \<Rightarrow> Configuration \<Rightarrow> (MonitoredResource, Metadata) std_map \<Rightarrow> bool" where
  "sizes_in_range z config md \<longleftrightarrow>
     metadata_ingestion_request_size_limit_bytes config < 2 ^ 30 \<and>
     list_all (\<lambda>(r, m). size_of z empty_request + size_of z (metadata_entry r m) < 2 ^ 31) md"

definition sent_batches :: "serializer \<Rightarrow> Configuration \<Rightarrow> (MonitoredResource, Metadata) std_map \<Rightarrow> json list list" where
  "sent_batches z config md =
     (let limit = metadata_ingestion_request_size_limit_bytes config
      in batches (size_of z) (size_of z empty_request) limit (metadata_ingestion_request_size_limit_count config)
           (fitting (size_of z) (size_of z empty_request) limit (map (\<lambda>(r, m). metadata_entry r m) md)) [])"

lemma send_loop_cong:
  assumes "\<And>e. e \<in> set es \<Longrightarrow> sz e = sz' e"
  shows "send_loop send sz empty_size limit_bytes limit_count es entries total_size =
    send_loop send sz' empty_size limit_bytes limit_count es entries total_size"
  using assms
  by (induction es arbitrary: entries total_size)
    (auto split: option.splits bool.splits intro!: arg_cong2 [where f = bindM])

lemma SendMetadata_sends:
  assumes "md \<noteq> []"
    and "ProjectId P config (env, w) = (project, env', w')"
    and "Substitute (metadata_ingestion_endpoint_format config) [(''project_id'', project)] = Inr endpoint"
    and "GetAuthHeaderValue P K config (auth, env', w') = (Inr auth_header, s)"
    and range: "sizes_in_range (generator P) config md"
  shows "SendMetadata P K config md (auth, env, w) =
    iterM (SendMetadataRequest P endpoint auth_header (metadata_reporter_user_agent config))
      (sent_batches (generator P) config md) s"
proof -
  let ?z = "generator P" and ?limit = "metadata_ingestion_request_size_limit_bytes config"
    and ?count = "metadata_ingestion_request_size_limit_count config"
    and ?es = "map (\<lambda>(r, m). metadata_entry r m) md"
    and ?send = "SendMetadataRequest P endpoint auth_header (metadata_reporter_user_agent config)"
  have small: "size_of ?z empty_request + size_of ?z e < 2 ^ 31" if "e \<in> set ?es" for e
    using range that by (auto simp: sizes_in_range_def list_all_iff)
  have size: "int_of_size (length (ToString ?z e)) = size_of ?z e" if "e \<in> set ?es" for e
    using small [OF that] int_of_size_small [of "length (ToString ?z e)"] by (simp add: size_of_def)
  obtain e where "e \<in> set ?es" using assms(1) by (cases md) auto
  from small [OF this] have empty: "int_of_size (length (ToString ?z empty_request)) = size_of ?z empty_request"
    using int_of_size_small [of "length (ToString ?z empty_request)"] by (simp add: size_of_def)
  have "SendMetadata P K config md (auth, env, w) =
      send_loop ?send (\<lambda>v. int_of_size (length (ToString ?z v))) (size_of ?z empty_request) ?limit ?count ?es []
        (size_of ?z empty_request) s"
    using assms by (simp add: SendMetadata_def Let_def empty)
  also have "\<dots> = send_loop ?send (size_of ?z) (size_of ?z empty_request) ?limit ?count ?es [] (size_of ?z empty_request) s"
    by (rule arg_cong [where f = "\<lambda>m. m s"], rule send_loop_cong, rule size)
  also have "\<dots> = iterM ?send (sent_batches ?z config md) s"
    unfolding sent_batches_def Let_def
    using range small
    by (subst send_loop_batches) (auto simp: sizes_in_range_def list_all_iff size_of_def)
  finally show ?thesis .
qed

lemma concat_sent_batches:
  "concat (sent_batches z config md) =
     filter (\<lambda>e. size_of z empty_request + size_of z e \<le> metadata_ingestion_request_size_limit_bytes config)
       (map (\<lambda>(r, m). metadata_entry r m) md)"
  by (simp add: sent_batches_def Let_def concat_batches fitting_def)

section \<open>Properties\<close>

text \<open>
  C3.  Once the endpoint and the authorization header are known, and as long as the sizes stay in the range of
  \<^verbatim>\<open>int\<close> and the count limit is positive, \<^verbatim>\<open>SendMetadata\<close> makes a sequence of requests that stops at the first
  failure.  The requests carry, in order and without repetition or loss, exactly the entries that fit in a
  request on their own; none is empty, none has more entries than the count limit, and none exceeds the size
  limit as the code accounts for it (the sizes of the entries plus that of an empty request).
\<close>

theorem SendMetadata_batches:
  assumes "md \<noteq> []"
    and "ProjectId P config (env, w) = (project, env', w')"
    and "Substitute (metadata_ingestion_endpoint_format config) [(''project_id'', project)] = Inr endpoint"
    and "GetAuthHeaderValue P K config (auth, env', w') = (Inr auth_header, s)"
    and "1 \<le> metadata_ingestion_request_size_limit_count config"
    and "sizes_in_range (generator P) config md"
  shows "SendMetadata P K config md (auth, env, w) =
        iterM (SendMetadataRequest P endpoint auth_header (metadata_reporter_user_agent config))
          (sent_batches (generator P) config md) s
    \<and> (let z = generator P; bs = sent_batches z config md; limit = metadata_ingestion_request_size_limit_bytes config
       in concat bs = filter (\<lambda>e. size_of z empty_request + size_of z e \<le> limit)
            (map (\<lambda>(r, m). metadata_entry r m) md)
        \<and> list_all (\<lambda>b. b \<noteq> [] \<and> int (length b) \<le> metadata_ingestion_request_size_limit_count config
            \<and> size_of z empty_request + sum_list (map (size_of z) b) \<le> limit) bs)"
proof -
  let ?z = "generator P" and ?limit = "metadata_ingestion_request_size_limit_bytes config"
    and ?count = "metadata_ingestion_request_size_limit_count config"
  let ?fit = "fitting (size_of ?z) (size_of ?z empty_request) ?limit (map (\<lambda>(r, m). metadata_entry r m) md)"
  have "list_all (\<lambda>b. b \<noteq> [] \<and> int (length b) \<le> ?count
      \<and> size_of ?z empty_request + sum_list (map (size_of ?z) b) \<le> ?limit) (sent_batches ?z config md)"
    using assms(5) batches_bounds [of "size_of ?z empty_request" "size_of ?z" ?limit ?fit ?count "[]"]
    by (simp add: list_all_iff fitting_def sent_batches_def Let_def)
  with SendMetadata_sends [OF assms(1-4,6)] concat_sent_batches [of ?z config md] show ?thesis
    unfolding Let_def by blast
qed

text \<open>
  While no other thread touches the store, a turn of the reporter removes an entry only if it is
  a deletion, the whole map including that entry was sent without an error, and purging is enabled; a
  failed turn leaves the store as it was.
\<close>

theorem report_turn_purges_sent:
  assumes "store_ok store" and "report_turn P K config [] (store, s) = Some (store', s')"
    and "map_of (metadata_map store) r = Some e" and "map_of (metadata_map store') r \<noteq> Some e"
  shows "is_deleted e \<and> map_of (metadata_map store') r = None \<and> metadata_reporter_purge_deleted config
    \<and> (r, Metadata_Clone e) \<in> set (GetMetadataMap store)
    \<and> SendMetadata P K config (GetMetadataMap store) s = (Inr (), s')"
proof -
  have "(r, Metadata_Clone e) \<in> set (GetMetadataMap store)"
    using assms(1,3) by (force simp: GetMetadataMap_eq dest: map_of_SomeD)
  moreover have "map_of (metadata_map (PurgeDeletedEntries store)) r = (if is_deleted e then None else Some e)"
    using assms(1,3) by (simp add: store_ok_def PurgeDeletedEntries_def purge_loop_filter
        map_of_filter_snd [OF map_ok_distinct])
  ultimately show ?thesis
    using assms by (auto simp: report_turn_def Let_def split: prod.splits sum.splits report_error.splits if_splits)
qed

text \<open>The operations that store an entry for a resource.\<close>

definition updates :: "MonitoredResource \<Rightarrow> store_op \<Rightarrow> bool" where
  "updates r op = (case op of Op_UpdateMetadata r' e \<Rightarrow> r' = r \<and> \<not> ignore e | _ \<Rightarrow> False)"

lemma not_updated:
  assumes "store_ok store" and "list_all (\<lambda>op. \<not> updates r op) ops"
  shows "spec_entries (abs_store (fold store_step ops store)) r = spec_entries (abs_store store) r
    \<or> spec_entries (abs_store (fold store_step ops store)) r = None
      \<and> (\<exists>e. spec_entries (abs_store store) r = Some e \<and> is_deleted e)"
  using assms
proof (induction ops arbitrary: store)
  case (Cons op ops)
  have ok: "store_ok (store_step op store)" using Cons.prems(1) by (rule store_ok_step)
  have step: "spec_entries (abs_store (store_step op store)) r = spec_entries (abs_store store) r
    \<or> spec_entries (abs_store (store_step op store)) r = None
      \<and> (\<exists>e. spec_entries (abs_store store) r = Some e \<and> is_deleted e)"
    using Cons.prems unfolding abs_store_step [OF Cons.prems(1)]
    by (cases op) (auto simp: updates_def split: option.splits)
  have "list_all (\<lambda>op. \<not> updates r op) ops" using Cons.prems(2) by simp
  from Cons.IH [OF ok this] step show ?case by auto
qed simp

lemma entry_absent:
  "store_ok store \<Longrightarrow> map_of (GetMetadataMap store) r = None \<longleftrightarrow> spec_entries (abs_store store) r = None"
  by (simp add: map_of_GetMetadataMap abs_store_def)

text \<open>
  C36.  With purging enabled, a deletion that is stored while a report is being sent successfully, and is not
  replaced before the purge, is lost: the turn makes the requests it would have made without the deletion, the
  purge removes it, and until the resource is updated again no copy of the store that a later report sends has
  an entry for the resource.  It does not matter what was stored for the resource before.
\<close>

theorem report_turn_loses_deletion:
  assumes "store_ok store" and "metadata_reporter_purge_deleted config"
    and "SendMetadata P K config (GetMetadataMap store) s = (Inr (), s')"
    and "is_deleted e" and "\<not> ignore e" and "list_all (\<lambda>op. \<not> updates r op) after"
  shows "(\<exists>undeleted. report_turn P K config [] (store, s) = Some (undeleted, s'))
    \<and> (\<exists>store'. report_turn P K config (before @ Op_UpdateMetadata r e # after) (store, s) = Some (store', s')
      \<and> (\<forall>later. list_all (\<lambda>op. \<not> updates r op) later \<longrightarrow>
           map_of (GetMetadataMap (fold store_step later store')) r = None))"
proof -
  let ?s1 = "store_step (Op_UpdateMetadata r e) (fold store_step before store)"
  let ?s2 = "fold store_step after ?s1"
  let ?s3 = "store_step Op_PurgeDeletedEntries ?s2"
  have ok0: "store_ok (fold store_step before store)" using assms(1) by (rule ms.ok_run)
  have ok1: "store_ok ?s1" by (rule store_ok_step [OF ok0])
  have ok2: "store_ok ?s2" by (rule ms.ok_run [OF ok1])
  have ok3: "store_ok ?s3" by (rule store_ok_step [OF ok2])
  have "spec_entries (abs_store ?s1) r = Some e"
    unfolding abs_store_step [OF ok0] using assms(5) by simp
  with not_updated [OF ok1 assms(6)]
  have "spec_entries (abs_store ?s2) r = Some e \<or> spec_entries (abs_store ?s2) r = None" by auto
  then have gone: "spec_entries (abs_store ?s3) r = None"
    unfolding abs_store_step [OF ok2] using assms(4) by auto
  have "map_of (GetMetadataMap (fold store_step later ?s3)) r = None"
    if "list_all (\<lambda>op. \<not> updates r op) later" for later
    unfolding entry_absent [OF ms.ok_run [OF ok3]] using not_updated [OF ok3 that] gone by auto
  moreover have "report_turn P K config (before @ Op_UpdateMetadata r e # after) (store, s) = Some (?s3, s')"
    using assms(2,3) by (simp add: report_turn_def)
  moreover have "\<exists>undeleted. report_turn P K config [] (store, s) = Some (undeleted, s')"
    using assms(2,3) by (simp add: report_turn_def)
  ultimately show ?thesis by blast
qed

section \<open>Witnesses\<close>

text \<open>A network that answers every request and remembers it, and a reporter that has its token.\<close>

definition online :: "(request list, unit) platform" where
  "online = \<lparr>http_client = (\<lambda>r w. (Inr \<lparr>resp_status = 200, resp_message = ''OK'', resp_body = []\<rparr>, w @ [r])),
     system_now = (\<lambda>w. (0, w)), getenv = (\<lambda>n. None), open_file = (\<lambda>f. None), parser = null_yajl,
     generator = \<lparr>to_double = id, render = (\<lambda>evs. replicate (length evs) CHR ''x'')\<rparr>\<rparr>"

definition test_config :: Configuration where
  "test_config = (Configuration_new ''1'')\<lparr>metadata_ingestion_endpoint_format := ''e'',
     metadata_ingestion_request_size_limit_count := 1, metadata_ingestion_request_size_limit_bytes := 1000,
     metadata_reporter_user_agent := ''agent'', metadata_reporter_purge_deleted := True\<rparr>"

definition test_crypto :: crypto where
  "test_crypto = \<lparr>sign = (\<lambda>d k. d), encode_fragment = id\<rparr>"

definition test_auth :: OAuth2 where
  "test_auth = OAuth2_new\<lparr>auth_header_value := ''Bearer T''\<rparr>"

definition test_env :: Environment where
  "test_env = Environment_new\<lparr>env_project_id := ''p''\<rparr>"

definition test_metadata :: "bool \<Rightarrow> Metadata" where
  "test_metadata deleted = make_Metadata ''v'' deleted 0 0 Null"

lemma test_substitute: "Substitute ''e'' ps = Inr ''e''"
  by (simp add: Substitute_def substitute_loop.simps kStart_def str_find_def)

lemma test_prologue:
  "ProjectId online test_config (test_env, w) = (''p'', test_env, w)"
  "GetAuthHeaderValue online test_crypto test_config (test_auth, test_env, w)
     = (Inr ''Bearer T'', test_auth, test_env, w)"
  by (simp_all add: ProjectId_def test_env_def GetAuthHeaderValue_def test_auth_def online_def
      IsExpired_def OAuth2_new_def)

lemma test_config_limits:
  "metadata_ingestion_request_size_limit_count test_config = 1"
  "metadata_ingestion_request_size_limit_bytes test_config = 1000"
  "metadata_ingestion_endpoint_format test_config = ''e''"
  "metadata_reporter_purge_deleted test_config"
  "metadata_reporter_user_agent test_config = ''agent''"
  by (simp_all add: test_config_def)

lemma test_entry_size:
  "length (ToString (generator online) (metadata_entry (MonitoredResource t []) (test_metadata b))) \<le> 20"
  "length (ToString (generator online) empty_request) \<le> 10"
  by (simp_all add: ToString_def online_def metadata_entry_def empty_request_def array_def object_def object_fields_def
      List.map_filter_simps map_emplace_all_def less_char_def ToJSON_def object_of_map_def
      test_metadata_def make_Metadata_def)

lemma test_sizes:
  "sizes_in_range (generator online) test_config (map (\<lambda>t. (MonitoredResource t [], test_metadata b)) ts)"
proof -
  have "size_of (generator online) empty_request + size_of (generator online) (metadata_entry (MonitoredResource t []) (test_metadata b)) < 2 ^ 31"
    for t using test_entry_size(1) [of t b] test_entry_size(2) by (simp add: size_of_def)
  then show ?thesis by (simp add: sizes_in_range_def test_config_limits list_all_iff)
qed

theorem SendMetadata_batches_witness:
  "let md = map (\<lambda>t. (MonitoredResource t [], test_metadata False)) [''t'', ''u'']
   in \<exists>bs. SendMetadata online test_crypto test_config md (test_auth, test_env, []) =
        iterM (SendMetadataRequest online ''e'' ''Bearer T'' ''agent'') bs (test_auth, test_env, [])
      \<and> list_all (\<lambda>b. b \<noteq> [] \<and> length b \<le> 1) bs"
proof -
  let ?md = "map (\<lambda>t. (MonitoredResource t [], test_metadata False)) [''t'', ''u'']"
  let ?bs = "sent_batches (generator online) test_config ?md"
  have "Substitute (metadata_ingestion_endpoint_format test_config) [(''project_id'', ''p'')] = Inr ''e''"
    by (simp add: test_config_limits test_substitute)
  moreover have "?md \<noteq> []" "1 \<le> metadata_ingestion_request_size_limit_count test_config"
    by (simp_all add: test_config_limits)
  ultimately have sent: "SendMetadata online test_crypto test_config ?md (test_auth, test_env, []) =
      iterM (SendMetadataRequest online ''e'' ''Bearer T'' (metadata_reporter_user_agent test_config)) ?bs
        (test_auth, test_env, []) \<and>
    list_all (\<lambda>b. b \<noteq> [] \<and> int (length b) \<le> metadata_ingestion_request_size_limit_count test_config \<and>
      size_of (generator online) empty_request + sum_list (map (size_of (generator online)) b)
        \<le> metadata_ingestion_request_size_limit_bytes test_config) ?bs"
    using SendMetadata_batches [OF _ test_prologue(1) _ test_prologue(2) _ test_sizes [of False "[''t'', ''u'']"]]
    unfolding Let_def by blast
  then have "list_all (\<lambda>b. b \<noteq> [] \<and> length b \<le> 1) ?bs"
    unfolding test_config_limits by (auto elim!: list.pred_mono_strong)
  with sent show ?thesis unfolding Let_def test_config_limits by blast
qed

definition test_store :: MetadataStore where
  "test_store = UpdateMetadata (MonitoredResource ''t'' []) (test_metadata True) empty_store"

lemma test_store_ok: "store_ok test_store" "store_ok empty_store"
  using ms.ok_start store_ok_step [of empty_store "Op_UpdateMetadata (MonitoredResource ''t'' []) (test_metadata True)"]
  by (simp_all add: test_store_def)

lemma SendMetadata_empty: "SendMetadata P K config [] s = (Inr (), s)"
  by (simp add: SendMetadata_def)

lemma test_store_facts:
  "GetMetadataMap empty_store = []" "metadata_map empty_store = []"
  "is_deleted (test_metadata True)" "\<not> ignore (test_metadata b)"
  "metadata_map test_store = [(MonitoredResource ''t'' [], test_metadata True)]"
  "GetMetadataMap test_store = [(MonitoredResource ''t'' [], test_metadata True)]"
  by (simp_all add: GetMetadataMap_def empty_store_def test_metadata_def make_Metadata_def test_store_def
      UpdateMetadata_def Metadata_Clone_def)

text \<open>A resource is reported as live and deleted during the report.\<close>

definition live_store :: MetadataStore where
  "live_store = UpdateMetadata (MonitoredResource ''t'' []) (test_metadata False) empty_store"

lemma live_store_ok: "store_ok live_store"
  using store_ok_step [OF test_store_ok(2), of "Op_UpdateMetadata (MonitoredResource ''t'' []) (test_metadata False)"]
  by (simp add: live_store_def)

lemma one_entry_map:
  "GetMetadataMap (UpdateMetadata (MonitoredResource ''t'' []) (test_metadata b) empty_store) =
     [(MonitoredResource ''t'' [], test_metadata b)]"
  by (simp add: GetMetadataMap_def empty_store_def test_metadata_def make_Metadata_def UpdateMetadata_def
      Metadata_Clone_def)

lemma test_send:
  "\<exists>w. SendMetadata online test_crypto test_config
      (GetMetadataMap (UpdateMetadata (MonitoredResource ''t'' []) (test_metadata b) empty_store))
      (test_auth, test_env, []) = (Inr (), test_auth, test_env, w)"
proof -
  let ?md = "[(MonitoredResource ''t'' [], test_metadata b)]"
  have send: "\<exists>w'. SendMetadataRequest online x y z es (test_auth, test_env, w) = (Inr (), test_auth, test_env, w')"
    for x y z es w
    by (simp add: SendMetadataRequest_def Let_def online_def)
  have "\<exists>w'. iterM (SendMetadataRequest online x y z) bs (test_auth, test_env, w) = (Inr (), test_auth, test_env, w')"
    for x y z bs w
  proof (induction bs arbitrary: w)
    case (Cons b bs)
    obtain w1 where "SendMetadataRequest online x y z b (test_auth, test_env, w) = (Inr (), test_auth, test_env, w1)"
      using send by blast
    with Cons [of w1] show ?case by (simp add: meth_simps)
  qed (simp add: meth_simps)
  then show ?thesis
    using SendMetadata_sends [of ?md online test_config test_env "[]" "''p''" test_env "[]" "''e''" test_crypto test_auth
        "''Bearer T''" "(test_auth, test_env, [])", OF _ test_prologue(1) _ test_prologue(2)] test_sizes [of b "[''t'']"]
    by (simp add: one_entry_map test_substitute test_config_limits)
qed

theorem report_turn_loses_deletion_witness:
  "\<exists>store' w. report_turn online test_crypto test_config [Op_UpdateMetadata (MonitoredResource ''t'' []) (test_metadata True)]
      (live_store, test_auth, test_env, []) = Some (store', test_auth, test_env, w)
    \<and> map_of (GetMetadataMap store') (MonitoredResource ''t'' []) = None"
proof -
  obtain w where "SendMetadata online test_crypto test_config (GetMetadataMap live_store) (test_auth, test_env, [])
      = (Inr (), test_auth, test_env, w)"
    using test_send unfolding live_store_def by blast
  from report_turn_loses_deletion [OF live_store_ok test_config_limits(4) this test_store_facts(3,4),
      of "MonitoredResource ''t'' []" "[]" "[]"]
  obtain store' where "report_turn online test_crypto test_config
      [Op_UpdateMetadata (MonitoredResource ''t'' []) (test_metadata True)] (live_store, test_auth, test_env, [])
        = Some (store', test_auth, test_env, w)"
    "\<And>later. list_all (\<lambda>op. \<not> updates (MonitoredResource ''t'' []) op) later \<Longrightarrow>
       map_of (GetMetadataMap (fold store_step later store')) (MonitoredResource ''t'' []) = None"
    by auto
  from this(1) this(2) [of "[]"] show ?thesis by auto
qed

theorem report_turn_purges_sent_witness:
  "\<exists>store' s'. report_turn online test_crypto test_config [] (test_store, test_auth, test_env, []) = Some (store', s')
    \<and> SendMetadata online test_crypto test_config (GetMetadataMap test_store) (test_auth, test_env, []) = (Inr (), s')"
proof -
  obtain w where sent: "SendMetadata online test_crypto test_config (GetMetadataMap test_store) (test_auth, test_env, [])
      = (Inr (), test_auth, test_env, w)"
    using test_send unfolding test_store_def by blast
  then have "report_turn online test_crypto test_config [] (test_store, test_auth, test_env, [])
      = Some (PurgeDeletedEntries test_store, test_auth, test_env, w)"
    by (simp add: report_turn_def test_config_limits)
  moreover from report_turn_purges_sent [OF test_store_ok(1) this, of "MonitoredResource ''t'' []" "test_metadata True"]
  have "SendMetadata online test_crypto test_config (GetMetadataMap test_store) (test_auth, test_env, [])
      = (Inr (), test_auth, test_env, w)"
    by (simp add: test_store_facts PurgeDeletedEntries_def)
  ultimately show ?thesis by blast
qed

end
