(* ===== verification/Util.thy ===== *)
theory Util
  imports Prelude
begin

text \<open>
  \<^verbatim>\<open>util::Retry\<close> (\<^verbatim>\<open>src/util.h\<close>): runs a piece of work until it succeeds, fails terminally or has
  failed often enough.  The exception classes are predicates on the exceptions; the delay between
  attempts is an effect on the state.
\<close>

function retry_from ::
  "('e \<Rightarrow> bool) \<Rightarrow> ('e \<Rightarrow> bool) \<Rightarrow> int \<Rightarrow> ('s \<Rightarrow> 's) \<Rightarrow> ('s, 'e, unit) meth \<Rightarrow> int \<Rightarrow> ('s, 'e, unit) meth" where
  "retry_from is_terminate is_fail max_retries delay work i s =
     (case work s of
        (Inr _, s') \<Rightarrow> (Inr (), s')
      | (Inl e, s') \<Rightarrow>
          if is_terminate e then (Inl e, s')
          else if is_fail e then
            if i < max_retries - 1
            then retry_from is_terminate is_fail max_retries delay work (i + 1) (delay s')
            else (Inl e, s')
          else (Inl e, s'))"
  by pat_completeness auto
termination
  by (relation "measure (\<lambda>(is_terminate, is_fail, max_retries, delay, work, i, s). nat (max_retries - i))") auto

declare retry_from.simps [simp del]

definition Retry ::
  "('e \<Rightarrow> bool) \<Rightarrow> ('e \<Rightarrow> bool) \<Rightarrow> int \<Rightarrow> ('s \<Rightarrow> 's) \<Rightarrow> ('s, 'e, unit) meth \<Rightarrow> ('s, 'e, unit) meth" where
  "Retry is_terminate is_fail max_retries delay work = retry_from is_terminate is_fail max_retries delay work 0"

lemma retry_from_keeps:
  assumes "keeps I work" and "\<And>s. I s \<Longrightarrow> I (delay s)"
  shows "I s \<Longrightarrow> I (snd (retry_from T F n delay work k s))"
  using assms
proof (induction T F n delay work k s rule: retry_from.induct)
  case (1 T F n delay work k s)
  obtain x t where w: "work s = (x, t)" by (metis surj_pair)
  with 1 have "I t" by (blast dest: keepsD)
  with 1 w show ?case
    by (subst retry_from.simps) (auto split: sum.splits)
qed

text \<open>Retrying a method that keeps an invariant keeps it, if the delay does.\<close>

lemma Retry_keeps [keeps_rules]:
  "keeps I work \<Longrightarrow> (\<And>s. I s \<Longrightarrow> I (delay s)) \<Longrightarrow> keeps I (Retry T F n delay work)"
  unfolding Retry_def keeps_def [of I "retry_from T F n delay work 0"] by (blast intro: retry_from_keeps)

text \<open>The state after \<open>k\<close> failed attempts and the delays that follow them.\<close>

definition retried :: "('s \<Rightarrow> 's) \<Rightarrow> ('s, 'e, unit) meth \<Rightarrow> nat \<Rightarrow> 's \<Rightarrow> 's" where
  "retried delay work k = ((\<lambda>s. delay (snd (work s))) ^^ k)"

definition retriable :: "('e \<Rightarrow> bool) \<Rightarrow> ('e \<Rightarrow> bool) \<Rightarrow> 'e + unit \<Rightarrow> bool" where
  "retriable is_terminate is_fail r = (case r of Inr _ \<Rightarrow> False | Inl e \<Rightarrow> \<not> is_terminate e \<and> is_fail e)"

lemma retried_Suc: "retried delay work (Suc k) s = retried delay work k (delay (snd (work s)))"
  by (simp add: retried_def funpow_Suc_right del: funpow.simps(2))

lemma retried_0 [simp]: "retried delay work 0 s = s"
  by (simp add: retried_def)

lemma retry_from_attempts:
  "0 \<le> i \<Longrightarrow> \<exists>k. int k < max 1 (max_retries - i)
     \<and> list_all (\<lambda>j. retriable is_terminate is_fail (fst (work (retried delay work j s)))) [0..<k]
     \<and> retry_from is_terminate is_fail max_retries delay work i s = work (retried delay work k s)
     \<and> (retriable is_terminate is_fail (fst (work (retried delay work k s)))
          \<longrightarrow> int k = max 1 (max_retries - i) - 1)"
proof (induction is_terminate is_fail max_retries delay work i s rule: retry_from.induct)
  case (1 is_terminate is_fail max_retries delay work i s)
  obtain r s' where w: "work s = (r, s')" by fastforce
  show ?case
  proof (cases "retriable is_terminate is_fail r \<and> i < max_retries - 1")
    case False
    then have "retry_from is_terminate is_fail max_retries delay work i s = work s"
      by (auto simp: retry_from.simps [of _ _ _ _ _ i] w retriable_def split: sum.splits)
    then show ?thesis
      using False by (intro exI [of _ 0]) (auto simp: retried_def w)
  next
    case True
    then obtain e where e: "r = Inl e" "\<not> is_terminate e" "is_fail e" by (auto simp: retriable_def split: sum.splits)
    from "1.IH" [of r s' e] "1.prems" w e True obtain k where k:
      "int k < max 1 (max_retries - (i + 1))"
      "list_all (\<lambda>j. retriable is_terminate is_fail (fst (work (retried delay work j (delay s'))))) [0..<k]"
      "retry_from is_terminate is_fail max_retries delay work (i + 1) (delay s') = work (retried delay work k (delay s'))"
      "retriable is_terminate is_fail (fst (work (retried delay work k (delay s'))))
          \<longrightarrow> int k = max 1 (max_retries - (i + 1)) - 1"
      by auto
    have "retry_from is_terminate is_fail max_retries delay work i s = work (retried delay work (Suc k) s)"
      using k(3) e True by (simp add: retry_from.simps [of _ _ _ _ _ i] w retried_Suc)
    moreover have "list_all (\<lambda>j. retriable is_terminate is_fail (fst (work (retried delay work j s)))) [0..<Suc k]"
    proof -
      have "retriable is_terminate is_fail (fst (work (retried delay work j s)))" if "j < Suc k" for j
        using k(2) True w that by (cases j) (simp_all add: retried_Suc list_all_iff)
      then show ?thesis by (intro list_all_iff [THEN iffD2] ballI) (auto simp del: upt_Suc)
    qed
    moreover have "int (Suc k) < max 1 (max_retries - i)" using k(1) True by simp
    moreover have "retriable is_terminate is_fail (fst (work (retried delay work (Suc k) s)))
        \<longrightarrow> int (Suc k) = max 1 (max_retries - i) - 1"
      using k(4) True by (auto simp: retried_Suc w)
    ultimately show ?thesis by blast
  qed
qed

text \<open>
  \<^verbatim>\<open>Retry\<close> terminates and returns the outcome of its last attempt: attempts that fail with a
  retriable exception are repeated, the first other outcome ends it, and there is at least one and at
  most \<open>max(1, max_retries)\<close> attempts; a retriable failure is only passed on after all of them.
\<close>

theorem Retry_attempts:
  "\<exists>k. int k < max 1 max_retries
     \<and> list_all (\<lambda>j. retriable is_terminate is_fail (fst (work (retried delay work j s)))) [0..<k]
     \<and> Retry is_terminate is_fail max_retries delay work s = work (retried delay work k s)
     \<and> (\<not> retriable is_terminate is_fail (fst (work (retried delay work k s)))
        \<or> int k = max 1 max_retries - 1)"
  using retry_from_attempts [of 0 max_retries is_terminate is_fail work delay s] by (auto simp: Retry_def)

theorem Retry_attempts_witness:
  "\<exists>k. int k < max 1 3 \<and> Retry (\<lambda>e. False) (\<lambda>e. True) 3 (\<lambda>s. s)
     (\<lambda>s::nat. (if s < 1 then Inl ''fail'' else Inr (), s + 1)) 0
       = (\<lambda>s::nat. (if s < 1 then Inl ''fail'' else Inr (), s + 1))
          (retried (\<lambda>s. s) (\<lambda>s::nat. (if s < 1 then Inl ''fail'' else Inr (), s + 1)) k 0)"
  using Retry_attempts [of 3 "\<lambda>e. False" "\<lambda>e. True" "\<lambda>s::nat. (if s < 1 then Inl ''fail'' else Inr (), s + 1)"
      "\<lambda>s. s" 0] by fast

end
