(* ===== verification/Updater.thy ===== *)
theory Updater
  imports Store
begin

text \<open>
  Metadata updaters (\<^verbatim>\<open>src/updater.h\<close>, \<^verbatim>\<open>src/updater.cc\<close>): the start protocol of the base class with
  its virtual methods, the callbacks into the store, and the polling updater with its thread.

  The virtual methods are a record of functions.  The polling thread is modelled twice: as the loop
  with the effect of each query on the store, and as a step relation in which the thread and the
  calls of \<^verbatim>\<open>Start\<close> and \<^verbatim>\<open>NotifyStop\<close> interleave through the timer's mutex.
\<close>

section \<open>The base class\<close>

record ResourceMetadata =
  rm_ids :: "string list"
  rm_resource :: MonitoredResource
  rm_metadata :: Metadata

text \<open>The period in the message of the polling updater is the number; \<^verbatim>\<open>what()\<close> prints it.\<close>

datatype ConfigurationValidationError = ValidationError string | NegativePeriod rat

text \<open>How a start fails: with the declared exception, or with the end of the process (\<open>None\<close>).\<close>

type_synonym start_error = "ConfigurationValidationError option"

record 's updater_class =
  ValidateStaticConfiguration :: "'s \<Rightarrow> ConfigurationValidationError + unit"
  ShouldStartUpdater :: "'s \<Rightarrow> bool"
  ValidateDynamicConfiguration :: "('s, start_error, unit) meth"
  StartUpdater :: "('s, start_error, unit) meth"
  NotifyStopUpdater :: "'s \<Rightarrow> 's option"

definition Start :: "'s updater_class \<Rightarrow> ('s, start_error, unit) meth" where
  "Start C =
     bindM (\<lambda>s. (case ValidateStaticConfiguration C s of Inl e \<Rightarrow> Inl (Some e) | Inr u \<Rightarrow> Inr u, s)) (\<lambda>_ s.
       if ShouldStartUpdater C s
       then bindM (ValidateDynamicConfiguration C) (\<lambda>_. StartUpdater C) s
       else returnM () s)"

definition NotifyStop :: "'s updater_class \<Rightarrow> 's \<Rightarrow> 's option" where
  "NotifyStop C = NotifyStopUpdater C"

definition UpdateResourceCallback :: "ResourceMetadata \<Rightarrow> MetadataStore \<Rightarrow> MetadataStore" where
  "UpdateResourceCallback result = UpdateResource (rm_ids result) (rm_resource result)"

definition UpdateMetadataCallback :: "ResourceMetadata \<Rightarrow> MetadataStore \<Rightarrow> MetadataStore" where
  "UpdateMetadataCallback result = UpdateMetadata (rm_resource result) (rm_metadata result)"

section \<open>The polling updater\<close>

record PollingMetadataUpdater =
  period :: rat
  poll_timer :: timer
  poll_thread :: bool

definition PollingMetadataUpdater_new :: "rat \<Rightarrow> PollingMetadataUpdater" where
  "PollingMetadataUpdater_new period_s =
     \<lparr>period = period_s, poll_timer = \<lparr>timer_locked = False\<rparr>, poll_thread = False\<rparr>"

definition polling_ValidateStatic :: "PollingMetadataUpdater \<Rightarrow> ConfigurationValidationError + unit" where
  "polling_ValidateStatic u = (if period u < 0 then Inl (NegativePeriod (period u)) else Inr ())"

definition polling_ShouldStart :: "PollingMetadataUpdater \<Rightarrow> bool" where
  "polling_ShouldStart u = (period u > 0)"

text \<open>\<^verbatim>\<open>Init\<close> does not block: the updater starts with its mutex unlocked.\<close>

definition polling_StartUpdater :: "PollingMetadataUpdater \<Rightarrow> PollingMetadataUpdater" where
  "polling_StartUpdater u =
     (case Init (poll_timer u) of
        None \<Rightarrow> u
      | Some t \<Rightarrow> u\<lparr>poll_timer := t, poll_thread := True\<rparr>)"

definition polling_NotifyStop :: "PollingMetadataUpdater \<Rightarrow> PollingMetadataUpdater option" where
  "polling_NotifyStop u = map_option (\<lambda>t. u\<lparr>poll_timer := t\<rparr>) (Cancel (poll_timer u))"

definition polling_class :: "PollingMetadataUpdater updater_class" where
  "polling_class =
     \<lparr>ValidateStaticConfiguration = polling_ValidateStatic,
      ShouldStartUpdater = polling_ShouldStart,
      ValidateDynamicConfiguration = returnM (),
      StartUpdater = modifyM polling_StartUpdater,
      NotifyStopUpdater = polling_NotifyStop\<rparr>"

text \<open>
  A polling updater with state of its own (the reader it polls) that overrides the dynamic validation.
\<close>

definition polling_subclass :: "('s, start_error, unit) meth \<Rightarrow> (PollingMetadataUpdater \<times> 's) updater_class" where
  "polling_subclass validate =
     \<lparr>ValidateStaticConfiguration = (\<lambda>(u, s). polling_ValidateStatic u),
      ShouldStartUpdater = (\<lambda>(u, s). polling_ShouldStart u),
      ValidateDynamicConfiguration = (\<lambda>(u, s). case validate s of (r, t) \<Rightarrow> (r, u, t)),
      StartUpdater = modifyM (\<lambda>(u, s). (polling_StartUpdater u, s)),
      NotifyStopUpdater = (\<lambda>(u, s). map_option (\<lambda>u'. (u', s)) (polling_NotifyStop u))\<rparr>"

text \<open>
  The loop.  A query that throws ends the process (\<open>None\<close>).  For each turn the list gives the
  operations of other threads that precede each callback of the turn, and whether the wait after it
  ran to its end.
\<close>

fun apply_results :: "ResourceMetadata list \<Rightarrow> MetadataStore \<Rightarrow> MetadataStore" where
  "apply_results [] store = store"
| "apply_results (result # results) store =
     apply_results results (UpdateMetadataCallback result (UpdateResourceCallback result store))"

fun poll_loop ::
  "('w \<Rightarrow> ('e + ResourceMetadata list) \<times> 'w) \<Rightarrow> (store_op list \<times> bool) list \<Rightarrow> 'w \<times> MetadataStore
    \<Rightarrow> (bool \<times> 'w \<times> MetadataStore) option" where
  "poll_loop query_metadata [] st = Some (False, st)"
| "poll_loop query_metadata ((others, waited) # turns) st =
     (case query_metadata (fst st) of
        (Inl e, w) \<Rightarrow> None
      | (Inr result_vector, w) \<Rightarrow>
          let store = apply_results result_vector (fold store_step others (snd st))
          in if waited then poll_loop query_metadata turns (w, store) else Some (True, w, store))"

section \<open>Callbacks are store operations\<close>

fun result_ops :: "ResourceMetadata \<Rightarrow> store_op list" where
  "result_ops r = [Op_UpdateResource (rm_ids r) (rm_resource r), Op_UpdateMetadata (rm_resource r) (rm_metadata r)]"

lemma apply_results_ops: "apply_results rs store = fold store_step (concat (map result_ops rs)) store"
  by (induction rs arbitrary: store)
    (simp_all add: UpdateMetadataCallback_def UpdateResourceCallback_def)

lemma displaces_result_ops:
  "list_all (\<lambda>r'. rm_resource r' \<noteq> r) rs \<Longrightarrow> list_all (\<lambda>op. \<not> displaces r e op) (concat (map result_ops rs))"
  by (induction rs) auto

text \<open>
  What a poll leaves in the store: after any history, applying the results of a query makes the
  last result of each resource its entry (unless it is to be ignored), and each id of the results
  resolves, to the resource of its first registration in the history or else in the results.
\<close>

theorem apply_results_stored:
  assumes "rs = before @ r # rest" and "list_all (\<lambda>r'. rm_resource r' \<noteq> rm_resource r) rest"
    and "\<not> ignore (rm_metadata r)"
  shows "map_of (GetMetadataMap (apply_results rs (fold store_step ops empty_store))) (rm_resource r)
      = Some (Metadata_Clone (rm_metadata r))
    \<and> (i \<in> set (rm_ids r) \<longrightarrow>
        (\<exists>x. LookupResource (apply_results rs (fold store_step ops empty_store)) i = Inr x
           \<and> map_of (concat (map bindings ops) @ concat (map (\<lambda>r. map (\<lambda>i. (i, rm_resource r)) (rm_ids r)) rs)) i
               = Some x))"
proof -
  let ?ops = "ops @ concat (map result_ops rs)"
  let ?s = "fold store_step ?ops empty_store"
  have s: "apply_results rs (fold store_step ops empty_store) = ?s"
    by (simp add: apply_results_ops)
  have "?ops = (ops @ concat (map result_ops before) @ [Op_UpdateResource (rm_ids r) (rm_resource r)])
      @ Op_UpdateMetadata (rm_resource r) (rm_metadata r) # concat (map result_ops rest)"
    by (simp add: assms(1))
  then have "spec_entries (abs_store ?s) (rm_resource r) = Some (rm_metadata r)"
    unfolding ms.entries_run using assms(3) displaces_result_ops [OF assms(2)] by blast
  then have "map_of (metadata_map ?s) (rm_resource r) = Some (rm_metadata r)"
    by (simp add: abs_store_def)
  then have "map_of (GetMetadataMap ?s) (rm_resource r) = Some (Metadata_Clone (rm_metadata r))"
    by (simp only: map_of_GetMetadataMap [OF store_ok_run] option.map)
  moreover have "concat (map bindings (concat (map result_ops rs)))
      = concat (map (\<lambda>r. map (\<lambda>i. (i, rm_resource r)) (rm_ids r)) rs)" for rs
    by (induction rs) simp_all
  then have b: "concat (map bindings ?ops) =
      concat (map bindings ops) @ concat (map (\<lambda>r. map (\<lambda>i. (i, rm_resource r)) (rm_ids r)) rs)"
    by simp
  have "map_of (concat (map bindings ?ops)) i \<noteq> None" if "i \<in> set (rm_ids r)"
    using that unfolding b map_of_eq_None_iff by (force simp: assms(1))
  moreover have "LookupResource ?s i =
      (case map_of (concat (map bindings ?ops)) i of None \<Rightarrow> Inl OutOfRange | Some x \<Rightarrow> Inr x)"
    using ms.ids_run [of ?ops i] unfolding LookupResource_def by (simp only: abs_store_def store_spec.simps)
  ultimately show ?thesis
    unfolding s b [symmetric] by (cases "map_of (concat (map bindings ?ops)) i") force+
qed

theorem apply_results_stored_witness:
  "let r = \<lparr>rm_ids = [''id''], rm_resource = MonitoredResource ''t'' [], rm_metadata = make_Metadata ''v'' False 0 5 Null\<rparr>
   in map_of (GetMetadataMap (apply_results [r] (fold store_step [] empty_store))) (MonitoredResource ''t'' [])
        = Some (make_Metadata ''v'' False 0 5 Null)"
proof -
  let ?r = "\<lparr>rm_ids = [''id''], rm_resource = MonitoredResource ''t'' [], rm_metadata = make_Metadata ''v'' False 0 5 Null\<rparr>"
  have "Metadata_Clone (rm_metadata ?r) = make_Metadata ''v'' False 0 5 Null" "\<not> ignore (rm_metadata ?r)"
    by (simp_all add: Metadata_Clone_def make_Metadata_def)
  then show ?thesis
    using apply_results_stored [of "[?r]" "[]" ?r "[]" "[]" "''id''"] unfolding Let_def
    by (simp del: fold_simps apply_results.simps)
qed

section \<open>Starting and stopping\<close>

lemma Start_polling:
  "Start polling_class u =
     (if period u < 0 then (Inl (Some (NegativePeriod (period u))), u)
      else if period u = 0 then (Inr (), u)
      else (Inr (), polling_StartUpdater u))"
  by (simp add: Start_def polling_class_def polling_ValidateStatic_def polling_ShouldStart_def meth_simps)

lemma Start_polling_subclass:
  "Start (polling_subclass validate) (u, s) =
     (if period u < 0 then (Inl (Some (NegativePeriod (period u))), u, s)
      else if period u = 0 then (Inr (), u, s)
      else case validate s of (Inl e, t) \<Rightarrow> (Inl e, u, t) | (Inr _, t) \<Rightarrow> (Inr (), polling_StartUpdater u, t))"
  by (simp add: Start_def polling_subclass_def polling_ValidateStatic_def polling_ShouldStart_def meth_simps
      split: prod.split sum.split)

lemma NotifyStop_polling_eq:
  "NotifyStop polling_class u =
     (if timer_locked (poll_timer u) then Some (u\<lparr>poll_timer := (poll_timer u)\<lparr>timer_locked := False\<rparr>\<rparr>) else None)"
  by (simp add: NotifyStop_def polling_class_def polling_NotifyStop_def Cancel_def)

text \<open>
  A polling updater with a positive period starts its thread and can then be stopped; with period
  zero it is accepted but not started, with a negative period it is refused, and in both of these cases
  stopping it unlocks a mutex that is not locked, which is undefined.
\<close>

theorem polling_start_stop:
  "fst (Start polling_class (PollingMetadataUpdater_new p)) = (if p < 0 then Inl (Some (NegativePeriod p)) else Inr ())
   \<and> poll_thread (snd (Start polling_class (PollingMetadataUpdater_new p))) = (0 < p)
   \<and> (NotifyStop polling_class (snd (Start polling_class (PollingMetadataUpdater_new p))) = None) = (p \<le> 0)"
  by (simp add: Start_polling NotifyStop_polling_eq PollingMetadataUpdater_new_def polling_StartUpdater_def Init_def)

text \<open>
  The polling thread and its owner.  \<open>elapsed\<close> and \<open>cancelled\<close> are the two results of \<^verbatim>\<open>Wait\<close>: it
  times out while the mutex is held, and takes the mutex once it is free.
\<close>

datatype poll_phase = NotRunning | Querying | Waiting | Exited

record poll_state =
  updater :: PollingMetadataUpdater
  phase :: poll_phase
  queries :: nat

abbreviation locked :: "poll_state \<Rightarrow> bool" where
  "locked s \<equiv> timer_locked (poll_timer (updater s))"

inductive thread_step :: "poll_state \<Rightarrow> poll_state \<Rightarrow> bool" where
  query: "phase s = Querying \<Longrightarrow> thread_step s (s\<lparr>phase := Waiting, queries := queries s + 1\<rparr>)"
| elapsed: "phase s = Waiting \<Longrightarrow> locked s \<Longrightarrow> thread_step s (s\<lparr>phase := Querying\<rparr>)"
| cancelled: "phase s = Waiting \<Longrightarrow> Init (poll_timer (updater s)) = Some t
    \<Longrightarrow> thread_step s (s\<lparr>phase := Exited, updater := (updater s)\<lparr>poll_timer := t\<rparr>\<rparr>)"

inductive poll_step :: "poll_state \<Rightarrow> poll_state \<Rightarrow> bool" where
  start: "phase s = NotRunning \<Longrightarrow> Start polling_class (updater s) = (Inr (), u) \<Longrightarrow> poll_thread u
    \<Longrightarrow> poll_step s (s\<lparr>updater := u, phase := Querying\<rparr>)"
| thread: "thread_step s t \<Longrightarrow> poll_step s t"
| stop: "NotifyStop polling_class (updater s) = Some u \<Longrightarrow> poll_step s (s\<lparr>updater := u\<rparr>)"

inductive_cases thread_stepE: "thread_step s t"
inductive_cases poll_stepE: "poll_step s t"

text \<open>What holds from the moment a running updater is told to stop, after \<open>q\<close> queries.\<close>

definition stopping :: "nat \<Rightarrow> poll_state \<Rightarrow> bool" where
  "stopping q s =
     (case phase s of
        NotRunning \<Rightarrow> False
      | Querying \<Rightarrow> \<not> locked s \<and> queries s \<le> q
      | Waiting \<Rightarrow> \<not> locked s \<and> queries s \<le> q + 1
      | Exited \<Rightarrow> queries s \<le> q + 1)"

lemma NotifyStop_polling:
  "NotifyStop polling_class u = Some u' \<longleftrightarrow>
     timer_locked (poll_timer u) \<and> u' = u\<lparr>poll_timer := (poll_timer u)\<lparr>timer_locked := False\<rparr>\<rparr>"
  by (auto simp: NotifyStop_polling_eq)

lemma stopping_step: "poll_step s t \<Longrightarrow> stopping q s \<Longrightarrow> stopping q t"
  by (elim poll_stepE thread_stepE) (auto simp: stopping_def NotifyStop_polling split: poll_phase.splits)

lemma stopping_reach: "poll_step\<^sup>*\<^sup>* s t \<Longrightarrow> stopping q s \<Longrightarrow> stopping q t"
  by (induction rule: rtranclp_induct) (auto intro: stopping_step)

lemma stopping_exits: "stopping q s \<Longrightarrow> \<exists>t. thread_step\<^sup>*\<^sup>* s t \<and> phase t = Exited"
proof -
  have waiting: "\<exists>t. thread_step\<^sup>*\<^sup>* s t \<and> phase t = Exited" if "phase s = Waiting" "\<not> locked s" for s
  proof -
    have "thread_step s (s\<lparr>phase := Exited,
        updater := (updater s)\<lparr>poll_timer := (poll_timer (updater s))\<lparr>timer_locked := True\<rparr>\<rparr>\<rparr>)"
      using that by (intro cancelled) (simp_all add: Init_def)
    then show ?thesis by (intro exI conjI) (rule r_into_rtranclp, assumption, simp)
  qed
  assume "stopping q s"
  then consider "phase s = Exited" | "phase s = Waiting" "\<not> locked s" | "phase s = Querying" "\<not> locked s"
    by (auto simp: stopping_def split: poll_phase.splits)
  then show ?thesis
  proof cases
    case 3
    then have "thread_step s (s\<lparr>phase := Waiting, queries := queries s + 1\<rparr>)" by (intro query)
    with 3 waiting [of "s\<lparr>phase := Waiting, queries := queries s + 1\<rparr>"] show ?thesis
      by (auto intro: converse_rtranclp_into_rtranclp)
  qed (auto intro: waiting)
qed

text \<open>
  C21.  Once a running polling updater has been told to stop, its thread makes at most one more query
  whatever happens afterwards, and from every state it can still reach, its own steps lead to
  its exit.
\<close>

theorem stop_ends_polling:
  assumes "phase s = Querying \<or> phase s = Waiting"
    and "NotifyStop polling_class (updater s) = Some u"
    and "poll_step\<^sup>*\<^sup>* (s\<lparr>updater := u\<rparr>) t"
  shows "queries t \<le> queries s + 1 \<and> (\<exists>t'. thread_step\<^sup>*\<^sup>* t t' \<and> phase t' = Exited)"
proof -
  have "stopping (queries s) (s\<lparr>updater := u\<rparr>)"
    using assms(1,2) by (auto simp: stopping_def NotifyStop_polling)
  then have st: "stopping (queries s) t" using assms(3) stopping_reach by blast
  then have "queries t \<le> queries s + 1" by (auto simp: stopping_def split: poll_phase.splits)
  with st stopping_exits show ?thesis by blast
qed

theorem stop_ends_polling_witness:
  "let u = \<lparr>period = 1, poll_timer = \<lparr>timer_locked = False\<rparr>, poll_thread = True\<rparr>;
       t = \<lparr>updater = u, phase = Waiting, queries = 5\<rparr>
   in \<exists>t'. thread_step\<^sup>*\<^sup>* t t' \<and> phase t' = Exited"
  using stop_ends_polling [of "\<lparr>updater = \<lparr>period = 1, poll_timer = \<lparr>timer_locked = True\<rparr>, poll_thread = True\<rparr>,
      phase = Waiting, queries = 5\<rparr>" "\<lparr>period = 1, poll_timer = \<lparr>timer_locked = False\<rparr>, poll_thread = True\<rparr>"]
  by (simp add: NotifyStop_polling)

end
