(* ===== verification/Health_Checker.thy ===== *)
theory Health_Checker
  imports Store Configuration
begin

text \<open>
  The health checker (\<^verbatim>\<open>src/health_checker.h\<close>, \<^verbatim>\<open>src/health_checker.cc\<close>): components marked as
  unhealthy and resource types whose data is too old.  A \<^verbatim>\<open>std::set\<close> is the ascending list of its
  elements.
\<close>

fun set_insert :: "'a::linorder \<Rightarrow> 'a list \<Rightarrow> 'a list" where
  "set_insert x [] = [x]"
| "set_insert x (y # ys) = (if x < y then x # y # ys else if x = y then y # ys else y # set_insert x ys)"

record HealthChecker =
  unhealthy_components :: "string list"

definition SetUnhealthy :: "string \<Rightarrow> HealthChecker \<Rightarrow> HealthChecker" where
  "SetUnhealthy component hc = hc\<lparr>unhealthy_components := set_insert component (unhealthy_components hc)\<rparr>"

definition UnhealthyComponents :: "Configuration \<Rightarrow> MetadataStore \<Rightarrow> time_point \<Rightarrow> HealthChecker \<Rightarrow> string list" where
  "UnhealthyComponents config store system_time hc =
     (let cutoff = system_time - health_check_max_data_age_seconds config * 1000000000
      in fold (\<lambda>(object_type, collected) result.
             if collected < cutoff then set_insert object_type result else result)
           (GetLastCollectionTimes store) (unhealthy_components hc))"

lemma set_set_insert [simp]: "set (set_insert x ys) = insert x (set ys)"
  by (induction x ys rule: set_insert.induct) auto

lemma sorted_set_insert [wf_intros]: "sorted_wrt (<) ys \<Longrightarrow> sorted_wrt (<) (set_insert x ys)"
  by (induction x ys rule: set_insert.induct) auto

lemma fold_set_insert_if:
  "set (fold (\<lambda>(k, v) r. if P v then set_insert k r else r) m r0) = set r0 \<union> {k. \<exists>v. (k, v) \<in> set m \<and> P v}"
  by (induction m arbitrary: r0) (auto split: if_splits)

lemma sorted_fold_set_insert_if:
  "sorted_wrt (<) r0 \<Longrightarrow> sorted_wrt (<) (fold (\<lambda>(k, v) r. if P v then set_insert k r else r) m r0)"
  by (induction m arbitrary: r0) (auto simp: sorted_set_insert split: if_splits)

text \<open>A resource type is outdated when it was collected at some time, but never since the cutoff.\<close>

definition outdated :: "Configuration \<Rightarrow> store_op list \<Rightarrow> time_point \<Rightarrow> string \<Rightarrow> bool" where
  "outdated config ops t x \<longleftrightarrow>
     (let ts = concat (map (collections x) ops) in
        ts \<noteq> [] \<and> list_all (\<lambda>c. c < t - health_check_max_data_age_seconds config * 1000000000) ts)"

lemma set_UnhealthyComponents:
  "set (UnhealthyComponents config (fold store_step ops empty_store) t hc) =
     set (unhealthy_components hc) \<union> {x. outdated config ops t x}"
proof -
  let ?s = "fold store_step ops empty_store"
  let ?cutoff = "t - health_check_max_data_age_seconds config * 1000000000"
  have ok: "map_ok (last_collection_times ?s)" using store_ok_run [of ops] by (simp add: store_ok_def)
  have "(\<exists>v. (x, v) \<in> set (last_collection_times ?s) \<and> v < ?cutoff) \<longleftrightarrow> outdated config ops t x" for x
  proof -
    let ?ts = "concat (map (collections x) ops)"
    have "(\<exists>v. (x, v) \<in> set (last_collection_times ?s) \<and> v < ?cutoff) \<longleftrightarrow>
        (\<exists>v. map_of (last_collection_times ?s) x = Some v \<and> v < ?cutoff)"
      using map_of_eq_Some_iff [OF map_ok_distinct [OF ok]] by simp
    also have "\<dots> \<longleftrightarrow> ?ts \<noteq> [] \<and> Max (set ?ts) < ?cutoff"
      using ms.times_run [of ops x] unfolding Let_def by (auto simp: abs_store_def simp del: concat_eq_Nil_conv set_concat)
    also have "\<dots> \<longleftrightarrow> outdated config ops t x"
      by (auto simp: outdated_def Let_def list_all_iff simp del: concat_eq_Nil_conv set_concat)
    finally show ?thesis .
  qed
  then show ?thesis
    unfolding UnhealthyComponents_def GetLastCollectionTimes_def Let_def by (simp only: fold_set_insert_if)
qed

lemma sorted_UnhealthyComponents [wf_intros]:
  "sorted_wrt (<) (unhealthy_components hc) \<Longrightarrow> sorted_wrt (<) (UnhealthyComponents config store t hc)"
  unfolding UnhealthyComponents_def Let_def by (rule sorted_fold_set_insert_if)

text \<open>
  Over any history of the store, the unhealthy components are listed in ascending order without
  repetition and are exactly those marked explicitly together with the resource types that have been
  collected at some time but not within the configured maximum age.
\<close>

theorem UnhealthyComponents_exact:
  assumes "sorted_wrt (<) (unhealthy_components hc)"
  shows "sorted_wrt (<) (UnhealthyComponents config (fold store_step ops empty_store) t hc)
    \<and> (x \<in> set (UnhealthyComponents config (fold store_step ops empty_store) t hc) \<longleftrightarrow>
         x \<in> set (unhealthy_components hc)
         \<or> (let ts = concat (map (collections x) ops) in
              ts \<noteq> [] \<and> list_all (\<lambda>c. c < t - health_check_max_data_age_seconds config * 1000000000) ts))"
  using assms by (simp add: set_UnhealthyComponents sorted_UnhealthyComponents outdated_def Let_def)

theorem UnhealthyComponents_exact_witness:
  "let e = make_Metadata ''v'' False 0 0 Null;
       s = fold store_step [Op_UpdateMetadata (MonitoredResource ''t'' []) e] empty_store;
       config = (Configuration_new ''1'')\<lparr>health_check_max_data_age_seconds := 300\<rparr>
   in ''t'' \<in> set (UnhealthyComponents config s 400000000000 \<lparr>unhealthy_components = []\<rparr>)"
  using UnhealthyComponents_exact [of "\<lparr>unhealthy_components = []\<rparr>" "(Configuration_new ''1'')\<lparr>health_check_max_data_age_seconds := 300\<rparr>"
      "[Op_UpdateMetadata (MonitoredResource ''t'' []) (make_Metadata ''v'' False 0 0 Null)]" 400000000000 "''t''"]
  unfolding Let_def by (simp add: make_Metadata_def del: fold_simps)

end
