(* ===== verification/Api_Server.thy ===== *)
theory Api_Server
  imports Health_Checker
begin

text \<open>
  The local metadata API (\<^verbatim>\<open>src/api_server.h\<close>, \<^verbatim>\<open>src/api_server.cc\<close>): the dispatcher over its
  handler map and the two handlers.  The HTTP server is a library; a connection is what the handlers
  set on it.
\<close>

record api_request =
  api_method :: string
  destination :: string

record connection =
  conn_status :: "int option"
  conn_headers :: "(string, string) std_map"
  conn_written :: string

definition fresh_connection :: connection where
  "fresh_connection = \<lparr>conn_status = None, conn_headers = [], conn_written = []\<rparr>"

type_synonym handler = "api_request \<Rightarrow> connection \<Rightarrow> connection"

section \<open>The dispatcher\<close>

fun dispatch_loop :: "((string \<times> string) \<times> handler) list \<Rightarrow> api_request \<Rightarrow> connection \<Rightarrow> connection" where
  "dispatch_loop [] request conn = conn"
| "dispatch_loop (((meth, pre), handler) # it) request conn =
     (if api_method request \<noteq> meth \<or> str_find (destination request) pre 0 \<noteq> Some 0
      then dispatch_loop it request conn
      else dispatch_loop it request (handler request conn))"

definition Dispatcher :: "(string \<times> string, handler) std_map \<Rightarrow> handler" where
  "Dispatcher handlers request conn = dispatch_loop (rev handlers) request conn"

section \<open>The handlers\<close>

definition respond :: "int \<Rightarrow> string \<Rightarrow> string \<Rightarrow> connection \<Rightarrow> connection" where
  "respond status content_type response conn =
     conn\<lparr>conn_status := Some status,
          conn_headers := map_emplace_all
            [(''Connection'', ''close''), (''Content-Length'', show_nat (length response)),
             (''Content-Type'', content_type)] [],
          conn_written := conn_written conn @ response\<rparr>"

definition kPrefix :: string where "kPrefix = ''/monitoredResource/''"

definition HandleMonitoredResource :: "serializer \<Rightarrow> MetadataStore \<Rightarrow> handler" where
  "HandleMonitoredResource z store request conn =
     (let id = drop (length kPrefix) (destination request) in
      case LookupResource store id of
        Inr resource \<Rightarrow> respond 200 ''application/json'' (ToString z (ToJSON resource)) conn
      | Inl OutOfRange \<Rightarrow>
          respond 404 ''application/json''
            (ToString z (object [(''status_code'', Some (Number (Fin 404))),
                                 (''error'', Some (String ''Not found''))])) conn)"

text \<open>
  An output string stream constructed with a text starts writing at its beginning: the text is
  overwritten, not extended.
\<close>

definition overwrite :: "string \<Rightarrow> string \<Rightarrow> string" where
  "overwrite initial written = written @ drop (length written) initial"

definition HandleHealthz ::
  "Configuration \<Rightarrow> MetadataStore \<Rightarrow> time_point \<Rightarrow> HealthChecker option \<Rightarrow> handler" where
  "HandleHealthz config store system_time health_checker request conn =
     (let unhealthy = (case health_checker of None \<Rightarrow> [] | Some hc \<Rightarrow> UnhealthyComponents config store system_time hc)
      in if unhealthy = [] then respond 200 ''text/plain'' ''healthy'' conn
         else respond 500 ''text/plain''
           (overwrite (''unhealthy components:'' @ [CHR 0x0A]) (concat (map (\<lambda>c. c @ [CHR 0x0A]) unhealthy))) conn)"

definition api_handlers ::
  "serializer \<Rightarrow> Configuration \<Rightarrow> MetadataStore \<Rightarrow> time_point \<Rightarrow> HealthChecker option
    \<Rightarrow> (string \<times> string, handler) std_map" where
  "api_handlers z config store system_time health_checker =
     map_emplace_all
       [((''GET'', ''/monitoredResource/''), HandleMonitoredResource z store),
        ((''GET'', ''/healthz''), HandleHealthz config store system_time health_checker)] []"

section \<open>Properties\<close>

lemma api_handlers_sorted:
  "api_handlers z config store t hc =
     [((''GET'', ''/healthz''), HandleHealthz config store t hc),
      ((''GET'', ''/monitoredResource/''), HandleMonitoredResource z store)]"
  by (simp add: api_handlers_def map_emplace_all_def less_char_def)

lemma str_find_prefix: "str_find s p 0 = Some 0 \<longleftrightarrow> prefix p s"
  by (simp add: str_simps find_sub_zero_iff)

lemma Dispatcher_api:
  "Dispatcher (api_handlers z config store t hc) request conn =
     (if api_method request \<noteq> ''GET'' then conn
      else if prefix ''/monitoredResource/'' (destination request) then HandleMonitoredResource z store request conn
      else if prefix ''/healthz'' (destination request) then HandleHealthz config store t hc request conn
      else conn)"
proof -
  have "\<not> (prefix ''/monitoredResource/'' d \<and> prefix ''/healthz'' d)" for d
    by (auto simp: prefix_def)
  then show ?thesis by (auto simp: Dispatcher_def api_handlers_sorted str_find_prefix)
qed

text \<open>
  C24.  A GET of a monitored resource is answered from the store: over any history, the answer is the
  JSON of the resource under which the id was first registered, with status 200, or the not-found
  document with status 404; the content length announced is that of the body.
\<close>

theorem monitored_resource_answer:
  "Dispatcher (api_handlers z config (fold store_step ops empty_store) t hc)
       \<lparr>api_method = ''GET'', destination = ''/monitoredResource/'' @ resource_id\<rparr> fresh_connection =
     (let (status, body) =
        (case map_of (concat (map bindings ops)) resource_id of
           Some r \<Rightarrow> (200, ToString z (ToJSON r))
         | None \<Rightarrow> (404, ToString z (Object [(''error'', String ''Not found''), (''status_code'', Number (Fin 404))])))
      in \<lparr>conn_status = Some status,
          conn_headers = [(''Connection'', ''close''), (''Content-Length'', show_nat (length body)),
                          (''Content-Type'', ''application/json'')],
          conn_written = body\<rparr>)"
proof -
  have err: "object [(''status_code'', Some (Number (Fin 404))), (''error'', Some (String ''Not found''))]
      = Object [(''error'', String ''Not found''), (''status_code'', Number (Fin 404))]"
    by (simp add: object_def object_fields_def List.map_filter_simps map_emplace_all_def less_char_def)
  have resp: "respond status ct body fresh_connection =
      \<lparr>conn_status = Some status,
       conn_headers = [(''Connection'', ''close''), (''Content-Length'', show_nat (length body)), (''Content-Type'', ct)],
       conn_written = body\<rparr>" for status ct body
    by (simp add: respond_def fresh_connection_def map_emplace_all_def less_char_def)
  show ?thesis
    using ms.ids_run [of ops resource_id]
    by (simp add: Dispatcher_api HandleMonitoredResource_def kPrefix_def LookupResource_def abs_store_def
        err resp split: option.split)
qed

text \<open>
  The health endpoint answers 200 exactly when no component is unhealthy and 500 otherwise, and the
  body of a failure is the list of the components, one per line: its heading is overwritten as far as
  the list reaches, and survives only where the list is shorter.
\<close>

theorem healthz_answer:
  "let unhealthy = (case hc of None \<Rightarrow> [] | Some h \<Rightarrow> UnhealthyComponents config store t h);
       conn = Dispatcher (api_handlers z config store t hc) \<lparr>api_method = ''GET'', destination = ''/healthz''\<rparr> fresh_connection;
       listing = concat (map (\<lambda>c. c @ [CHR 0x0A]) unhealthy)
   in conn_status conn = Some (if unhealthy = [] then 200 else 500)
    \<and> conn_written conn = (if unhealthy = [] then ''healthy''
         else listing @ drop (length listing) (''unhealthy components:'' @ [CHR 0x0A]))"
  by (simp add: Dispatcher_api HandleHealthz_def respond_def fresh_connection_def overwrite_def Let_def)

text \<open>
  Requests for any other api_method or path are not answered at all: no status, header or body is
  set on the connection.
\<close>

theorem unknown_request_unanswered:
  assumes "api_method request \<noteq> ''GET'' \<or>
    (\<not> prefix ''/monitoredResource/'' (destination request) \<and> \<not> prefix ''/healthz'' (destination request))"
  shows "Dispatcher (api_handlers z config store t hc) request fresh_connection = fresh_connection"
  using assms by (auto simp: Dispatcher_api)

theorem unknown_request_unanswered_witness:
  "Dispatcher (api_handlers (\<lparr>to_double = id, render = (\<lambda>e. [])\<rparr>) (Configuration_new ''1'') empty_store 0 None)
     \<lparr>api_method = ''GET'', destination = ''/''\<rparr> fresh_connection = fresh_connection"
  by (rule unknown_request_unanswered) simp

end
