(* ===== verification/Instance.thy ===== *)
theory Instance
  imports Environment Updater
begin

text \<open>
  The instance updater (\<^verbatim>\<open>src/instance.h\<close>, \<^verbatim>\<open>src/instance.cc\<close>) and what the readers of metadata share:
  the host they run on, the exceptions they throw, and the methods of the environment as methods
  that do not throw.
\<close>

section \<open>Readers\<close>

text \<open>
  The host: the platform, the C library, \<^verbatim>\<open>boost::algorithm::join\<close>, the effect of sleeping, and the
  name of the host.
\<close>

record ('w, 'y) host =
  host_platform :: "('w, 'y) platform"
  host_libc :: libc
  join_strings :: "string list \<Rightarrow> string \<Rightarrow> string"
  sleep_for :: "rat \<Rightarrow> 'w \<Rightarrow> 'w"
  host_name :: string

text \<open>
  The exceptions of a query: the non-retriable subclass and the others of \<^verbatim>\<open>QueryException\<close>, and
  \<^verbatim>\<open>json::Exception\<close>.  \<open>Crashed\<close> is the end of the process: an exception that a specification
  excludes, or the use of a null JSON value.  \<open>OutOfFuel\<close> is not an exception of the program: a
  computation that may run forever stops with it when the bound given to it is used up.
\<close>

datatype reader_exception =
    NonRetriableError string
  | QueryException string
  | JsonException json_exception
  | Crashed
  | OutOfFuel

text \<open>The classes the retries distinguish; the first is a subclass of the second.\<close>

definition is_terminate :: "reader_exception \<Rightarrow> bool" where
  "is_terminate e = (case e of NonRetriableError w \<Rightarrow> True | _ \<Rightarrow> False)"

definition is_query_failure :: "reader_exception \<Rightarrow> bool" where
  "is_query_failure e = (case e of NonRetriableError w \<Rightarrow> True | QueryException w \<Rightarrow> True | _ \<Rightarrow> False)"

type_synonym 'w reader_state = "Environment \<times> 'w"

definition env_get :: "('s \<Rightarrow> string \<times> 's) \<Rightarrow> ('s, 'e, string) meth" where
  "env_get g = (\<lambda>s. case g s of (x, s') \<Rightarrow> (Inr x, s'))"

definition json_call :: "json_exception + 'a \<Rightarrow> ('s, reader_exception, 'a) meth" where
  "json_call r = liftM (case r of Inl e \<Rightarrow> Inl (JsonException e) | Inr x \<Rightarrow> Inr x)"

text \<open>The use of a pointer that must not be null.\<close>

definition deref :: "json option \<Rightarrow> ('s, reader_exception, json) meth" where
  "deref v = (case v of None \<Rightarrow> throwM Crashed | Some x \<Rightarrow> returnM x)"

definition now :: "('w, 'y) host \<Rightarrow> ('w reader_state, 'e, time_point) meth" where
  "now H s = (case system_now (host_platform H) (snd s) of (t, w) \<Rightarrow> (Inr t, fst s, w))"

section \<open>The instance reader\<close>

definition InstanceResource ::
  "('w, 'y) host \<Rightarrow> Configuration \<Rightarrow> ('w reader_state, out_of_range, MonitoredResource) meth" where
  "InstanceResource H config =
     bindM (env_get (InstanceResourceType config)) (\<lambda>type.
     bindM (env_get (InstanceId (host_platform H) config)) (\<lambda>id.
     bindM (env_get (InstanceZone (host_platform H) config)) (\<lambda>zone.
     if id = [] \<or> zone = [] then throwM OutOfRange
     else returnM (make_resource type [(''instance_id'', id), (''zone'', zone)]))))"

definition Instance_MetadataQuery ::
  "('w, 'y) host \<Rightarrow> Configuration \<Rightarrow> ('w reader_state, out_of_range, ResourceMetadata list) meth" where
  "Instance_MetadataQuery H config =
     bindM (InstanceResource H config) (\<lambda>instance_resource.
     bindM (env_get (InstanceId (host_platform H) config)) (\<lambda>id.
     returnM [\<lparr>rm_ids = [[], id], rm_resource = instance_resource, rm_metadata = IGNORED\<rparr>]))"

definition InstanceUpdater_new :: "Configuration \<Rightarrow> PollingMetadataUpdater" where
  "InstanceUpdater_new config = PollingMetadataUpdater_new (of_int (instance_updater_interval_seconds config))"

text \<open>The updater adds nothing to the polling class.\<close>

definition Instance_class :: "(PollingMetadataUpdater \<times> 'w reader_state) updater_class" where
  "Instance_class = polling_subclass (returnM ())"

section \<open>Properties\<close>

lemma json_call_simps [simp]:
  "json_call r s = (Inr x, t) \<longleftrightarrow> r = Inr x \<and> t = s"
  "json_call r s = (Inl e, t) \<longleftrightarrow> (\<exists>j. r = Inl j \<and> e = JsonException j) \<and> t = s"
  by (auto simp: json_call_def liftM_def split: sum.splits)

lemma deref_simps [simp]:
  "deref v s = (Inr x, t) \<longleftrightarrow> v = Some x \<and> t = s"
  "deref v s = (Inl e, t) \<longleftrightarrow> v = None \<and> e = Crashed \<and> t = s"
  by (auto simp: deref_def returnM_def throwM_def split: option.splits)

lemma now_not_Inl [simp]: "now H s \<noteq> (Inl e, t)"
  by (auto simp: now_def split: prod.splits)

lemma env_get_not_Inl [simp]: "env_get g s \<noteq> (Inl e, t)"
  by (auto simp: env_get_def split: prod.splits)

lemma env_get_Inr: "env_get g s = (Inr x, t) \<longleftrightarrow> g s = (x, t)"
  by (auto simp: env_get_def split: prod.splits)

lemma InstanceResource_Inr:
  assumes "InstanceResource H config s = (Inr r, t)"
  obtains type id zone where "r = make_resource type [(''instance_id'', id), (''zone'', zone)]"
    and "id \<noteq> []" and "zone \<noteq> []"
  using assms
  by (fastforce simp: InstanceResource_def meth_simps split: prod.splits sum.splits if_splits)

text \<open>
  The environment keeps a value it has found, so the id of the result is the one in the resource.
\<close>

lemma InstanceZone_keeps_id: "env_instance_id (fst (snd (InstanceZone P config s))) = env_instance_id (fst s)"
  by (auto simp: InstanceZone_def Let_def GetMetadataString_def split: prod.splits sum.splits)

text \<open>
  A successful instance query yields one result: the instance's resource with its id and zone,
  under the empty id and under the instance id, and with metadata that the store ignores.
\<close>

theorem Instance_MetadataQuery_result:
  assumes "Instance_MetadataQuery H config s = (Inr rs, t)"
  shows "\<exists>type id zone. id \<noteq> [] \<and> zone \<noteq> [] \<and>
    rs = [\<lparr>rm_ids = [[], id],
          rm_resource = MonitoredResource type [(''instance_id'', id), (''zone'', zone)],
          rm_metadata = IGNORED\<rparr>]"
proof -
  let ?P = "host_platform H"
  obtain type s1 where s1: "InstanceResourceType config s = (type, s1)" by (metis surj_pair)
  obtain id s2 where s2: "InstanceId ?P config s1 = (id, s2)" by (metis surj_pair)
  obtain zone s3 where s3: "InstanceZone ?P config s2 = (zone, s3)" by (metis surj_pair)
  obtain id' s4 where s4: "InstanceId ?P config s3 = (id', s4)" by (metis surj_pair)
  have ne: "id \<noteq> []" "zone \<noteq> []"
    and rs: "rs = [\<lparr>rm_ids = [[], id'], rm_resource = make_resource type [(''instance_id'', id), (''zone'', zone)],
          rm_metadata = IGNORED\<rparr>]"
    using assms s1 s2 s3 s4
    by (auto simp: Instance_MetadataQuery_def InstanceResource_def meth_simps env_get_def split: if_splits)
  have "env_instance_id (fst s3) = id"
    using instance_id.fill [OF s2] InstanceZone_keeps_id [of ?P config s2] s3 by simp
  then have "id' = id"
    using instance_id.hit [of s3 ?P config] ne s4 by simp
  then show ?thesis
    using rs ne by (auto simp: make_resource_def map_emplace_all_def less_char_def)
qed

text \<open>A host without network, in UTC; joining is the documented concatenation with separators.\<close>

fun join_list :: "string list \<Rightarrow> string \<Rightarrow> string" where
  "join_list [] sep = []"
| "join_list [x] sep = x"
| "join_list (x # y # xs) sep = x @ sep @ join_list (y # xs) sep"

definition offline_host :: "(unit, unit) host" where
  "offline_host = \<lparr>host_platform = offline, host_libc = utc_libc, join_strings = join_list, sleep_for = (\<lambda>d w. w),
     host_name = ''host''\<rparr>"

definition instance_config :: Configuration where
  "instance_config = (Configuration_new ''1'')\<lparr>instance_id := ''i'', instance_zone := ''z'', instance_resource_type := ''t''\<rparr>"

lemma instance_getters:
  "env_instance_resource_type e = [] \<Longrightarrow> InstanceResourceType instance_config (e, w)
     = (''t'', e\<lparr>env_instance_resource_type := ''t''\<rparr>, w)"
  "env_instance_id e = [] \<Longrightarrow> InstanceId P instance_config (e, w) = (''i'', e\<lparr>env_instance_id := ''i''\<rparr>, w)"
  "env_zone e = [] \<Longrightarrow> InstanceZone P instance_config (e, w) = (''z'', e\<lparr>env_zone := ''z''\<rparr>, w)"
  "env_instance_id e = ''i'' \<Longrightarrow> InstanceId P instance_config (e, w) = (''i'', e, w)"
  by (simp_all add: InstanceResourceType_def InstanceId_def InstanceZone_def instance_config_def Let_def)

theorem Instance_MetadataQuery_result_witness:
  "\<exists>rs t. Instance_MetadataQuery offline_host instance_config (Environment_new, ()) = (Inr rs, t)
    \<and> (\<exists>type id zone. id \<noteq> [] \<and> zone \<noteq> [] \<and>
        rs = [\<lparr>rm_ids = [[], id], rm_resource = MonitoredResource type [(''instance_id'', id), (''zone'', zone)],
               rm_metadata = IGNORED\<rparr>])"
proof -
  obtain rs t where q: "Instance_MetadataQuery offline_host instance_config (Environment_new, ()) = (Inr rs, t)"
  proof -
    let ?e1 = "Environment_new\<lparr>env_instance_resource_type := ''t''\<rparr>"
    let ?e2 = "?e1\<lparr>env_instance_id := ''i''\<rparr>"
    let ?e3 = "?e2\<lparr>env_zone := ''z''\<rparr>"
    have "InstanceResourceType instance_config (Environment_new, ()) = (''t'', ?e1, ())"
      "InstanceId (host_platform offline_host) instance_config (?e1, ()) = (''i'', ?e2, ())"
      "InstanceZone (host_platform offline_host) instance_config (?e2, ()) = (''z'', ?e3, ())"
      "InstanceId (host_platform offline_host) instance_config (?e3, ()) = (''i'', ?e3, ())"
      by (rule instance_getters, simp add: Environment_new_def)+
    then have "fst (Instance_MetadataQuery offline_host instance_config (Environment_new, ()))
        = Inr [\<lparr>rm_ids = [[], ''i''], rm_resource = make_resource ''t'' [(''instance_id'', ''i''), (''zone'', ''z'')],
               rm_metadata = IGNORED\<rparr>]"
      by (simp add: Instance_MetadataQuery_def InstanceResource_def meth_simps env_get_def)
    then show ?thesis using that by (metis prod.collapse)
  qed
  from q Instance_MetadataQuery_result [OF q] show ?thesis by blast
qed

end
