(* ===== verification/Docker.thy ===== *)
theory Docker
  imports Instance Util
begin

text \<open>
  The Docker updater (\<^verbatim>\<open>src/docker.h\<close>, \<^verbatim>\<open>src/docker.cc\<close>): queries of the Docker API, the metadata of a
  container, the query of all containers with its error handling, and the validation at start.
  The build defines \<^verbatim>\<open>ENABLE_DOCKER_METADATA\<close>.
\<close>

definition kDockerValidationRetryLimit :: int where "kDockerValidationRetryLimit = 10"

definition kDockerEndpointPath :: string where "kDockerEndpointPath = ''/containers''"

definition kDockerContainerResourcePrefix :: string where "kDockerContainerResourcePrefix = ''container''"

section \<open>Queries\<close>

definition QueryDocker ::
  "('w, 'y) host \<Rightarrow> Configuration \<Rightarrow> string \<Rightarrow> ('w reader_state, reader_exception, json option) meth" where
  "QueryDocker H config path s =
     (let endpoint = docker_endpoint_host config @ ''v'' @ docker_api_version config @ path
      in case http_client (host_platform H)
           \<lparr>req_method = GET, req_url = endpoint, req_headers = [], req_body = []\<rparr> (snd s) of
           (Inl e, w) \<Rightarrow> (Inl (QueryException (endpoint @ '' -> '' @ e)), fst s, w)
         | (Inr response, w) \<Rightarrow>
             if 400 \<le> resp_status response \<and> resp_status response \<le> 403
             then (Inl (NonRetriableError (server_error response)), fst s, w)
             else if 300 \<le> resp_status response
             then (Inl (QueryException (endpoint @ '' -> '' @ server_error response)), fst s, w)
             else json_call (FromString (parser (host_platform H)) (resp_body response)) (fst s, w))"

text \<open>The filter of the configuration as a query parameter.\<close>

definition container_filter :: "Configuration \<Rightarrow> string" where
  "container_filter config =
     (if docker_container_filter config = [] then [] else ''&'' @ docker_container_filter config)"

text \<open>
  \<open>Inl None\<close> is the end of the process: a JSON exception of the query is not among the exceptions the
  validation declares.
\<close>

definition Docker_ValidateDynamicConfiguration ::
  "('w, 'y) host \<Rightarrow> Configuration \<Rightarrow> ('w reader_state, start_error, unit) meth" where
  "Docker_ValidateDynamicConfiguration H config =
     catchM
       (Retry is_terminate is_query_failure kDockerValidationRetryLimit
          (\<lambda>s. (fst s, sleep_for H 1 (snd s)))
          (bindM (QueryDocker H config
             (kDockerEndpointPath @ ''/json?all=true&limit=1'' @ container_filter config)) (\<lambda>_. returnM ())))
       (\<lambda>e. case e of
          NonRetriableError w \<Rightarrow> throwM (Some (ValidationError (''Docker query validation failed: '' @ w)))
        | QueryException w \<Rightarrow>
            throwM (Some (ValidationError (''Docker query validation retry limit reached: '' @ w)))
        | _ \<Rightarrow> throwM None)"

section \<open>Containers\<close>

text \<open>The association and API blobs around the raw description of a container.\<close>

definition docker_raw_metadata :: "Configuration \<Rightarrow> json \<Rightarrow> json \<Rightarrow> json" where
  "docker_raw_metadata config instance_resource raw_container =
     object [(''blobs'', Some (object [
       (''association'', Some (object [
          (''version'', Some (String (metadata_ingestion_raw_content_version config))),
          (''raw'', Some (object [(''infrastructureResource'', Some instance_resource)]))])),
       (''api'', Some (object [
          (''version'', Some (String (docker_api_version config))),
          (''raw'', Some raw_container)]))]))]"

text \<open>
  An instance without information throws \<^verbatim>\<open>std::out_of_range\<close>, which the method does not declare, and
  so does \<^verbatim>\<open>name.substr(1)\<close> of an empty name.
\<close>

definition describe_container ::
  "('w, 'y) host \<Rightarrow> Configuration \<Rightarrow> string \<Rightarrow> string \<Rightarrow> time_point
    \<Rightarrow> ('w reader_state, reader_exception, ResourceMetadata) meth" where
  "describe_container H config zone cid collected =
     bindM (QueryDocker H config (kDockerEndpointPath @ ''/'' @ cid @ ''/json'')) (\<lambda>raw.
     bindM (deref raw) (\<lambda>raw_container.
     bindM (json_call (As_Object raw_container)) (\<lambda>container_desc.
     bindM (json_call (Get_String container_desc ''Name'')) (\<lambda>name.
     bindM (json_call (Get_String container_desc ''Created'')) (\<lambda>created_str.
     bindM (json_call (Get_Object container_desc ''State'')) (\<lambda>state.
     bindM (json_call (Get_Boolean state ''Dead'')) (\<lambda>dead.
     bindM (catchM (InstanceResource H config) (\<lambda>e. throwM Crashed)) (\<lambda>instance_resource.
     if name = [] then throwM Crashed
     else returnM
       \<lparr>rm_ids = [join_strings H [kDockerContainerResourcePrefix, cid] (metadata_api_resource_type_separator config),
                  join_strings H [kDockerContainerResourcePrefix, tl name] (metadata_api_resource_type_separator config)],
        rm_resource = make_resource ''docker_container'' [(''location'', zone), (''container_id'', cid)],
        rm_metadata = make_Metadata (metadata_ingestion_raw_content_version config) dead
          (rfc3339_FromString (host_libc H) created_str) collected
          (docker_raw_metadata config (ToJSON instance_resource) raw_container)\<rparr>))))))))"

definition GetContainerMetadata ::
  "('w, 'y) host \<Rightarrow> Configuration \<Rightarrow> json_object \<Rightarrow> time_point
    \<Rightarrow> ('w reader_state, reader_exception, ResourceMetadata) meth" where
  "GetContainerMetadata H config container collected =
     bindM (env_get (InstanceZone (host_platform H) config)) (\<lambda>zone.
     bindM (json_call (Get_String container ''Id'')) (\<lambda>id.
     catchM (describe_container H config zone id collected) (\<lambda>e.
       if is_query_failure e
       then throwM (JsonException (Explanation (''Container '' @ id @ '' disappeared before we could inspect it'')))
       else throwM e)))"

text \<open>The loop over the containers: a JSON exception drops one container.\<close>

fun container_results ::
  "('w, 'y) host \<Rightarrow> Configuration \<Rightarrow> time_point \<Rightarrow> json list
    \<Rightarrow> ('w reader_state, reader_exception, ResourceMetadata list) meth" where
  "container_results H config collected [] = returnM []"
| "container_results H config collected (raw_container # rest) =
     bindM (catchM
        (bindM (json_call (As_Object raw_container)) (\<lambda>container.
         bindM (GetContainerMetadata H config container collected) (\<lambda>r. returnM [r])))
        (\<lambda>e. case e of JsonException j \<Rightarrow> returnM [] | _ \<Rightarrow> throwM e)) (\<lambda>r.
     bindM (container_results H config collected rest) (\<lambda>rs. returnM (r @ rs)))"

definition Docker_MetadataQuery ::
  "('w, 'y) host \<Rightarrow> Configuration \<Rightarrow> ('w reader_state, reader_exception, ResourceMetadata list) meth" where
  "Docker_MetadataQuery H config =
     bindM (env_get (InstanceZone (host_platform H) config)) (\<lambda>zone.
     catchM
       (bindM (QueryDocker H config (kDockerEndpointPath @ ''/json?all=true'' @ container_filter config)) (\<lambda>parsed.
        bindM (now H) (\<lambda>collected.
        bindM (deref parsed) (\<lambda>parsed_list.
        bindM (json_call (As_Array parsed_list)) (\<lambda>container_list.
        container_results H config collected container_list)))))
       (\<lambda>e. if is_query_failure e then returnM []
            else (case e of JsonException j \<Rightarrow> returnM [] | _ \<Rightarrow> throwM e)))"

definition DockerUpdater_new :: "Configuration \<Rightarrow> PollingMetadataUpdater" where
  "DockerUpdater_new config = PollingMetadataUpdater_new (of_int (docker_updater_interval_seconds config))"

definition Docker_class ::
  "('w, 'y) host \<Rightarrow> Configuration \<Rightarrow> (PollingMetadataUpdater \<times> 'w reader_state) updater_class" where
  "Docker_class H config = polling_subclass (Docker_ValidateDynamicConfiguration H config)"

section \<open>Properties\<close>

text \<open>The handler that drops JSON exceptions.\<close>

lemma drop_json [simp]:
  "(case e of JsonException j \<Rightarrow> returnM [] | _ \<Rightarrow> throwM e) s = (Inr y, t) \<longleftrightarrow>
     (\<exists>j. e = JsonException j) \<and> y = [] \<and> t = s"
  "(case e of JsonException j \<Rightarrow> returnM [] | _ \<Rightarrow> throwM e) s = (Inl e', t) \<longleftrightarrow>
     e' = e \<and> t = s \<and> (\<forall>j. e \<noteq> JsonException j)"
  by (cases e; auto simp: returnM_def throwM_def)+

text \<open>The resource and ids a container gets.\<close>

definition container_result :: "('w, 'y) host \<Rightarrow> Configuration \<Rightarrow> time_point \<Rightarrow> ResourceMetadata \<Rightarrow> bool" where
  "container_result H config collected r \<longleftrightarrow>
     (\<exists>id name zone. rm_resource r = MonitoredResource ''docker_container'' [(''container_id'', id), (''location'', zone)]
       \<and> rm_ids r = [join_strings H [''container'', id] (metadata_api_resource_type_separator config),
                     join_strings H [''container'', name] (metadata_api_resource_type_separator config)]
       \<and> \<not> ignore (rm_metadata r) \<and> collected_at (rm_metadata r) = collected
       \<and> version (rm_metadata r) = metadata_ingestion_raw_content_version config)"

lemma GetContainerMetadata_result:
  assumes "GetContainerMetadata H config container collected s = (Inr r, t)"
  shows "container_result H config collected r"
  using assms
  by (auto simp: GetContainerMetadata_def describe_container_def meth_results throwM_def returnM_def
      container_result_def make_Metadata_def make_resource_def map_emplace_all_def less_char_def
      kDockerContainerResourcePrefix_def split: if_splits)

lemma container_results_all:
  "container_results H config collected cs s = (Inr rs, t) \<Longrightarrow> list_all (container_result H config collected) rs"
proof (induction cs arbitrary: s rs)
  case (Cons c cs)
  then show ?case
    by (auto simp: meth_results returnM_def dest: GetContainerMetadata_result)
qed (simp add: returnM_def)

lemma QueryDocker_error:
  "QueryDocker H config path s = (Inl e, t) \<Longrightarrow> is_query_failure e \<or> (\<exists>j. e = JsonException j)"
  by (auto simp: QueryDocker_def Let_def is_query_failure_def split: prod.splits sum.splits if_splits)

lemma GetContainerMetadata_error:
  assumes "GetContainerMetadata H config container collected s = (Inl e, t)"
  shows "e = Crashed \<or> (\<exists>j. e = JsonException j)"
  using assms
  by (auto simp: GetContainerMetadata_def describe_container_def meth_results throwM_def returnM_def
      dest: QueryDocker_error split: if_splits)

lemma container_results_error:
  "container_results H config collected cs s = (Inl e, t) \<Longrightarrow> e = Crashed"
proof (induction cs arbitrary: s)
  case (Cons c cs)
  then show ?case
    by (auto simp: meth_results returnM_def dest: GetContainerMetadata_error)
qed (simp add: returnM_def)

text \<open>
  A query of the Docker updater ends in one of two ways.  It returns results, each of which is a
  non-ignored entry with the collection time of the query, for the container's resource and under the
  ids made of its id and of its name; failed queries and malformed documents only make containers
  missing.  Or the process ends; no exception reaches the polling loop.
\<close>

theorem Docker_MetadataQuery_outcome:
  assumes "Docker_MetadataQuery H config s = (outcome, t)"
  shows "case outcome of
      Inr rs \<Rightarrow> \<exists>collected. list_all (container_result H config collected) rs
    | Inl e \<Rightarrow> e = Crashed"
proof (cases outcome)
  case (Inr rs)
  with assms show ?thesis
    by (auto simp: Docker_MetadataQuery_def meth_results returnM_def
        dest: container_results_all split: if_splits)
next
  case (Inl e)
  with assms show ?thesis
    by (auto simp: Docker_MetadataQuery_def meth_results returnM_def
        dest: QueryDocker_error container_results_error split: if_splits)
qed

theorem Docker_MetadataQuery_outcome_witness:
  "case fst (Docker_MetadataQuery offline_host instance_config (Environment_new, ())) of
     Inr rs \<Rightarrow> \<exists>collected. list_all (container_result offline_host instance_config collected) rs
   | Inl e \<Rightarrow> e = Crashed"
  by (rule Docker_MetadataQuery_outcome [of _ _ _ _ "snd (Docker_MetadataQuery offline_host instance_config (Environment_new, ()))"])
    simp

end
