(* ===== verification/Kubernetes.thy ===== *)
theory Kubernetes
  imports Instance Util
begin

text \<open>
  The Kubernetes reader (\<^verbatim>\<open>src/kubernetes.h\<close>, \<^verbatim>\<open>src/kubernetes.cc\<close>): secrets of the service account,
  queries of the master, the current node, the memoised owners and the search for the top-level
  controller, the metadata of nodes, pods, containers and the cluster, the service caches, the
  polling query and the validation at start.

  The state of a method is the reader with its caches, the environment and the world.  The search for
  the top-level controller follows references of the cluster and does not end when they form a cycle,
  so it takes a bound on the number of references (\<open>fuel\<close>).
\<close>

section \<open>State\<close>

type_synonym ServiceKey = "string \<times> string"

record KubernetesReader =
  current_node :: string
  kubernetes_api_token :: string
  kubernetes_namespace :: string
  version_to_kind_to_name :: "(string, (string, string) std_map) std_map"
  owners :: "(string, json) std_map"
  service_to_metadata :: "(ServiceKey, json) std_map"
  service_to_pods :: "(ServiceKey, string list) std_map"
  service_account_directory :: string

type_synonym 'w k8s_state = "KubernetesReader \<times> Environment \<times> 'w"

type_synonym ('w, 'a) k8s = "('w k8s_state, reader_exception, 'a) meth"

definition kServiceAccountDirectory :: string where
  "kServiceAccountDirectory = ''/var/run/secrets/kubernetes.io/serviceaccount''"

definition kKubernetesEndpointPath :: string where "kKubernetesEndpointPath = ''/api/v1''"

definition kKubernetesApiVersion :: string where "kKubernetesApiVersion = ''1.6''"

definition kNodeSelectorPrefix :: string where "kNodeSelectorPrefix = ''?fieldSelector=spec.nodeName%3D''"

definition kK8sContainerResourcePrefix :: string where "kK8sContainerResourcePrefix = ''k8s_container''"

definition kK8sPodResourcePrefix :: string where "kK8sPodResourcePrefix = ''k8s_pod''"

definition kK8sNodeResourcePrefix :: string where "kK8sNodeResourcePrefix = ''k8s_node''"

definition kDockerIdPrefix :: string where "kDockerIdPrefix = ''docker://''"

definition kKubernetesValidationRetryLimit :: int where "kKubernetesValidationRetryLimit = 10"

definition KubernetesReader_new :: KubernetesReader where
  "KubernetesReader_new =
     \<lparr>current_node = [], kubernetes_api_token = [], kubernetes_namespace = [], version_to_kind_to_name = [],
      owners = [], service_to_metadata = [], service_to_pods = [],
      service_account_directory = kServiceAccountDirectory\<rparr>"

text \<open>A method of the environment, and a method of the shared readers, in the larger state.\<close>

definition k8s_env :: "(Environment \<times> 'w \<Rightarrow> string \<times> Environment \<times> 'w) \<Rightarrow> ('w, string) k8s" where
  "k8s_env g = (\<lambda>(r, s). case g s of (x, s') \<Rightarrow> (Inr x, r, s'))"

definition k8s_lift :: "('w reader_state, 'e, 'a) meth \<Rightarrow> ('w k8s_state, 'e, 'a) meth" where
  "k8s_lift m = (\<lambda>(r, s). case m s of (x, s') \<Rightarrow> (x, r, s'))"

definition k8s_get :: "(KubernetesReader \<Rightarrow> 'a) \<Rightarrow> ('w, 'a) k8s" where
  "k8s_get f = getM (\<lambda>s. f (fst s))"

definition k8s_modify :: "(KubernetesReader \<Rightarrow> KubernetesReader) \<Rightarrow> ('w, unit) k8s" where
  "k8s_modify f = modifyM (\<lambda>s. (f (fst s), snd s))"

section \<open>Secrets and queries\<close>

definition SecretPath :: "KubernetesReader \<Rightarrow> string \<Rightarrow> string" where
  "SecretPath r secret = service_account_directory r @ ''/'' @ secret"

text \<open>The first line of the file; reading fails without a file and for an empty one.\<close>

definition ReadServiceAccountSecret :: "('w, 'y) host \<Rightarrow> KubernetesReader \<Rightarrow> string \<Rightarrow> string option" where
  "ReadServiceAccountSecret H r secret =
     (case open_file (host_platform H) (SecretPath r secret) of
        None \<Rightarrow> None
      | Some input \<Rightarrow> (case split_lines input of [] \<Rightarrow> None | line # _ \<Rightarrow> Some line))"

definition KubernetesApiToken :: "('w, 'y) host \<Rightarrow> ('w, string) k8s" where
  "KubernetesApiToken H s =
     (let r = fst s in
      if kubernetes_api_token r \<noteq> [] then (Inr (kubernetes_api_token r), s)
      else
        let token = (case ReadServiceAccountSecret H r ''token'' of Some t \<Rightarrow> t | None \<Rightarrow> [])
        in (Inr token, r\<lparr>kubernetes_api_token := token\<rparr>, snd s))"

definition KubernetesNamespace :: "('w, 'y) host \<Rightarrow> ('w, string) k8s" where
  "KubernetesNamespace H s =
     (let r = fst s in
      if kubernetes_namespace r \<noteq> [] then (Inr (kubernetes_namespace r), s)
      else
        let ns = (case ReadServiceAccountSecret H r ''namespace'' of Some n \<Rightarrow> n | None \<Rightarrow> [])
        in (Inr ns, r\<lparr>kubernetes_namespace := ns\<rparr>, snd s))"

text \<open>The response of a query, with the classification of its status.\<close>

definition query_endpoint ::
  "('w, 'y) host \<Rightarrow> string \<Rightarrow> string \<Rightarrow> ('w reader_state, reader_exception, json option) meth" where
  "query_endpoint H endpoint token s =
     (case http_client (host_platform H)
        \<lparr>req_method = GET, req_url = endpoint, req_headers = [(''Authorization'', ''Bearer '' @ token)],
         req_body = []\<rparr> (snd s) of
        (Inl e, w) \<Rightarrow> (Inl (QueryException (endpoint @ '' -> '' @ e)), fst s, w)
      | (Inr response, w) \<Rightarrow>
          if 400 \<le> resp_status response \<and> resp_status response \<le> 403
          then (Inl (NonRetriableError (server_error response)), fst s, w)
          else if 300 \<le> resp_status response
          then (Inl (QueryException (endpoint @ '' -> '' @ server_error response)), fst s, w)
          else json_call (FromString (parser (host_platform H)) (resp_body response)) (fst s, w))"

definition QueryMaster :: "('w, 'y) host \<Rightarrow> Configuration \<Rightarrow> string \<Rightarrow> ('w, json option) k8s" where
  "QueryMaster H config path =
     bindM (KubernetesApiToken H) (\<lambda>token.
     k8s_lift (query_endpoint H (kubernetes_endpoint_host config @ path) token))"

text \<open>The handlers that log a JSON or query exception and go on with a value.\<close>

definition is_logged :: "reader_exception \<Rightarrow> bool" where
  "is_logged e = (is_query_failure e \<or> (case e of JsonException j \<Rightarrow> True | _ \<Rightarrow> False))"

definition or_else :: "('w, 'a) k8s \<Rightarrow> 'a \<Rightarrow> ('w, 'a) k8s" where
  "or_else m x = catchM m (\<lambda>e. if is_logged e then returnM x else throwM e)"

definition CurrentNode :: "('w, 'y) host \<Rightarrow> Configuration \<Rightarrow> ('w, string) k8s" where
  "CurrentNode H config =
     bindM (k8s_get current_node) (\<lambda>node.
     if node \<noteq> [] then returnM node
     else if kubernetes_node_name config \<noteq> [] then
       bindM (k8s_modify (\<lambda>r. r\<lparr>current_node := kubernetes_node_name config\<rparr>)) (\<lambda>_.
       returnM (kubernetes_node_name config))
     else
       bindM (KubernetesNamespace H) (\<lambda>ns.
       bindM (or_else
         (bindM (QueryMaster H config (kKubernetesEndpointPath @ ''/namespaces/'' @ ns @ ''/pods/'' @ host_name H)) (\<lambda>resp.
          bindM (deref resp) (\<lambda>pod_response.
          bindM (json_call (As_Object pod_response)) (\<lambda>pod.
          bindM (json_call (Get_Object pod ''spec'')) (\<lambda>spec.
          bindM (json_call (Get_String spec ''nodeName'')) (\<lambda>name.
          k8s_modify (\<lambda>r. r\<lparr>current_node := name\<rparr>))))))) ()) (\<lambda>_.
       k8s_get current_node)))"

section \<open>Owners\<close>

text \<open>
  The loop over the resources of an API version: it stops at the first malformed one and keeps the
  kinds before it; the first name of a kind stays.
\<close>

fun collect_kinds :: "json list \<Rightarrow> (string, string) std_map \<Rightarrow> (string, string) std_map" where
  "collect_kinds [] kinds = kinds"
| "collect_kinds (element # rest) kinds =
     (case bindE (As_Object element) (\<lambda>resource.
           bindE (Get_String resource ''name'') (\<lambda>name.
           if str_find name ''/'' 0 \<noteq> None then Inr None
           else bindE (Get_String resource ''kind'') (\<lambda>kind. Inr (Some (kind, name))))) of
        Inl e \<Rightarrow> kinds
      | Inr None \<Rightarrow> collect_kinds rest kinds
      | Inr (Some (kind, name)) \<Rightarrow> collect_kinds rest (map_emplace kind name kinds))"

text \<open>
  An unknown kind throws a \<^verbatim>\<open>std::string\<close>, which no caller declares: the process ends.  The kinds of
  a version are remembered even when the query failed.
\<close>

definition KindPath :: "('w, 'y) host \<Rightarrow> Configuration \<Rightarrow> string \<Rightarrow> string \<Rightarrow> ('w, string \<times> string) k8s" where
  "KindPath H config api_version kind =
     (let query_path = (if str_find api_version ''/'' 0 = None then ''/api'' else ''/apis'') @ ''/'' @ api_version
      in bindM (k8s_get (\<lambda>r. map_of (version_to_kind_to_name r) api_version)) (\<lambda>found.
         bindM (case found of
            Some kinds \<Rightarrow> returnM kinds
          | None \<Rightarrow>
              bindM (k8s_modify (\<lambda>r. r\<lparr>version_to_kind_to_name := map_emplace api_version [] (version_to_kind_to_name r)\<rparr>)) (\<lambda>_.
              or_else
                (bindM (QueryMaster H config query_path) (\<lambda>resp.
                 bindM (deref resp) (\<lambda>apilist_response.
                 bindM (json_call (As_Object apilist_response)) (\<lambda>apilist_object.
                 bindM (json_call (Get_Array apilist_object ''resources'')) (\<lambda>api_list.
                 let kinds = collect_kinds api_list []
                 in bindM (k8s_modify (\<lambda>r. r\<lparr>version_to_kind_to_name :=
                        map_assign api_version kinds (version_to_kind_to_name r)\<rparr>)) (\<lambda>_. returnM kinds)))))) [])) (\<lambda>kind_to_name.
         case map_of kind_to_name kind of
           None \<Rightarrow> throwM Crashed
         | Some name \<Rightarrow> returnM (query_path, name))))"

definition GetOwner :: "('w, 'y) host \<Rightarrow> Configuration \<Rightarrow> string \<Rightarrow> json_object \<Rightarrow> ('w, json) k8s" where
  "GetOwner H config ns owner_ref =
     bindM (json_call (Get_String owner_ref ''apiVersion'')) (\<lambda>api_version.
     bindM (json_call (Get_String owner_ref ''kind'')) (\<lambda>kind.
     bindM (json_call (Get_String owner_ref ''name'')) (\<lambda>name.
     bindM (json_call (Get_String owner_ref ''uid'')) (\<lambda>uid.
     let encoded_ref = join_strings H [api_version, kind, uid] ''/''
     in bindM (k8s_get (\<lambda>r. map_of (owners r) encoded_ref)) (\<lambda>found.
        case found of
          Some owner \<Rightarrow> returnM (Clone owner)
        | None \<Rightarrow>
            bindM (KindPath H config api_version kind) (\<lambda>path_component.
            bindM (QueryMaster H config
               (fst path_component @ ''/namespaces/'' @ ns @ ''/'' @ snd path_component @ ''/'' @ name)) (\<lambda>resp.
            bindM (deref resp) (\<lambda>owner.
            bindM (json_call (As_Object owner)) (\<lambda>owner_obj.
            bindM (json_call (Get_Object owner_obj ''metadata'')) (\<lambda>metadata.
            bindM (json_call (Get_String metadata ''uid'')) (\<lambda>owner_uid.
            if owner_uid \<noteq> uid
            then throwM (QueryException (''Owner '' @ kind @ '' '' @ name @ '' (id '' @ uid @ '') disappeared''))
            else
              bindM (k8s_modify (\<lambda>r. r\<lparr>owners := map_emplace encoded_ref owner (owners r)\<rparr>)) (\<lambda>_.
              returnM (Clone owner)))))))))))))"

text \<open>The first reference that is a controller.\<close>

fun find_controller :: "json list \<Rightarrow> json_exception + json_object option" where
  "find_controller [] = Inr None"
| "find_controller (ref # refs) =
     bindE (As_Object ref) (\<lambda>ref_obj.
     bindE (if Has ref_obj ''controller'' then Get_Boolean ref_obj ''controller'' else Inr False) (\<lambda>is_controller.
     if is_controller then Inr (Some ref_obj) else find_controller refs))"

text \<open>The controller reference of an object, if it has one.\<close>

definition controller_ref :: "json \<Rightarrow> json_exception + json_object option" where
  "controller_ref object_json =
     bindE (As_Object object_json) (\<lambda>obj.
     bindE (Get_Object obj ''metadata'') (\<lambda>metadata.
     if \<not> Has metadata ''ownerReferences'' then Inr None
     else bindE (Get_Array metadata ''ownerReferences'') find_controller))"

fun FindTopLevelController ::
  "nat \<Rightarrow> ('w, 'y) host \<Rightarrow> Configuration \<Rightarrow> string \<Rightarrow> json \<Rightarrow> ('w, json) k8s" where
  "FindTopLevelController fuel H config ns object_json =
     bindM (json_call (controller_ref object_json)) (\<lambda>ref.
     case ref of
       None \<Rightarrow> returnM object_json
     | Some controller \<Rightarrow>
         (case fuel of
            0 \<Rightarrow> throwM OutOfFuel
          | Suc n \<Rightarrow>
              bindM (GetOwner H config ns controller) (\<lambda>owner.
              FindTopLevelController n H config ns owner)))"

section \<open>Nodes\<close>

text \<open>The instance resource as JSON; a null pointer when the instance is unknown.\<close>

definition instance_json :: "('w, 'y) host \<Rightarrow> Configuration \<Rightarrow> ('w, json option) k8s" where
  "instance_json H config =
     k8s_lift (catchM (bindM (InstanceResource H config) (\<lambda>r. returnM (Some (ToJSON r)))) (\<lambda>e. returnM None))"

text \<open>A blob of the raw metadata: a version and the raw document.\<close>

definition versioned :: "string \<Rightarrow> json \<Rightarrow> json" where
  "versioned v raw = object [(''version'', Some (String v)), (''raw'', Some raw)]"

definition GetNodeMetadata ::
  "('w, 'y) host \<Rightarrow> Configuration \<Rightarrow> json_object \<Rightarrow> time_point \<Rightarrow> bool \<Rightarrow> ('w, ResourceMetadata) k8s" where
  "GetNodeMetadata H config node collected deleted =
     bindM (k8s_env (KubernetesClusterName (host_platform H) config)) (\<lambda>cluster_name.
     bindM (k8s_env (KubernetesClusterLocation (host_platform H) config)) (\<lambda>location.
     bindM (json_call (Get_Object node ''metadata'')) (\<lambda>metadata.
     bindM (json_call (Get_String metadata ''name'')) (\<lambda>node_name.
     bindM (json_call (Get_String metadata ''creationTimestamp'')) (\<lambda>created_str.
     bindM (instance_json H config) (\<lambda>instance_resource.
     let associations = map_option (\<lambda>r.
           versioned (metadata_ingestion_raw_content_version config)
             (object [(''infrastructureResource'', Some r)])) instance_resource;
         node_raw_metadata = object [(''blobs'', Some (object [
           (''association'', associations),
           (''api'', Some (versioned kKubernetesApiVersion (Clone (Object node))))]))]
     in returnM
       \<lparr>rm_ids = [join_strings H [kK8sNodeResourcePrefix, node_name] (metadata_api_resource_type_separator config)],
        rm_resource = make_resource ''k8s_node''
          [(''cluster_name'', cluster_name), (''node_name'', node_name), (''location'', location)],
        rm_metadata = make_Metadata (metadata_ingestion_raw_content_version config) deleted
          (rfc3339_FromString (host_libc H) created_str) collected node_raw_metadata\<rparr>))))))"

section \<open>Pods and containers\<close>

text \<open>The kind and name of the controller that was found; a controller without a kind is a pod.\<close>

definition controllers_json :: "json_object \<Rightarrow> json \<Rightarrow> json_exception + json" where
  "controllers_json pod_metadata top_level =
     bindE (As_Object top_level) (\<lambda>top_level_controller.
     bindE (Get_Object top_level_controller ''metadata'') (\<lambda>top_level_metadata.
     bindE (Get_String top_level_metadata ''name'') (\<lambda>top_level_name.
     bindE (Get_String pod_metadata ''uid'') (\<lambda>pod_id.
     bindE (if Has top_level_controller ''kind'' then Inr []
            else Get_String top_level_metadata ''uid'') (\<lambda>_.
     bindE (if Has top_level_controller ''kind'' then Get_String top_level_controller ''kind''
            else Inr ''Pod'') (\<lambda>top_level_kind.
     Inr (object [(''topLevelControllerType'', Some (String top_level_kind)),
                  (''topLevelControllerName'', Some (String top_level_name))])))))))"

text \<open>
  The handler of a failed query reads the pod's name for its message, which may throw in turn.
\<close>

definition ComputePodAssociations ::
  "nat \<Rightarrow> ('w, 'y) host \<Rightarrow> Configuration \<Rightarrow> json_object \<Rightarrow> ('w, json option) k8s" where
  "ComputePodAssociations fuel H config pod =
     bindM (json_call (Get_Object pod ''metadata'')) (\<lambda>metadata.
     bindM (json_call (Get_String metadata ''namespace'')) (\<lambda>namespace_name.
     bindM (instance_json H config) (\<lambda>instance_resource.
     bindM (catchM
        (bindM (FindTopLevelController fuel H config namespace_name (Clone (Object pod))) (\<lambda>top_level.
         bindM (json_call (controllers_json metadata top_level)) (\<lambda>c. returnM (Some c))))
        (\<lambda>e. if is_query_failure e
             then bindM (json_call (Get_String metadata ''name'')) (\<lambda>_. returnM None)
             else throwM e)) (\<lambda>controllers.
     bindM (json_call (Get_Object pod ''spec'')) (\<lambda>spec.
     bindM (if Has spec ''nodeName''
            then bindM (json_call (Get_String spec ''nodeName'')) (\<lambda>n. returnM (Some (String n)))
            else returnM None) (\<lambda>node_name.
     let raw_associations = object_fields
           [(''infrastructureResource'', instance_resource), (''controllers'', controllers), (''nodeName'', node_name)]
     in returnM
          (if raw_associations = [] then None
           else Some (versioned (metadata_ingestion_raw_content_version config) (Object raw_associations)))))))))"

definition GetPodMetadata ::
  "('w, 'y) host \<Rightarrow> Configuration \<Rightarrow> json_object \<Rightarrow> json option \<Rightarrow> time_point \<Rightarrow> bool \<Rightarrow> ('w, ResourceMetadata) k8s"
  where
  "GetPodMetadata H config pod associations collected deleted =
     bindM (k8s_env (KubernetesClusterName (host_platform H) config)) (\<lambda>cluster_name.
     bindM (k8s_env (KubernetesClusterLocation (host_platform H) config)) (\<lambda>location.
     bindM (json_call (Get_Object pod ''metadata'')) (\<lambda>metadata.
     bindM (json_call (Get_String metadata ''namespace'')) (\<lambda>namespace_name.
     bindM (json_call (Get_String metadata ''name'')) (\<lambda>pod_name.
     bindM (json_call (Get_String metadata ''uid'')) (\<lambda>pod_id.
     bindM (json_call (Get_String metadata ''creationTimestamp'')) (\<lambda>created_str.
     let pod_raw_metadata = object [(''blobs'', Some (object [
           (''association'', associations),
           (''api'', Some (versioned kKubernetesApiVersion (Clone (Object pod))))]))];
         separator = metadata_api_resource_type_separator config
     in returnM
       \<lparr>rm_ids = [join_strings H [kK8sPodResourcePrefix, pod_id] separator,
                  join_strings H [kK8sPodResourcePrefix, namespace_name, pod_name] separator],
        rm_resource = make_resource ''k8s_pod''
          [(''cluster_name'', cluster_name), (''namespace_name'', namespace_name), (''pod_name'', pod_name),
           (''location'', location)],
        rm_metadata = make_Metadata (metadata_ingestion_raw_content_version config) deleted
          (rfc3339_FromString (host_libc H) created_str) collected pod_raw_metadata\<rparr>)))))))"

text \<open>\<^verbatim>\<open>docker_id.compare(0, n, prefix) != 0\<close> leaves the id as it is.\<close>

definition strip_docker_prefix :: "string \<Rightarrow> string" where
  "strip_docker_prefix docker_id =
     (let docker_prefix_length =
            (if take (length kDockerIdPrefix) docker_id \<noteq> kDockerIdPrefix then 0 else length kDockerIdPrefix)
      in drop docker_prefix_length docker_id)"

definition k8s_GetContainerMetadata ::
  "('w, 'y) host \<Rightarrow> Configuration \<Rightarrow> json_object \<Rightarrow> json_object \<Rightarrow> json_object option \<Rightarrow> json option
    \<Rightarrow> time_point \<Rightarrow> bool \<Rightarrow> ('w, ResourceMetadata) k8s" where
  "k8s_GetContainerMetadata H config pod container_spec container_status associations collected deleted =
     bindM (k8s_env (KubernetesClusterName (host_platform H) config)) (\<lambda>cluster_name.
     bindM (k8s_env (KubernetesClusterLocation (host_platform H) config)) (\<lambda>location.
     bindM (json_call (Get_Object pod ''metadata'')) (\<lambda>metadata.
     bindM (json_call (Get_String metadata ''namespace'')) (\<lambda>namespace_name.
     bindM (json_call (Get_String metadata ''name'')) (\<lambda>pod_name.
     bindM (json_call (Get_String metadata ''uid'')) (\<lambda>pod_id.
     bindM (json_call (Get_String metadata ''creationTimestamp'')) (\<lambda>created_str.
     bindM (if Has metadata ''labels''
            then bindM (json_call (Get_Object metadata ''labels'')) (\<lambda>l. returnM (Some l))
            else returnM None) (\<lambda>labels.
     bindM (json_call (Get_String container_spec ''name'')) (\<lambda>container_name.
     let raw_status = map_option (\<lambda>st. versioned kKubernetesApiVersion (Clone (Object st))) container_status;
         raw_labels = map_option (\<lambda>l. versioned kKubernetesApiVersion (Clone (Object l))) labels;
         container_raw_metadata = object [(''blobs'', Some (object [
           (''association'', associations),
           (''spec'', Some (versioned kKubernetesApiVersion (Clone (Object container_spec)))),
           (''status'', raw_status),
           (''labels'', raw_labels)]))];
         separator = metadata_api_resource_type_separator config;
         k8s_container_pod = join_strings H [kK8sContainerResourcePrefix, pod_id, container_name] separator;
         k8s_container_name =
           join_strings H [kK8sContainerResourcePrefix, namespace_name, pod_name, container_name] separator
     in bindM (case container_status of
            None \<Rightarrow> returnM []
          | Some st \<Rightarrow>
              if Has st ''containerID''
              then bindM (json_call (Get_String st ''containerID'')) (\<lambda>docker_id.
                   returnM [join_strings H [kK8sContainerResourcePrefix, strip_docker_prefix docker_id] separator])
              else returnM []) (\<lambda>container_ids.
        returnM
          \<lparr>rm_ids = [k8s_container_pod, k8s_container_name] @ container_ids,
           rm_resource = make_resource ''k8s_container''
             [(''cluster_name'', cluster_name), (''namespace_name'', namespace_name), (''pod_name'', pod_name),
              (''container_name'', container_name), (''location'', location)],
           rm_metadata = make_Metadata kKubernetesApiVersion deleted
             (rfc3339_FromString (host_libc H) created_str) collected container_raw_metadata\<rparr>))))))))))"

text \<open>The statuses by container name; the first status of a name stays.\<close>

definition status_by_name :: "json list \<Rightarrow> json_exception + (string, json_object) std_map" where
  "status_by_name container_statuses =
     foldE (\<lambda>c_status statuses.
         bindE (As_Object c_status) (\<lambda>container_status.
         bindE (Get_String container_status ''name'') (\<lambda>name.
         Inr (map_emplace name container_status statuses))))
       container_statuses []"

definition GetPodAndContainerMetadata ::
  "nat \<Rightarrow> ('w, 'y) host \<Rightarrow> Configuration \<Rightarrow> json_object \<Rightarrow> time_point \<Rightarrow> bool \<Rightarrow> ('w, ResourceMetadata list) k8s"
  where
  "GetPodAndContainerMetadata fuel H config pod collected deleted =
     bindM (ComputePodAssociations fuel H config pod) (\<lambda>associations.
     bindM (json_call (Get_Object pod ''metadata'')) (\<lambda>metadata.
     bindM (json_call (Get_String metadata ''name'')) (\<lambda>pod_name.
     bindM (json_call (Get_String metadata ''uid'')) (\<lambda>pod_id.
     bindM (json_call (Get_Object pod ''spec'')) (\<lambda>spec.
     bindM (json_call (Get_Object pod ''status'')) (\<lambda>status.
     bindM (json_call (Get_Array spec ''containers'')) (\<lambda>container_specs.
     bindM (json_call (if Has status ''containerStatuses''
        then bindE (Get_Array status ''containerStatuses'') status_by_name else Inr [])) (\<lambda>container_status_by_name.
     bindM (mapM (\<lambda>c_spec.
        bindM (json_call (As_Object c_spec)) (\<lambda>container_spec.
        bindM (json_call (Get_String container_spec ''name'')) (\<lambda>name.
        k8s_GetContainerMetadata H config pod container_spec (map_of container_status_by_name name)
          (Clone_ptr associations) collected deleted))) container_specs) (\<lambda>containers.
     bindM (GetPodMetadata H config pod associations collected deleted) (\<lambda>pod_metadata.
     returnM (containers @ [pod_metadata])))))))))))"

section \<open>The invariant of the reader\<close>

text \<open>
  The caches are maps, and every JSON value in them is well-formed.  The methods keep this whatever
  the master answers, because the parser only delivers well-formed values.
\<close>

definition reader_ok :: "KubernetesReader \<Rightarrow> bool" where
  "reader_ok r \<longleftrightarrow> map_ok (version_to_kind_to_name r) \<and> list_all (\<lambda>kv. map_ok (snd kv)) (version_to_kind_to_name r)
     \<and> map_ok (owners r) \<and> list_all (\<lambda>kv. json_ok (snd kv)) (owners r)
     \<and> map_ok (service_to_metadata r) \<and> list_all (\<lambda>kv. json_ok (snd kv)) (service_to_metadata r)
     \<and> map_ok (service_to_pods r)"

abbreviation k8s_ok :: "'w k8s_state \<Rightarrow> bool" where
  "k8s_ok s \<equiv> reader_ok (fst s)"

lemma list_all_map_emplace: "list_all P m \<Longrightarrow> P (k, v) \<Longrightarrow> list_all P (map_emplace k v m)"
  by (induction k v m rule: map_emplace.induct) auto

lemma list_all_map_assign: "list_all P m \<Longrightarrow> P (k, v) \<Longrightarrow> list_all P (map_assign k v m)"
  by (induction k v m rule: map_assign.induct) auto

lemma list_all_map_erase: "list_all P m \<Longrightarrow> list_all P (map_erase k m)"
  by (induction k m rule: map_erase.induct) auto

lemmas list_all_maps = list_all_map_emplace list_all_map_assign list_all_map_erase

lemma json_call_keeps [keeps_rules]: "keeps I (json_call r)"
  by (simp add: keeps_def json_call_def liftM_def)

lemma deref_keeps [keeps_rules]: "keeps I (deref v)"
  by (simp add: keeps_def deref_def meth_simps split: option.split)

lemma or_else_keeps [keeps_rules]: "keeps I m \<Longrightarrow> keeps I (or_else m x)"
  unfolding or_else_def by (intro keeps_rules)

lemma collect_kinds_ok: "map_ok kinds \<Longrightarrow> map_ok (collect_kinds es kinds)"
  by (induction es kinds rule: collect_kinds.induct)
    (auto simp: wf_intros split: sum.split option.split)

text \<open>The values a query returns.\<close>

lemma FromString_ok: "FromString Y input = Inr (Some v) \<Longrightarrow> json_ok v"
  using AllFromStream_ok [of Y input]
  by (auto simp: FromString_def FromStream_def bindE_eq_Inr_iff list_all_iff split: if_splits)

lemma query_endpoint_ok: "query_endpoint H endpoint token s = (Inr (Some v), t) \<Longrightarrow> json_ok v"
  by (auto simp: query_endpoint_def dest: FromString_ok split: prod.splits sum.splits if_splits)

lemma k8s_lift_eq: "k8s_lift m s = (x, t) \<longleftrightarrow> m (snd s) = (x, snd t) \<and> fst t = fst s"
  by (cases s; cases t) (auto simp: k8s_lift_def split: prod.splits)

lemma QueryMaster_ok: "QueryMaster H config path s = (Inr (Some v), t) \<Longrightarrow> json_ok v"
  by (auto simp: QueryMaster_def meth_results k8s_lift_eq dest: query_endpoint_ok)

text \<open>
  A property of the reader that the single changes of its members keep is kept by every operation,
  whatever it does to the environment and the outside world, and also when it throws.  The first locale is
  for the operations that leave the owners and the services alone.
\<close>

locale reader_frame =
  fixes R :: "KubernetesReader \<Rightarrow> bool"
  assumes members:
      "R r \<Longrightarrow> R (r\<lparr>current_node := n\<rparr>)"
      "R r \<Longrightarrow> R (r\<lparr>kubernetes_api_token := n\<rparr>)"
      "R r \<Longrightarrow> R (r\<lparr>kubernetes_namespace := n\<rparr>)"
    and kinds:
      "R r \<Longrightarrow> R (r\<lparr>version_to_kind_to_name := map_emplace api_version [] (version_to_kind_to_name r)\<rparr>)"
      "R r \<Longrightarrow> map_ok ks \<Longrightarrow> (\<exists>r'. R r' \<and> map_of (version_to_kind_to_name r') api_version = None) \<Longrightarrow>
        R (r\<lparr>version_to_kind_to_name := map_assign api_version ks (version_to_kind_to_name r)\<rparr>)"
begin

lemma k8s_keeps [keeps_rules]:
  "keeps (\<lambda>s. R (fst s)) (k8s_env g)" "keeps (\<lambda>s. R (fst s)) (k8s_lift m)" "keeps (\<lambda>s. R (fst s)) (k8s_get f)"
  by (auto simp: keeps_def k8s_env_def k8s_lift_def k8s_get_def getM_def split: prod.splits)

lemma k8s_modify_keeps [keeps_rules]: "(\<And>r. R r \<Longrightarrow> R (f r)) \<Longrightarrow> keeps (\<lambda>s. R (fst s)) (k8s_modify f)"
  by (auto simp: keeps_def k8s_modify_def modifyM_def)

lemma secrets_keep [keeps_rules]:
  "keeps (\<lambda>s. R (fst s)) (KubernetesApiToken H)" "keeps (\<lambda>s. R (fst s)) (KubernetesNamespace H)"
  by (auto simp: keeps_def KubernetesApiToken_def KubernetesNamespace_def Let_def members)

lemma QueryMaster_keeps [keeps_rules]: "keeps (\<lambda>s. R (fst s)) (QueryMaster H config path)"
  unfolding QueryMaster_def by (intro keeps_rules)

lemma CurrentNode_keeps [keeps_rules]: "keeps (\<lambda>s. R (fst s)) (CurrentNode H config)"
  unfolding CurrentNode_def by (intro keeps_rules members) simp_all

lemma KindPath_keeps [keeps_rules]: "keeps (\<lambda>s. R (fst s)) (KindPath H config api_version kind)"
  unfolding KindPath_def Let_def
  apply (rule keeps_bind_state [OF k8s_keeps(3)])
  subgoal for found s t
    by (cases found)
      (auto intro!: keeps_rules kinds collect_kinds_ok intro: exI [of _ "fst s"] simp: k8s_get_def getM_def)
  done

lemma instance_json_keeps [keeps_rules]: "keeps (\<lambda>s. R (fst s)) (instance_json H config)"
  unfolding instance_json_def by (intro keeps_rules)

lemma GetNodeMetadata_keeps [keeps_rules]:
  "keeps (\<lambda>s. R (fst s)) (GetNodeMetadata H config node collected deleted)"
  unfolding GetNodeMetadata_def Let_def by (intro keeps_rules)

end

locale reader_invariant = reader_frame +
  assumes owner: "R r \<Longrightarrow> json_ok v \<Longrightarrow> R (r\<lparr>owners := map_emplace ref v (owners r)\<rparr>)"
    and service:
      "R r \<Longrightarrow> json_ok v \<Longrightarrow> R (r\<lparr>service_to_metadata := map_assign key v (service_to_metadata r)\<rparr>)"
      "R r \<Longrightarrow> R (r\<lparr>service_to_metadata := map_erase key (service_to_metadata r)\<rparr>)"
      "R r \<Longrightarrow> R (r\<lparr>service_to_pods := map_assign key pods (service_to_pods r)\<rparr>)"
      "R r \<Longrightarrow> R (r\<lparr>service_to_pods := map_erase key (service_to_pods r)\<rparr>)"
begin

lemma GetOwner_keeps [keeps_rules]: "keeps (\<lambda>s. R (fst s)) (GetOwner H config ns ref)"
  unfolding GetOwner_def Let_def
  by (intro keeps_bind_result keeps_if keeps_option keeps_basic json_call_keeps deref_keeps k8s_keeps
      QueryMaster_keeps KindPath_keeps k8s_modify_keeps)
    (metis QueryMaster_ok deref_simps(1) owner)

lemma FindTopLevelController_keeps [keeps_rules]:
  "keeps (\<lambda>s. R (fst s)) (FindTopLevelController fuel H config ns v)"
proof (induction fuel arbitrary: v)
  case 0
  show ?case by (subst FindTopLevelController.simps) (auto intro!: keeps_rules)
next
  case (Suc n)
  show ?case by (subst FindTopLevelController.simps) (auto intro!: keeps_rules Suc.IH)
qed

lemma ComputePodAssociations_keeps [keeps_rules]:
  "keeps (\<lambda>s. R (fst s)) (ComputePodAssociations fuel H config pod)"
  unfolding ComputePodAssociations_def Let_def by (intro keeps_rules)

lemma GetPodMetadata_keeps [keeps_rules]:
  "keeps (\<lambda>s. R (fst s)) (GetPodMetadata H config pod assoc collected deleted)"
  unfolding GetPodMetadata_def Let_def by (intro keeps_rules)

lemma GetContainerMetadata_keeps [keeps_rules]:
  "keeps (\<lambda>s. R (fst s)) (k8s_GetContainerMetadata H config pod spec status assoc collected deleted)"
  unfolding k8s_GetContainerMetadata_def Let_def by (intro keeps_rules)

lemma GetPodAndContainerMetadata_keeps [keeps_rules]:
  "keeps (\<lambda>s. R (fst s)) (GetPodAndContainerMetadata fuel H config pod collected deleted)"
  unfolding GetPodAndContainerMetadata_def by (intro keeps_rules)

end

interpretation k8s: reader_invariant reader_ok
  by unfold_locales (simp_all add: reader_ok_def wf_intros list_all_maps)

section \<open>The search for the top-level controller\<close>

declare FindTopLevelController.simps [simp del]

lemma FindTopLevelController_cases:
  "FindTopLevelController fuel H config ns v s =
     (case controller_ref v of
        Inl e \<Rightarrow> (Inl (JsonException e), s)
      | Inr None \<Rightarrow> (Inr v, s)
      | Inr (Some ref) \<Rightarrow>
          (case fuel of
             0 \<Rightarrow> (Inl OutOfFuel, s)
           | Suc n \<Rightarrow>
               (case GetOwner H config ns ref s of
                  (Inl e, t) \<Rightarrow> (Inl e, t)
                | (Inr owner, t) \<Rightarrow> FindTopLevelController n H config ns owner t)))"
  by (subst FindTopLevelController.simps)
    (auto simp: meth_simps json_call_def split: sum.split option.split nat.split)

text \<open>Exceptions of the parts.  The handlers that log let only the end of the process through.\<close>

definition is_fatal :: "reader_exception \<Rightarrow> bool" where
  "is_fatal e \<longleftrightarrow> e = Crashed \<or> e = OutOfFuel"

definition is_json :: "reader_exception \<Rightarrow> bool" where
  "is_json e = (case e of JsonException j \<Rightarrow> True | _ \<Rightarrow> False)"

lemma exception_classes:
  "\<not> is_logged e \<longleftrightarrow> is_fatal e" "is_logged e \<longleftrightarrow> is_query_failure e \<or> is_json e"
  by (cases e; simp add: is_logged_def is_fatal_def is_query_failure_def is_json_def)+

lemma json_call_throws [throws_rules]: "(\<And>j. X (JsonException j)) \<Longrightarrow> throws X (json_call r)"
  by (auto simp: throws_def)

lemma deref_throws [throws_rules]: "X Crashed \<Longrightarrow> throws X (deref v)"
  by (auto simp: throws_def)

lemma k8s_throws [throws_rules]:
  "throws X (k8s_env g)" "throws X (k8s_get f)" "throws X (k8s_modify u)"
  by (auto simp: throws_def k8s_env_def k8s_get_def k8s_modify_def meth_simps split: prod.splits)

lemma k8s_lift_throws [throws_rules]: "throws X m \<Longrightarrow> throws X (k8s_lift m)"
  by (force simp: throws_def k8s_lift_eq)

lemma now_throws [throws_rules]: "throws X (now H)"
  by (simp add: throws_def)

lemma or_else_throws [throws_rules]: "(\<And>e. is_fatal e \<Longrightarrow> X e) \<Longrightarrow> throws X (or_else m x)"
  by (auto simp: throws_def or_else_def meth_results returnM_def throwM_def exception_classes(1) [symmetric]
      split: if_splits)

lemma secrets_throw [throws_rules]:
  "throws X (KubernetesApiToken H)" "throws X (KubernetesNamespace H)"
  by (auto simp: throws_def KubernetesApiToken_def KubernetesNamespace_def Let_def split: if_splits)

lemma query_endpoint_throws: "throws is_logged (query_endpoint H endpoint token)"
  by (auto simp: throws_def query_endpoint_def is_logged_def is_query_failure_def
      split: prod.splits sum.splits if_splits)

lemma QueryMaster_throws [throws_rules]:
  "(\<And>e. is_logged e \<Longrightarrow> X e) \<Longrightarrow> throws X (QueryMaster H config path)"
  unfolding QueryMaster_def
  by (intro throws_rules throws_mono [OF query_endpoint_throws])

lemma CurrentNode_throws [throws_rules]: "(\<And>e. is_fatal e \<Longrightarrow> X e) \<Longrightarrow> throws X (CurrentNode H config)"
  unfolding CurrentNode_def by (intro throws_rules)

lemma or_else_throws_some:
  "throws Y m \<Longrightarrow> (\<And>e. Y e \<Longrightarrow> is_fatal e \<Longrightarrow> X e) \<Longrightarrow> throws X (or_else m x)"
  unfolding or_else_def exception_classes(1) [symmetric]
  by (rule throws_catch [of Y]) (auto intro!: throws_rules)

text \<open>An unknown kind ends the process, and nothing else leaves the lookup of a kind.\<close>

lemma KindPath_throws: "throws (\<lambda>e. e = Crashed) (KindPath H config api_version kind)"
  unfolding KindPath_def Let_def
  by (intro throws_bind throws_option throws_basic k8s_throws throws_throw refl
      or_else_throws_some [where Y = "\<lambda>e. is_logged e \<or> e = Crashed"]
      QueryMaster_throws deref_throws json_call_throws)
    (auto simp: exception_classes is_json_def is_fatal_def is_query_failure_def)

lemma GetOwner_throws: "throws (\<lambda>e. e \<noteq> OutOfFuel) (GetOwner H config ns ref)"
  unfolding GetOwner_def Let_def
  by (intro throws_bind throws_if throws_option throws_basic k8s_throws throws_throw
      QueryMaster_throws deref_throws json_call_throws throws_mono [OF KindPath_throws])
    (auto simp: exception_classes is_fatal_def is_json_def is_query_failure_def)

text \<open>
  The bound.  \<open>rank\<close> is any measure that decreases along the references the master serves while the
  reader is in states of \<open>I\<close>; such a measure exists exactly when no chain of controllers is infinite.
\<close>

lemma FindTopLevelController_bound:
  assumes smaller: "\<And>v ref s owner t. I s \<Longrightarrow> controller_ref v = Inr (Some ref) \<Longrightarrow>
      GetOwner H config ns ref s = (Inr owner, t) \<Longrightarrow> rank owner < rank v \<and> I t"
    and "I s" and "rank v < fuel"
  shows "fst (FindTopLevelController fuel H config ns v s) \<noteq> Inl OutOfFuel
    \<and> (\<forall>extra. FindTopLevelController (fuel + extra) H config ns v s = FindTopLevelController fuel H config ns v s)"
  using assms(2,3)
proof (induction fuel arbitrary: v s)
  case (Suc n)
  consider (err) e where "controller_ref v = Inl e" | (top) "controller_ref v = Inr None"
    | (ref) ref where "controller_ref v = Inr (Some ref)"
    by (metis (no_types) old.sum.exhaust option.exhaust)
  then show ?case
  proof cases
    case (ref ref)
    obtain x t where own: "GetOwner H config ns ref s = (x, t)" by (metis surj_pair)
    show ?thesis
    proof (cases x)
      case (Inl e)
      then show ?thesis
        using ref own throwsD [OF GetOwner_throws own [unfolded Inl]]
        by (simp add: FindTopLevelController_cases [of _ H config ns v])
    next
      case (Inr owner)
      with smaller [OF Suc.prems(1) ref] own have "rank owner < rank v" "I t" by blast+
      with Suc.IH [of t owner] Suc.prems(2) show ?thesis
        using ref own Inr by (simp add: FindTopLevelController_cases [of _ H config ns v])
    qed
  qed (simp_all add: FindTopLevelController_cases [of _ H config ns v])
qed simp

text \<open>
  The specification: a chain of owners, each the one that the controller reference of the previous
  object leads to, with the states of the reader in between.
\<close>

inductive owner_chain ::
  "('w, 'y) host \<Rightarrow> Configuration \<Rightarrow> string \<Rightarrow> json \<Rightarrow> 'w k8s_state \<Rightarrow> json \<Rightarrow> 'w k8s_state \<Rightarrow> bool"
  for H config ns where
  chain_end: "owner_chain H config ns v s v s"
| chain_step: "controller_ref v = Inr (Some ref) \<Longrightarrow> GetOwner H config ns ref s = (Inr owner, t) \<Longrightarrow>
    owner_chain H config ns owner t found u \<Longrightarrow> owner_chain H config ns v s found u"

inductive_simps owner_chain_simps: "owner_chain H config ns v s found u"

lemma FindTopLevelController_chain:
  "FindTopLevelController fuel H config ns v s = (Inr found, t) \<Longrightarrow>
     owner_chain H config ns v s found t \<and> controller_ref found = Inr None"
proof (induction fuel arbitrary: v s)
  case 0
  then show ?case
    by (auto simp: FindTopLevelController_cases [of 0] intro: owner_chain.intros split: sum.splits option.splits)
next
  case (Suc n)
  then show ?case
    by (fastforce simp: FindTopLevelController_cases [of "Suc n"] intro: owner_chain.intros
        split: sum.splits option.splits prod.splits)
qed

lemma owner_chain_found:
  assumes "owner_chain H config ns v s found t" and "controller_ref found = Inr None"
  shows "\<exists>fuel. FindTopLevelController fuel H config ns v s = (Inr found, t)"
  using assms
proof (induction rule: owner_chain.induct)
  case (chain_end v s)
  then show ?case by (simp add: FindTopLevelController_cases [of _ H config ns v])
next
  case (chain_step v ref s owner t found u)
  then obtain fuel where "FindTopLevelController fuel H config ns owner t = (Inr found, u)" by blast
  with chain_step.hyps have "FindTopLevelController (Suc fuel) H config ns v s = (Inr found, u)"
    by (simp add: FindTopLevelController_cases [of _ H config ns v])
  then show ?case by blast
qed

lemma FindTopLevelController_more:
  "FindTopLevelController fuel H config ns v s = (Inr found, t) \<Longrightarrow>
     FindTopLevelController (fuel + extra) H config ns v s = (Inr found, t)"
proof (induction fuel arbitrary: v s)
  case 0
  then show ?case
    by (auto simp: FindTopLevelController_cases [of _ H config ns v] split: sum.splits option.splits)
next
  case (Suc n)
  then show ?case
    by (auto simp: FindTopLevelController_cases [of _ H config ns v] split: sum.splits option.splits prod.splits)
qed

text \<open>
  C9.  The search for the top-level controller.  When the owner references the master serves do not
  form an infinite chain (some measure decreases along them), a bound of one more than the measure of
  the object is enough: the search ends, a larger bound gives the same outcome, and it returns exactly
  the object without a controller that the chain of owners leads to.
\<close>

theorem FindTopLevelController_correct:
  assumes smaller: "\<And>v ref s owner t. I s \<Longrightarrow> controller_ref v = Inr (Some ref) \<Longrightarrow>
      GetOwner H config ns ref s = (Inr owner, t) \<Longrightarrow> rank owner < rank v \<and> I t"
    and "I s"
  shows "fst (FindTopLevelController (Suc (rank v)) H config ns v s) \<noteq> Inl OutOfFuel
    \<and> (\<forall>extra. FindTopLevelController (Suc (rank v) + extra) H config ns v s
          = FindTopLevelController (Suc (rank v)) H config ns v s)
    \<and> (\<forall>found t. FindTopLevelController (Suc (rank v)) H config ns v s = (Inr found, t) \<longleftrightarrow>
          owner_chain H config ns v s found t \<and> controller_ref found = Inr None)"
proof -
  let ?f = "\<lambda>n. FindTopLevelController n H config ns v s"
  have bound: "fst (?f (Suc (rank v))) \<noteq> Inl OutOfFuel"
    and extra: "?f (Suc (rank v) + extra) = ?f (Suc (rank v))" for extra
    using FindTopLevelController_bound [of I H config ns rank s v "Suc (rank v)"] assms by blast+
  have "?f (Suc (rank v)) = (Inr found, t)"
    if "owner_chain H config ns v s found t" "controller_ref found = Inr None" for found t
  proof -
    from owner_chain_found [OF that] obtain fuel where "?f fuel = (Inr found, t)" by blast
    then have "?f (fuel + Suc (rank v)) = (Inr found, t)" by (rule FindTopLevelController_more)
    with extra [of fuel] show ?thesis by (simp add: add.commute)
  qed
  with bound extra FindTopLevelController_chain show ?thesis by blast
qed

text \<open>A replica set in the cache, and a pod it controls.\<close>

definition sample_owner :: json where
  "sample_owner = Object [(''kind'', String ''ReplicaSet''),
     (''metadata'', Object [(''name'', String ''rs''), (''uid'', String ''u'')])]"

definition sample_pod :: json where
  "sample_pod = Object [(''metadata'', Object [(''ownerReferences'', Array [Object
     [(''apiVersion'', String ''v1''), (''controller'', Boolean True), (''kind'', String ''ReplicaSet''),
      (''name'', String ''rs''), (''uid'', String ''u'')]])])]"

definition sample_reader :: KubernetesReader where
  "sample_reader = KubernetesReader_new\<lparr>owners := [(''v1/ReplicaSet/u'', sample_owner)]\<rparr>"

lemma offline_QueryMaster: "QueryMaster offline_host config path s \<noteq> (Inr v, t)"
  by (auto simp: QueryMaster_def meth_results k8s_lift_eq query_endpoint_def offline_host_def offline_def)

lemma offline_GetOwner:
  assumes "GetOwner offline_host config ns ref s = (Inr owner, t)" and "owners (fst s) = [(k, v)]"
  shows "owner = Clone v \<and> t = s"
  using assms
  by (auto simp: GetOwner_def Let_def meth_results returnM_def k8s_get_def getM_def offline_QueryMaster
      split: option.splits if_splits)

lemma sample_controllers:
  "controller_ref (Clone sample_owner) = Inr None"
  "\<exists>ref. controller_ref sample_pod = Inr (Some ref)"
  by (simp_all add: controller_ref_def sample_owner_def sample_pod_def As_Object_def As_def Is_def Get_Object_def
      Get_Array_def GetField_def Has_def Get_Boolean_def map_emplace_all_def less_char_def)

theorem FindTopLevelController_correct_witness:
  "fst (FindTopLevelController 2 offline_host instance_config ''default'' sample_pod (sample_reader, Environment_new, ()))
     \<noteq> Inl OutOfFuel
   \<and> (\<forall>found t. FindTopLevelController 2 offline_host instance_config ''default'' sample_pod
          (sample_reader, Environment_new, ()) = (Inr found, t) \<longleftrightarrow>
        owner_chain offline_host instance_config ''default'' sample_pod (sample_reader, Environment_new, ()) found t
        \<and> controller_ref found = Inr None)"
proof -
  let ?rank = "\<lambda>v. if controller_ref v = Inr None then 0 else 1 :: nat"
  let ?I = "\<lambda>s :: unit k8s_state. owners (fst s) = [(''v1/ReplicaSet/u'', sample_owner)]"
  let ?s = "(sample_reader, Environment_new, ())" and ?find = "\<lambda>n. FindTopLevelController n offline_host instance_config ''default'' sample_pod"
  have "fst (?find (Suc (?rank sample_pod)) ?s) \<noteq> Inl OutOfFuel
    \<and> (\<forall>extra. ?find (Suc (?rank sample_pod) + extra) ?s = ?find (Suc (?rank sample_pod)) ?s)
    \<and> (\<forall>found t. ?find (Suc (?rank sample_pod)) ?s = (Inr found, t) \<longleftrightarrow>
          owner_chain offline_host instance_config ''default'' sample_pod ?s found t \<and> controller_ref found = Inr None)"
  proof (rule FindTopLevelController_correct [of ?I])
    fix v ref s owner t
    assume s: "?I s" "controller_ref v = Inr (Some ref)"
      and owner: "GetOwner offline_host instance_config ''default'' ref s = (Inr owner, t)"
    from offline_GetOwner [OF owner s(1)] s sample_controllers(1)
    show "?rank owner < ?rank v \<and> ?I t" by simp
  qed (simp add: sample_reader_def)
  moreover have "Suc (?rank sample_pod) = 2" using sample_controllers(2) by auto
  ultimately show ?thesis by simp
qed


section \<open>Exceptions of the metadata methods\<close>

text \<open>
  The methods that describe objects declare \<^verbatim>\<open>throw(json::Exception)\<close>: no failed query leaves them.
\<close>

definition is_declared :: "reader_exception \<Rightarrow> bool" where
  "is_declared e \<longleftrightarrow> is_json e \<or> is_fatal e"

lemma is_declared_intros [simp]: "is_declared (JsonException j)" "is_declared Crashed" "is_fatal e \<Longrightarrow> is_declared e"
  by (simp_all add: is_declared_def is_json_def is_fatal_def)

lemma instance_json_throws [throws_rules]: "throws X (instance_json H config)"
  unfolding instance_json_def by (intro throws_rules throws_catch [OF throws_any])

lemma GetNodeMetadata_throws [throws_rules]: "throws is_declared (GetNodeMetadata H config node collected deleted)"
  unfolding GetNodeMetadata_def Let_def by (intro throws_rules) simp_all

lemma ComputePodAssociations_throws [throws_rules]: "throws is_declared (ComputePodAssociations fuel H config pod)"
  unfolding ComputePodAssociations_def Let_def
  by (intro throws_rules throws_catch [OF throws_any])
    (simp_all, metis exception_classes is_declared_def)

lemma GetPodMetadata_throws [throws_rules]:
  "throws is_declared (GetPodMetadata H config pod assoc collected deleted)"
  unfolding GetPodMetadata_def Let_def by (intro throws_rules) simp_all

lemma GetContainerMetadata_throws [throws_rules]:
  "throws is_declared (k8s_GetContainerMetadata H config pod spec status assoc collected deleted)"
  unfolding k8s_GetContainerMetadata_def Let_def by (intro throws_rules) simp_all

lemma GetPodAndContainerMetadata_throws [throws_rules]:
  "throws is_declared (GetPodAndContainerMetadata fuel H config pod collected deleted)"
  unfolding GetPodAndContainerMetadata_def by (intro throws_rules) simp_all

section \<open>What a pod yields\<close>

lemma mapM_result:
  "mapM f xs s = (Inr ys, t) \<Longrightarrow> list_all2 (\<lambda>x y. \<exists>s t. f x s = (Inr y, t)) xs ys"
proof (induction xs arbitrary: s ys)
  case (Cons x xs)
  then show ?case
    by (force simp: meth_results returnM_def)
qed (simp add: returnM_def)

text \<open>The namespace, name and id of a pod, and the statuses of its containers.\<close>

definition pod_field :: "json_object \<Rightarrow> string \<Rightarrow> string \<Rightarrow> bool" where
  "pod_field pod f x \<longleftrightarrow> (\<exists>md. Get_Object pod ''metadata'' = Inr md \<and> Get_String md f = Inr x)"

definition pod_statuses :: "json_object \<Rightarrow> (string, json_object) std_map \<Rightarrow> bool" where
  "pod_statuses pod statuses \<longleftrightarrow> (\<exists>status. Get_Object pod ''status'' = Inr status \<and>
     (if Has status ''containerStatuses'' then bindE (Get_Array status ''containerStatuses'') status_by_name else Inr [])
       = Inr statuses)"

text \<open>The id under which a container with a known container id is also registered.\<close>

definition container_ids :: "('w, 'y) host \<Rightarrow> Configuration \<Rightarrow> json_object option \<Rightarrow> string list \<Rightarrow> bool" where
  "container_ids H config st ids \<longleftrightarrow>
     (case st of
        None \<Rightarrow> ids = []
      | Some fs \<Rightarrow>
          if Has fs ''containerID''
          then \<exists>id. Get_String fs ''containerID'' = Inr id \<and>
            ids = [join_strings H [''k8s_container'', strip_docker_prefix id] (metadata_api_resource_type_separator config)]
          else ids = [])"

definition container_entry ::
  "('w, 'y) host \<Rightarrow> Configuration \<Rightarrow> json_object \<Rightarrow> (string, json_object) std_map \<Rightarrow> time_point \<Rightarrow> bool
    \<Rightarrow> json \<Rightarrow> ResourceMetadata \<Rightarrow> bool" where
  "container_entry H config pod statuses collected deleted c_spec r \<longleftrightarrow>
     (\<exists>fs cluster location ns name uid container ids.
        c_spec = Object fs \<and> Get_String fs ''name'' = Inr container
        \<and> pod_field pod ''namespace'' ns \<and> pod_field pod ''name'' name \<and> pod_field pod ''uid'' uid
        \<and> rm_resource r = MonitoredResource ''k8s_container''
            [(''cluster_name'', cluster), (''container_name'', container), (''location'', location),
             (''namespace_name'', ns), (''pod_name'', name)]
        \<and> container_ids H config (map_of statuses container) ids
        \<and> rm_ids r = [join_strings H [''k8s_container'', uid, container] (metadata_api_resource_type_separator config),
              join_strings H [''k8s_container'', ns, name, container] (metadata_api_resource_type_separator config)] @ ids
        \<and> \<not> ignore (rm_metadata r) \<and> is_deleted (rm_metadata r) = deleted \<and> collected_at (rm_metadata r) = collected)"

definition pod_entry ::
  "('w, 'y) host \<Rightarrow> Configuration \<Rightarrow> json_object \<Rightarrow> time_point \<Rightarrow> bool \<Rightarrow> ResourceMetadata \<Rightarrow> bool" where
  "pod_entry H config pod collected deleted r \<longleftrightarrow>
     (\<exists>cluster location ns name uid.
        pod_field pod ''namespace'' ns \<and> pod_field pod ''name'' name \<and> pod_field pod ''uid'' uid
        \<and> rm_resource r = MonitoredResource ''k8s_pod''
            [(''cluster_name'', cluster), (''location'', location), (''namespace_name'', ns), (''pod_name'', name)]
        \<and> rm_ids r = [join_strings H [''k8s_pod'', uid] (metadata_api_resource_type_separator config),
              join_strings H [''k8s_pod'', ns, name] (metadata_api_resource_type_separator config)]
        \<and> \<not> ignore (rm_metadata r) \<and> is_deleted (rm_metadata r) = deleted \<and> collected_at (rm_metadata r) = collected)"

lemma GetPodMetadata_entry:
  "GetPodMetadata H config pod assoc collected deleted s = (Inr r, t) \<Longrightarrow> pod_entry H config pod collected deleted r"
  unfolding GetPodMetadata_def Let_def
  by (auto simp: meth_results returnM_def pod_entry_def pod_field_def make_resource_def map_emplace_all_def
      make_Metadata_def less_char_def kK8sPodResourcePrefix_def)

lemma GetContainerMetadata_entry:
  assumes "Get_String fs ''name'' = Inr name"
    and "k8s_GetContainerMetadata H config pod fs (map_of statuses name) assoc collected deleted s = (Inr r, t)"
  shows "container_entry H config pod statuses collected deleted (Object fs) r"
  using assms unfolding k8s_GetContainerMetadata_def Let_def container_entry_def
  by (auto simp: meth_results returnM_def pod_field_def make_resource_def map_emplace_all_def container_ids_def
      make_Metadata_def less_char_def kK8sContainerResourcePrefix_def split: option.splits if_splits)

lemma GetPodAndContainerMetadata_result:
  assumes "GetPodAndContainerMetadata fuel H config pod collected deleted s = (Inr rs, t)"
  shows "\<exists>spec specs statuses cs p. Get_Object pod ''spec'' = Inr spec \<and> Get_Array spec ''containers'' = Inr specs
    \<and> pod_statuses pod statuses
    \<and> rs = cs @ [p] \<and> list_all2 (container_entry H config pod statuses collected deleted) specs cs
    \<and> pod_entry H config pod collected deleted p"
proof -
  from assms obtain spec specs statuses associations cs p s1 s2 s3 where
    spec: "Get_Object pod ''spec'' = Inr spec" "Get_Array spec ''containers'' = Inr specs" "pod_statuses pod statuses"
    and cs: "mapM (\<lambda>c_spec.
        bindM (json_call (As_Object c_spec)) (\<lambda>container_spec.
        bindM (json_call (Get_String container_spec ''name'')) (\<lambda>name.
        k8s_GetContainerMetadata H config pod container_spec (map_of statuses name)
          (Clone_ptr associations) collected deleted))) specs s1 = (Inr cs, s2)"
    and p: "GetPodMetadata H config pod associations collected deleted s2 = (Inr p, s3)" and rs: "rs = cs @ [p]"
    unfolding GetPodAndContainerMetadata_def pod_statuses_def by (auto simp: meth_results returnM_def)
  have "list_all2 (container_entry H config pod statuses collected deleted) specs cs"
    using mapM_result [OF cs]
    by (rule list_all2_mono) (auto simp: meth_results As_Inr_iff dest: GetContainerMetadata_entry)
  with spec rs GetPodMetadata_entry [OF p] show ?thesis by blast
qed

text \<open>
  C12.  A pod that is well-formed enough to be described yields one entry per container of its
  specification, in their order, and then its own entry.  The entries carry the resource labels, ids,
  deletion flag and collection time of that pod; a container is also registered under its container id
  without the runtime's prefix when the first status of its name has one.
\<close>

theorem GetPodAndContainerMetadata_entries:
  assumes "GetPodAndContainerMetadata fuel H config pod collected deleted s = (Inr rs, t)"
  shows "\<exists>spec specs statuses cs p. Get_Object pod ''spec'' = Inr spec \<and> Get_Array spec ''containers'' = Inr specs
    \<and> pod_statuses pod statuses
    \<and> rs = cs @ [p] \<and> list_all2 (container_entry H config pod statuses collected deleted) specs cs
    \<and> pod_entry H config pod collected deleted p"
  using assms by (rule GetPodAndContainerMetadata_result)

text \<open>A pod with one running container, on a host that knows its instance and cluster.\<close>

definition cluster_config :: Configuration where
  "cluster_config = instance_config\<lparr>kubernetes_cluster_name := ''c'', kubernetes_cluster_location := ''l''\<rparr>"

definition running_pod :: json_object where
  "running_pod =
    [(''metadata'', Object [(''creationTimestamp'', String ''t''), (''name'', String ''p''),
        (''namespace'', String ''default''), (''uid'', String ''u'')]),
     (''spec'', Object [(''containers'', Array [Object [(''name'', String ''x'')]])]),
     (''status'', Object [(''containerStatuses'', Array [Object [(''containerID'', String ''docker://1''), (''name'', String ''x'')]])])]"

definition known_environment :: Environment where
  "known_environment = Environment_new\<lparr>env_instance_id := ''i'', env_zone := ''z'', env_instance_resource_type := ''t'',
     env_kubernetes_cluster_name := ''c'', env_kubernetes_cluster_location := ''l''\<rparr>"

lemma known_getters:
  "k8s_env (KubernetesClusterName P config) (r, known_environment, w) = (Inr ''c'', r, known_environment, w)"
  "k8s_env (KubernetesClusterLocation P config) (r, known_environment, w) = (Inr ''l'', r, known_environment, w)"
  by (simp_all add: k8s_env_def KubernetesClusterName_def KubernetesClusterLocation_def known_environment_def)

lemma known_instance:
  "instance_json H config (r, known_environment, w) = (Inr (Some (ToJSON (make_resource ''t''
     [(''instance_id'', ''i''), (''zone'', ''z'')]))), r, known_environment, w)"
  by (simp add: instance_json_def InstanceResource_def k8s_lift_def catchM_def meth_simps env_get_def
      InstanceResourceType_def InstanceId_def InstanceZone_def known_environment_def)

lemmas json_access_simps = As_Object_def As_Array_def As_def Is_def Get_Object_def Get_Array_def Get_String_def
  Get_Boolean_def GetField_def Has_def

lemma running_pod_described:
  "\<exists>rs t. GetPodAndContainerMetadata 0 offline_host config running_pod 5 deleted
       (KubernetesReader_new, known_environment, ()) = (Inr rs, t)"
proof -
  have "json_ok (Object running_pod)"
    by (simp add: running_pod_def map_ok_def less_char_def)
  then have clone: "Clone (Object running_pod) = Object running_pod" by (rule Clone_eq)
  show ?thesis
    unfolding GetPodAndContainerMetadata_def ComputePodAssociations_def GetPodMetadata_def
      k8s_GetContainerMetadata_def Let_def clone
    by (simp add: meth_simps catchM_def known_getters known_instance FindTopLevelController_cases controller_ref_def
        json_call_def controllers_json_def running_pod_def json_access_simps status_by_name_def less_char_def)
qed

theorem GetPodAndContainerMetadata_entries_witness:
  "\<exists>rs t. GetPodAndContainerMetadata 0 offline_host cluster_config running_pod 5 False
       (KubernetesReader_new, known_environment, ()) = (Inr rs, t)
    \<and> (\<exists>spec specs statuses cs p. Get_Object running_pod ''spec'' = Inr spec \<and> Get_Array spec ''containers'' = Inr specs
        \<and> pod_statuses running_pod statuses \<and> rs = cs @ [p]
        \<and> list_all2 (container_entry offline_host cluster_config running_pod statuses 5 False) specs cs
        \<and> pod_entry offline_host cluster_config running_pod 5 False p)"
proof -
  obtain rs t where q: "GetPodAndContainerMetadata 0 offline_host cluster_config running_pod 5 False
       (KubernetesReader_new, known_environment, ()) = (Inr rs, t)"
    using running_pod_described by blast
  from q GetPodAndContainerMetadata_entries [OF q] show ?thesis by blast
qed

end
