(* ===== verification/Kubernetes_Updater.thy ===== *)
theory Kubernetes_Updater
  imports Kubernetes Health_Checker
begin

text \<open>
  The rest of \<^verbatim>\<open>src/kubernetes.cc\<close>: the service caches and the cluster metadata built from them, the
  query of the polling updater, the validation at start, the callbacks of the watches with the
  decoding of a watch event, and the updater class itself.

  A callback of a watch gets the update callback of the updater as an argument; the updater's own
  one (\<open>MetadataCallback\<close>) applies the results to the store.
\<close>

section \<open>Service caches\<close>

text \<open>The method runs on the reader only; an exception leaves it as it was.\<close>

definition UpdateServiceToMetadataCache ::
  "json_object \<Rightarrow> bool \<Rightarrow> (KubernetesReader, json_exception, unit) meth" where
  "UpdateServiceToMetadataCache service deleted =
     bindM (liftM (Get_Object service ''metadata'')) (\<lambda>metadata.
     bindM (liftM (Get_String metadata ''namespace'')) (\<lambda>namespace_name.
     bindM (liftM (Get_String metadata ''name'')) (\<lambda>service_name.
     modifyM (\<lambda>r. r\<lparr>service_to_metadata :=
        (if deleted then map_erase (namespace_name, service_name) (service_to_metadata r)
         else map_assign (namespace_name, service_name) (Clone (Object service)) (service_to_metadata r))\<rparr>))))"

text \<open>The pod an address refers to, if any.\<close>

definition address_pod :: "json \<Rightarrow> json_exception + string list" where
  "address_pod address =
     bindE (As_Object address) (\<lambda>address_obj.
     if \<not> Has address_obj ''targetRef'' then Inr []
     else bindE (Get_Object address_obj ''targetRef'') (\<lambda>ref.
       if \<not> (Has ref ''kind'' \<and> Has ref ''name'') then Inr []
       else bindE (Get_String ref ''kind'') (\<lambda>target_kind.
         if target_kind \<noteq> ''Pod'' then Inr []
         else bindE (Get_String ref ''name'') (\<lambda>pod_name. Inr [pod_name]))))"

definition subset_pods :: "json \<Rightarrow> json_exception + string list" where
  "subset_pods subset_json =
     bindE (As_Object subset_json) (\<lambda>subset_obj.
     if \<not> Has subset_obj ''addresses'' then Inr []
     else bindE (Get_Array subset_obj ''addresses'') (\<lambda>addresses.
       bindE (mapE address_pod addresses) (\<lambda>pods. Inr (concat pods))))"

text \<open>The pods of an endpoints object; an absent or null list of subsets has none.\<close>

definition endpoints_pods :: "json_object \<Rightarrow> json_exception + string list" where
  "endpoints_pods endpoints =
     (case map_of endpoints ''subsets'' of
        None \<Rightarrow> Inr []
      | Some Null \<Rightarrow> Inr []
      | _ \<Rightarrow> bindE (Get_Array endpoints ''subsets'') (\<lambda>subsets.
             bindE (mapE subset_pods subsets) (\<lambda>pods. Inr (concat pods))))"

definition UpdateServiceToPodsCache ::
  "json_object \<Rightarrow> bool \<Rightarrow> (KubernetesReader, json_exception, unit) meth" where
  "UpdateServiceToPodsCache endpoints deleted =
     bindM (liftM (Get_Object endpoints ''metadata'')) (\<lambda>metadata.
     bindM (liftM (Get_String metadata ''namespace'')) (\<lambda>namespace_name.
     bindM (liftM (Get_String metadata ''name'')) (\<lambda>service_name.
     bindM (liftM (if deleted then Inr [] else endpoints_pods endpoints)) (\<lambda>pod_names.
     modifyM (\<lambda>r. r\<lparr>service_to_pods :=
        (if deleted then map_erase (namespace_name, service_name) (service_to_pods r)
         else map_assign (namespace_name, service_name) pod_names (service_to_pods r))\<rparr>)))))"

section \<open>Cluster metadata\<close>

definition pod_resource :: "string \<Rightarrow> string \<Rightarrow> string \<Rightarrow> string \<Rightarrow> MonitoredResource" where
  "pod_resource cluster_name location namespace_name pod_name =
     make_resource ''k8s_pod''
       [(''cluster_name'', cluster_name), (''namespace_name'', namespace_name), (''pod_name'', pod_name),
        (''location'', location)]"

text \<open>The entry of one service, with the resources of its pods.\<close>

definition service_entry :: "string \<Rightarrow> string \<Rightarrow> string \<Rightarrow> json \<Rightarrow> string list \<Rightarrow> json" where
  "service_entry cluster_name location namespace_name service_metadata pod_names =
     object [(''api'', Some (object [
       (''version'', Some (String kKubernetesApiVersion)),
       (''raw'', Some (Clone service_metadata)),
       (''pods'', Some (array (map (\<lambda>pod_name.
          Some (ToJSON (pod_resource cluster_name location namespace_name pod_name))) pod_names)))]))]"

definition GetServiceList :: "string \<Rightarrow> string \<Rightarrow> KubernetesReader \<Rightarrow> json list" where
  "GetServiceList cluster_name location r =
     map (\<lambda>(service_key, service_metadata).
        service_entry cluster_name location (fst service_key) service_metadata
          (case map_of (service_to_pods r) service_key of Some pod_names \<Rightarrow> pod_names | None \<Rightarrow> []))
       (service_to_metadata r)"

text \<open>The default constructed time point is the epoch.\<close>

definition GetClusterMetadata :: "('w, 'y) host \<Rightarrow> Configuration \<Rightarrow> time_point \<Rightarrow> ('w, ResourceMetadata) k8s" where
  "GetClusterMetadata H config collected =
     bindM (k8s_env (KubernetesClusterName (host_platform H) config)) (\<lambda>cluster_name.
     bindM (k8s_env (KubernetesClusterLocation (host_platform H) config)) (\<lambda>location.
     bindM (k8s_get (GetServiceList cluster_name location)) (\<lambda>service_list.
     returnM
       \<lparr>rm_ids = [],
        rm_resource = make_resource ''k8s_cluster'' [(''cluster_name'', cluster_name), (''location'', location)],
        rm_metadata = make_Metadata (metadata_ingestion_raw_content_version config) False 0 collected
          (object [(''blobs'', Some (object [(''services'', Some (array (map Some service_list)))]))])\<rparr>)))"

section \<open>The polling query\<close>

text \<open>
  The loop over the nodes: an exception leaves the loop through the handlers around it and keeps the
  nodes before it.
\<close>

fun node_results ::
  "('w, 'y) host \<Rightarrow> Configuration \<Rightarrow> time_point \<Rightarrow> json list \<Rightarrow> ResourceMetadata list
    \<Rightarrow> ('w, ResourceMetadata list) k8s" where
  "node_results H config collected [] result = returnM result"
| "node_results H config collected (raw_node # rest) result =
     bindM (or_else
        (bindM (json_call (As_Object raw_node)) (\<lambda>node.
         bindM (GetNodeMetadata H config node collected False) (\<lambda>r. returnM (Some r)))) None) (\<lambda>r.
     case r of
       None \<Rightarrow> returnM result
     | Some r \<Rightarrow> node_results H config collected rest (result @ [r]))"

text \<open>A single node answers as itself; it is wrapped as a list of nodes.\<close>

definition query_nodes :: "('w, 'y) host \<Rightarrow> Configuration \<Rightarrow> string \<Rightarrow> ('w, ResourceMetadata list) k8s" where
  "query_nodes H config node_name =
     or_else
       (bindM (QueryMaster H config (kKubernetesEndpointPath @ ''/nodes/'' @ node_name)) (\<lambda>raw_nodes.
        bindM (k8s_lift (now H)) (\<lambda>collected.
        bindM (deref (if node_name \<noteq> [] then Some (object [(''items'', Some (array [raw_nodes]))]) else raw_nodes)) (\<lambda>nodes.
        bindM (json_call (As_Object nodes)) (\<lambda>nodelist.
        bindM (json_call (Get_Array nodelist ''items'')) (\<lambda>nodes_array.
        node_results H config collected nodes_array [])))))) []"

definition pod_label_selector :: "Configuration \<Rightarrow> string" where
  "pod_label_selector config =
     (if kubernetes_pod_label_selector config = [] then [] else ''&'' @ kubernetes_pod_label_selector config)"

text \<open>What the body of the loop reads of a pod before it computes its metadata.\<close>

definition check_pod :: "string \<Rightarrow> json_object \<Rightarrow> json_exception + unit" where
  "check_pod node_name pod =
     bindE (Get_Object pod ''metadata'') (\<lambda>metadata.
     bindE (Get_String metadata ''name'') (\<lambda>pod_name.
     bindE (Get_String metadata ''uid'') (\<lambda>pod_id.
     bindE (Get_Object pod ''spec'') (\<lambda>spec.
     bindE (if node_name \<noteq> [] then Get_String spec ''nodeName'' else Inr []) (\<lambda>pod_node_name.
     bindE (Get_Object pod ''status'') (\<lambda>status.
     bindE (Get_Array spec ''containers'') (\<lambda>container_specs.
     bindE (if Has status ''containerStatuses'' then Get_Array status ''containerStatuses'' else Inr []) (\<lambda>_.
     Inr ()))))))))"

text \<open>The loop over the pods: a JSON exception drops one pod.\<close>

fun pod_results ::
  "nat \<Rightarrow> ('w, 'y) host \<Rightarrow> Configuration \<Rightarrow> string \<Rightarrow> time_point \<Rightarrow> json list \<Rightarrow> ('w, ResourceMetadata list) k8s"
  where
  "pod_results fuel H config node_name collected [] = returnM []"
| "pod_results fuel H config node_name collected (raw_pod # rest) =
     bindM (catchM
        (bindM (json_call (As_Object raw_pod)) (\<lambda>pod.
         bindM (json_call (check_pod node_name pod)) (\<lambda>_.
         GetPodAndContainerMetadata fuel H config pod collected False)))
        (\<lambda>e. case e of JsonException j \<Rightarrow> returnM [] | _ \<Rightarrow> throwM e)) (\<lambda>full_pod_metadata.
     bindM (pod_results fuel H config node_name collected rest) (\<lambda>rs. returnM (full_pod_metadata @ rs)))"

definition query_pods :: "nat \<Rightarrow> ('w, 'y) host \<Rightarrow> Configuration \<Rightarrow> string \<Rightarrow> ('w, ResourceMetadata list) k8s" where
  "query_pods fuel H config node_name =
     or_else
       (bindM (QueryMaster H config
          (kKubernetesEndpointPath @ ''/pods'' @ kNodeSelectorPrefix @ node_name @ pod_label_selector config)) (\<lambda>resp.
        bindM (k8s_lift (now H)) (\<lambda>collected.
        bindM (deref resp) (\<lambda>podlist_response.
        bindM (json_call (As_Object podlist_response)) (\<lambda>podlist_object.
        bindM (json_call (Get_String podlist_object ''apiVersion'')) (\<lambda>_.
        bindM (json_call (Get_Array podlist_object ''items'')) (\<lambda>pod_list.
        pod_results fuel H config node_name collected pod_list))))))) []"

definition Kubernetes_MetadataQuery ::
  "nat \<Rightarrow> ('w, 'y) host \<Rightarrow> Configuration \<Rightarrow> ('w, ResourceMetadata list) k8s" where
  "Kubernetes_MetadataQuery fuel H config =
     bindM (CurrentNode H config) (\<lambda>node.
     let node_name = (if kubernetes_cluster_level_metadata config then [] else node)
     in bindM (query_nodes H config node_name) (\<lambda>nodes.
        bindM (query_pods fuel H config node_name) (\<lambda>pods.
        returnM (nodes @ pods))))"

section \<open>Validation\<close>

text \<open>One query with retries; \<open>Inl None\<close> is the end of the process.\<close>

definition validate_query ::
  "('w, 'y) host \<Rightarrow> Configuration \<Rightarrow> string \<Rightarrow> string \<Rightarrow> ('w k8s_state, start_error, unit) meth"
  where
  "validate_query H config what_for path =
     catchM
       (Retry is_terminate is_query_failure kKubernetesValidationRetryLimit
          (\<lambda>(r, e, w). (r, e, sleep_for H 1 w))
          (bindM (QueryMaster H config path) (\<lambda>_. returnM ())))
       (\<lambda>e. case e of
          NonRetriableError w \<Rightarrow> throwM (Some (ValidationError (what_for @ '' query validation failed: '' @ w)))
        | QueryException w \<Rightarrow>
            throwM (Some (ValidationError (what_for @ '' query validation retry limit reached: '' @ w)))
        | _ \<Rightarrow> throwM None)"

text \<open>
  For an empty node the method throws a pointer, which its exception specification excludes.
\<close>

definition Kubernetes_ValidateDynamicConfiguration ::
  "('w, 'y) host \<Rightarrow> Configuration \<Rightarrow> ('w k8s_state, start_error, unit) meth" where
  "Kubernetes_ValidateDynamicConfiguration H config =
     bindM (validate_query H config ''Node'' (kKubernetesEndpointPath @ ''/nodes?limit=1'')) (\<lambda>_.
     bindM (validate_query H config ''Pod''
        (kKubernetesEndpointPath @ ''/pods?limit=1'' @ pod_label_selector config)) (\<lambda>_.
     bindM (catchM (CurrentNode H config) (\<lambda>e. throwM None)) (\<lambda>node.
     if node = [] then throwM None else returnM ())))"

section \<open>Watch callbacks\<close>

type_synonym 'w update_callback = "ResourceMetadata list \<Rightarrow> ('w, unit) k8s"

definition PodCallback ::
  "nat \<Rightarrow> ('w, 'y) host \<Rightarrow> Configuration \<Rightarrow> 'w update_callback \<Rightarrow> json_object \<Rightarrow> time_point \<Rightarrow> bool \<Rightarrow> ('w, unit) k8s"
  where
  "PodCallback fuel H config update pod collected deleted =
     bindM (GetPodAndContainerMetadata fuel H config pod collected deleted) update"

definition NodeCallback ::
  "('w, 'y) host \<Rightarrow> Configuration \<Rightarrow> 'w update_callback \<Rightarrow> json_object \<Rightarrow> time_point \<Rightarrow> bool \<Rightarrow> ('w, unit) k8s" where
  "NodeCallback H config update node collected deleted =
     bindM (GetNodeMetadata H config node collected deleted) (\<lambda>r. update [r])"

text \<open>A method of the reader's own state in the larger one.\<close>

definition k8s_reader :: "(KubernetesReader, json_exception, 'a) meth \<Rightarrow> ('w, 'a) k8s" where
  "k8s_reader m = (\<lambda>(r, s). case m r of (Inl e, r') \<Rightarrow> (Inl (JsonException e), r', s) | (Inr x, r') \<Rightarrow> (Inr x, r', s))"

definition ServiceCallback ::
  "('w, 'y) host \<Rightarrow> Configuration \<Rightarrow> 'w update_callback \<Rightarrow> json_object \<Rightarrow> time_point \<Rightarrow> bool \<Rightarrow> ('w, unit) k8s" where
  "ServiceCallback H config update service collected deleted =
     bindM (k8s_reader (UpdateServiceToMetadataCache service deleted)) (\<lambda>_.
     bindM (GetClusterMetadata H config collected) (\<lambda>r. update [r]))"

definition EndpointsCallback ::
  "('w, 'y) host \<Rightarrow> Configuration \<Rightarrow> 'w update_callback \<Rightarrow> json_object \<Rightarrow> time_point \<Rightarrow> bool \<Rightarrow> ('w, unit) k8s" where
  "EndpointsCallback H config update endpoints collected deleted =
     bindM (k8s_reader (UpdateServiceToPodsCache endpoints deleted)) (\<lambda>_.
     bindM (GetClusterMetadata H config collected) (\<lambda>r. update [r]))"

text \<open>Decoding a watch event; types other than the three are skipped.\<close>

definition WatchEventCallback ::
  "('w, 'y) host \<Rightarrow> (json_object \<Rightarrow> time_point \<Rightarrow> bool \<Rightarrow> ('w, unit) k8s) \<Rightarrow> json \<Rightarrow> ('w, unit) k8s" where
  "WatchEventCallback H on_event raw_watch =
     bindM (k8s_lift (now H)) (\<lambda>collected.
     bindM (json_call (As_Object raw_watch)) (\<lambda>watch.
     bindM (json_call (Get_String watch ''type'')) (\<lambda>type.
     bindM (json_call (Get_Object watch ''object'')) (\<lambda>object.
     if type \<noteq> ''MODIFIED'' \<and> type \<noteq> ''ADDED'' \<and> type \<noteq> ''DELETED'' then returnM ()
     else on_event object collected (type = ''DELETED'')))))"

section \<open>The updater\<close>

record KubernetesUpdater =
  k8s_polling :: PollingMetadataUpdater
  node_watch :: "string option"
  pod_watch :: "string option"
  service_watch :: bool
  endpoints_watch :: bool

text \<open>The watch threads are recorded with the node they watch.\<close>

definition KubernetesUpdater_new :: "Configuration \<Rightarrow> KubernetesUpdater" where
  "KubernetesUpdater_new config =
     \<lparr>k8s_polling = PollingMetadataUpdater_new (of_int (kubernetes_updater_interval_seconds config)),
      node_watch = None, pod_watch = None, service_watch = False, endpoints_watch = False\<rparr>"

definition Kubernetes_ShouldStartUpdater :: "Configuration \<Rightarrow> KubernetesUpdater \<Rightarrow> bool" where
  "Kubernetes_ShouldStartUpdater config u = (polling_ShouldStart (k8s_polling u) \<or> kubernetes_use_watch config)"

definition Kubernetes_StartUpdater ::
  "('w, 'y) host \<Rightarrow> Configuration \<Rightarrow> KubernetesUpdater \<Rightarrow> ('w, KubernetesUpdater) k8s" where
  "Kubernetes_StartUpdater H config u =
     (if kubernetes_use_watch config then
        bindM (CurrentNode H config) (\<lambda>node.
        let watched_node = (if kubernetes_cluster_level_metadata config then [] else node);
            services = kubernetes_cluster_level_metadata config \<and> kubernetes_service_metadata config
        in returnM (u\<lparr>node_watch := Some watched_node, pod_watch := Some watched_node,
             service_watch := services \<or> service_watch u, endpoints_watch := services \<or> endpoints_watch u\<rparr>))
      else returnM (u\<lparr>k8s_polling := polling_StartUpdater (k8s_polling u)\<rparr>))"

definition Kubernetes_NotifyStopUpdater :: "Configuration \<Rightarrow> KubernetesUpdater \<Rightarrow> KubernetesUpdater option" where
  "Kubernetes_NotifyStopUpdater config u =
     (if kubernetes_use_watch config then Some u
      else map_option (\<lambda>p. u\<lparr>k8s_polling := p\<rparr>) (polling_NotifyStop (k8s_polling u)))"

definition Kubernetes_class ::
  "('w, 'y) host \<Rightarrow> Configuration \<Rightarrow> (KubernetesUpdater \<times> 'w k8s_state) updater_class" where
  "Kubernetes_class H config =
     \<lparr>ValidateStaticConfiguration = (\<lambda>(u, s). polling_ValidateStatic (k8s_polling u)),
      ShouldStartUpdater = (\<lambda>(u, s). Kubernetes_ShouldStartUpdater config u),
      ValidateDynamicConfiguration =
        (\<lambda>(u, s). case Kubernetes_ValidateDynamicConfiguration H config s of (r, t) \<Rightarrow> (r, u, t)),
      StartUpdater = (\<lambda>(u, s). case Kubernetes_StartUpdater H config u s of
          (Inl e, t) \<Rightarrow> (Inl None, u, t)
        | (Inr u', t) \<Rightarrow> (Inr (), u', t)),
      NotifyStopUpdater = (\<lambda>(u, s). map_option (\<lambda>u'. (u', s)) (Kubernetes_NotifyStopUpdater config u))\<rparr>"

text \<open>The results of a watch event, applied to the store in their order.\<close>

definition MetadataCallback :: "ResourceMetadata list \<Rightarrow> MetadataStore \<Rightarrow> MetadataStore" where
  "MetadataCallback result_vector store =
     fold (\<lambda>result st. UpdateMetadataCallback result (UpdateResourceCallback result st)) result_vector store"

text \<open>The update callback of the updater, in a world that has the store.\<close>

definition store_callback :: "(MetadataStore \<times> 'v) update_callback" where
  "store_callback results = modifyM (\<lambda>(r, e, st, v). (r, e, MetadataCallback results st, v))"

section \<open>Service caches follow the events\<close>

datatype service_event = ServiceEvent json_object bool | EndpointsEvent json_object bool

definition service_step :: "service_event \<Rightarrow> KubernetesReader \<Rightarrow> KubernetesReader" where
  "service_step ev r =
     snd (case ev of
        ServiceEvent obj deleted \<Rightarrow> UpdateServiceToMetadataCache obj deleted r
      | EndpointsEvent obj deleted \<Rightarrow> UpdateServiceToPodsCache obj deleted r)"

text \<open>The key of an object; malformed objects have none.\<close>

definition service_key :: "json_object \<Rightarrow> ServiceKey option" where
  "service_key obj =
     (case bindE (Get_Object obj ''metadata'') (\<lambda>metadata.
           bindE (Get_String metadata ''namespace'') (\<lambda>ns.
           bindE (Get_String metadata ''name'') (\<lambda>name. Inr (ns, name)))) of
        Inl e \<Rightarrow> None | Inr k \<Rightarrow> Some k)"

text \<open>What one event says about a service and about its pods: nothing, that it is gone, or its value.\<close>

fun service_says :: "ServiceKey \<Rightarrow> service_event \<Rightarrow> json option option" where
  "service_says k (ServiceEvent obj deleted) =
     (if service_key obj = Some k then Some (if deleted then None else Some (Object obj)) else None)"
| "service_says k (EndpointsEvent obj deleted) = None"

fun pods_say :: "ServiceKey \<Rightarrow> service_event \<Rightarrow> string list option option" where
  "pods_say k (ServiceEvent obj deleted) = None"
| "pods_say k (EndpointsEvent obj deleted) =
     (if service_key obj = Some k
      then (if deleted then Some None
            else case endpoints_pods obj of Inl e \<Rightarrow> None | Inr pods \<Rightarrow> Some (Some pods))
      else None)"

text \<open>The last thing said in a history.\<close>

definition last_said :: "('e \<Rightarrow> 'a option option) \<Rightarrow> 'e list \<Rightarrow> 'a option" where
  "last_said says evs = (case List.map_filter says (rev evs) of [] \<Rightarrow> None | x # _ \<Rightarrow> x)"

lemma last_said_Nil [simp]: "last_said says [] = None"
  by (simp add: last_said_def map_filter_def)

lemma last_said_snoc [simp]:
  "last_said says (evs @ [e]) = (case says e of Some x \<Rightarrow> x | None \<Rightarrow> last_said says evs)"
  by (simp add: last_said_def map_filter_simps split: option.split)

lemma service_key_Some:
  "service_key obj = Some (ns, name) \<longleftrightarrow>
     (\<exists>md. Get_Object obj ''metadata'' = Inr md \<and> Get_String md ''namespace'' = Inr ns \<and> Get_String md ''name'' = Inr name)"
  by (auto simp: service_key_def bindE_def split: sum.splits)

lemma UpdateServiceToMetadataCache_eq:
  "snd (UpdateServiceToMetadataCache obj deleted r) =
     (case service_key obj of
        None \<Rightarrow> r
      | Some k \<Rightarrow> r\<lparr>service_to_metadata :=
          (if deleted then map_erase k (service_to_metadata r)
           else map_assign k (Clone (Object obj)) (service_to_metadata r))\<rparr>)"
  by (auto simp: UpdateServiceToMetadataCache_def service_key_def meth_simps bindE_def split: sum.splits)

lemma UpdateServiceToPodsCache_eq:
  "snd (UpdateServiceToPodsCache obj deleted r) =
     (case service_key obj of
        None \<Rightarrow> r
      | Some k \<Rightarrow>
          if deleted then r\<lparr>service_to_pods := map_erase k (service_to_pods r)\<rparr>
          else case endpoints_pods obj of
              Inl e \<Rightarrow> r
            | Inr pods \<Rightarrow> r\<lparr>service_to_pods := map_assign k pods (service_to_pods r)\<rparr>)"
  by (auto simp: UpdateServiceToPodsCache_def service_key_def meth_simps bindE_def split: sum.splits)

lemma service_caches:
  "map_ok (service_to_metadata (fold service_step evs KubernetesReader_new))
   \<and> map_ok (service_to_pods (fold service_step evs KubernetesReader_new))
   \<and> map_of (service_to_metadata (fold service_step evs KubernetesReader_new)) k
       = map_option Clone (last_said (service_says k) evs)
   \<and> map_of (service_to_pods (fold service_step evs KubernetesReader_new)) k = last_said (pods_say k) evs"
proof (induction evs rule: rev_induct)
  case Nil
  then show ?case by (simp add: KubernetesReader_new_def)
next
  case (snoc ev evs)
  then show ?case
    by (cases ev)
      (auto simp: service_step_def UpdateServiceToMetadataCache_eq UpdateServiceToPodsCache_eq wf_intros
        map_of_map_assign map_of_map_erase split: option.split sum.split)
qed

text \<open>
  C13.  The service list follows the watch events.  After any history of service and endpoints events,
  malformed ones included, it has one entry per service whose last event is not a deletion, ordered by
  namespace and name, with the pods of the last endpoints event of that name (none if there is none or
  it is a deletion).  Events may arrive in any order between the two kinds.
\<close>

theorem GetServiceList_latest:
  "\<exists>keys. sorted_wrt (<) keys \<and> (\<forall>k. k \<in> set keys \<longleftrightarrow> last_said (service_says k) evs \<noteq> None)
    \<and> GetServiceList cluster location (fold service_step evs KubernetesReader_new) =
        map (\<lambda>k. service_entry cluster location (fst k) (the (last_said (service_says k) evs))
               (case last_said (pods_say k) evs of Some pods \<Rightarrow> pods | None \<Rightarrow> [])) keys"
proof -
  let ?r = "fold service_step evs KubernetesReader_new"
  let ?m = "service_to_metadata ?r"
  have ok: "map_ok ?m" and md: "map_of ?m k = map_option Clone (last_said (service_says k) evs)"
    and pods: "map_of (service_to_pods ?r) k = last_said (pods_say k) evs" for k
    using service_caches by blast+
  have "k \<in> fst ` set ?m \<longleftrightarrow> last_said (service_says k) evs \<noteq> None" for k
    using md [of k] map_of_eq_None_iff [of ?m k] by auto
  moreover have "service_entry cluster location (fst k) v p
      = service_entry cluster location (fst k) (the (last_said (service_says k) evs)) p"
    if "(k, v) \<in> set ?m" for k v p
  proof -
    from that ok have "map_of ?m k = Some v" by (simp add: map_ok_distinct)
    with md [of k] have "v = Clone (the (last_said (service_says k) evs))"
      by (cases "last_said (service_says k) evs") simp_all
    then show ?thesis by (simp add: service_entry_def)
  qed
  ultimately show ?thesis
    using ok by (intro exI [of _ "map fst ?m"]) (auto simp: GetServiceList_def map_ok_def pods)
qed

section \<open>Every operation keeps the invariant\<close>

lemma keeps_exception [keeps_rules]:
  "(\<And>w. keeps I (f w)) \<Longrightarrow> (\<And>w. keeps I (g w)) \<Longrightarrow> (\<And>j. keeps I (h j)) \<Longrightarrow> keeps I a \<Longrightarrow> keeps I b \<Longrightarrow>
     keeps I (case e of NonRetriableError w \<Rightarrow> f w | QueryException w \<Rightarrow> g w | JsonException j \<Rightarrow> h j
       | Crashed \<Rightarrow> a | OutOfFuel \<Rightarrow> b)"
  by (cases e) simp_all

context reader_invariant begin

lemma UpdateService_keeps [keeps_rules]:
  "keeps R (UpdateServiceToMetadataCache obj deleted)"
  "keeps R (UpdateServiceToPodsCache obj deleted)"
  unfolding UpdateServiceToMetadataCache_def UpdateServiceToPodsCache_def
  by (intro keeps_rules; simp add: service del: Clone.simps)+

lemma k8s_reader_keeps [keeps_rules]: "keeps R m \<Longrightarrow> keeps (\<lambda>s. R (fst s)) (k8s_reader m)"
  unfolding keeps_def k8s_reader_def by (force split: prod.splits sum.splits)

lemma GetClusterMetadata_keeps [keeps_rules]: "keeps (\<lambda>s. R (fst s)) (GetClusterMetadata H config collected)"
  unfolding GetClusterMetadata_def by (intro keeps_rules)

lemma node_results_keeps [keeps_rules]: "keeps (\<lambda>s. R (fst s)) (node_results H config collected ns rs)"
  by (induction ns arbitrary: rs) (auto intro!: keeps_rules)

lemma pod_results_keeps [keeps_rules]: "keeps (\<lambda>s. R (fst s)) (pod_results fuel H config node collected ps)"
  by (induction ps) (auto intro!: keeps_rules)

lemma Kubernetes_MetadataQuery_keeps [keeps_rules]: "keeps (\<lambda>s. R (fst s)) (Kubernetes_MetadataQuery fuel H config)"
  unfolding Kubernetes_MetadataQuery_def query_nodes_def query_pods_def Let_def by (intro keeps_rules)

lemma callbacks_keep [keeps_rules]:
  assumes "\<And>rs. keeps (\<lambda>s. R (fst s)) (update rs)"
  shows "keeps (\<lambda>s. R (fst s)) (PodCallback fuel H config update obj collected deleted)"
    and "keeps (\<lambda>s. R (fst s)) (NodeCallback H config update obj collected deleted)"
    and "keeps (\<lambda>s. R (fst s)) (ServiceCallback H config update obj collected deleted)"
    and "keeps (\<lambda>s. R (fst s)) (EndpointsCallback H config update obj collected deleted)"
  unfolding PodCallback_def NodeCallback_def ServiceCallback_def EndpointsCallback_def
  by (intro keeps_rules assms)+

lemma WatchEventCallback_keeps [keeps_rules]:
  "(\<And>obj t d. keeps (\<lambda>s. R (fst s)) (on_event obj t d)) \<Longrightarrow> keeps (\<lambda>s. R (fst s)) (WatchEventCallback H on_event raw)"
  unfolding WatchEventCallback_def by (intro keeps_rules)

lemma store_callback_keeps [keeps_rules]: "keeps (\<lambda>s. R (fst s)) (store_callback rs)"
  unfolding store_callback_def by (intro keeps_rules) auto

lemma validate_query_keeps [keeps_rules]: "keeps (\<lambda>s. R (fst s)) (validate_query H config what_for path)"
  unfolding validate_query_def by (intro keeps_rules) auto

lemma Kubernetes_Validate_keeps [keeps_rules]: "keeps (\<lambda>s. R (fst s)) (Kubernetes_ValidateDynamicConfiguration H config)"
  unfolding Kubernetes_ValidateDynamicConfiguration_def by (intro keeps_rules)

end

section \<open>Results are well-formed\<close>

text \<open>A result the store and the reporter can take: sorted labels, well-formed metadata, not ignored.\<close>

definition result_ok :: "ResourceMetadata \<Rightarrow> bool" where
  "result_ok r \<longleftrightarrow> resource_ok (rm_resource r) \<and> json_ok (metadata (rm_metadata r)) \<and> \<not> ignore (rm_metadata r)"

definition opt_ok :: "json option \<Rightarrow> bool" where
  "opt_ok v \<longleftrightarrow> (\<forall>x. v = Some x \<longrightarrow> json_ok x)"

lemma opt_ok_simps [simp]: "opt_ok None" "opt_ok (Some x) = json_ok x" "opt_ok (Clone_ptr v)"
  by (auto simp: opt_ok_def Clone_ptr_def split: option.splits)

lemma opt_ok_map [simp]: "(\<And>x. v = Some x \<Longrightarrow> json_ok (f x)) \<Longrightarrow> opt_ok (map_option f v)"
  by (auto simp: opt_ok_def)

lemma opt_ok_map_json [simp]: "opt_ok v \<Longrightarrow> (\<And>x. json_ok x \<Longrightarrow> json_ok (f x)) \<Longrightarrow> opt_ok (map_option f v)"
  by (auto simp: opt_ok_def)

lemma object_ok [simp]: "list_all (\<lambda>kv. opt_ok (snd kv)) fs \<Longrightarrow> json_ok (object fs)"
  by (rule json_ok_object) (auto simp: list_all_iff opt_ok_def)

lemma array_ok [simp]: "list_all opt_ok es \<Longrightarrow> json_ok (array es)"
  by (rule json_ok_array) (auto simp: list_all_iff opt_ok_def)

lemma versioned_ok [simp]: "json_ok x \<Longrightarrow> json_ok (versioned v x)"
  by (simp add: versioned_def object_ok)

lemma make_resource_ok [simp]: "resource_ok (make_resource t ls)" "json_ok (ToJSON (make_resource t ls))"
  by (simp_all add: wf_intros)

lemma make_Metadata_fields [simp]:
  "metadata (make_Metadata v d c t m) = m" "\<not> ignore (make_Metadata v d c t m)"
  by (simp_all add: make_Metadata_def)

lemma instance_json_gives: "gives opt_ok (instance_json H config)"
  by (auto simp: gives_def instance_json_def k8s_lift_eq meth_results returnM_def elim!: InstanceResource_Inr)

lemma GetNodeMetadata_gives [gives_rules]: "gives result_ok (GetNodeMetadata H config node collected deleted)"
  unfolding GetNodeMetadata_def Let_def
  by (intro gives_bind [of _ _ "json_call _"] gives_bind [of _ _ "k8s_env _"]
      gives_bind_result [OF instance_json_gives] gives_return)
    (simp_all add: result_ok_def del: Clone.simps)

lemma GetPodMetadata_gives: "opt_ok assoc \<Longrightarrow> gives result_ok (GetPodMetadata H config pod assoc collected deleted)"
  unfolding GetPodMetadata_def Let_def
  by (intro gives_rules) (auto simp: result_ok_def simp del: Clone.simps)

lemma GetContainerMetadata_gives:
  "opt_ok assoc \<Longrightarrow> gives result_ok (k8s_GetContainerMetadata H config pod spec status assoc collected deleted)"
  unfolding k8s_GetContainerMetadata_def Let_def
  by (intro gives_rules) (auto simp: result_ok_def simp del: Clone.simps)

lemma controllers_json_ok: "controllers_json md v = Inr c \<Longrightarrow> json_ok c"
  by (auto simp: controllers_json_def bindE_eq_Inr_iff)

lemma object_fields_ok: "list_all (\<lambda>kv. opt_ok (snd kv)) fs \<Longrightarrow> json_ok (Object (object_fields fs))"
  using object_ok [of fs] unfolding object_def .

lemma ComputePodAssociations_gives: "gives opt_ok (ComputePodAssociations fuel H config pod)"
  unfolding ComputePodAssociations_def Let_def
proof (intro gives_bind [of _ _ "json_call _"] gives_bind_result [OF instance_json_gives], rule gives_bind_result [of opt_ok])
  show "gives opt_ok (catchM
      (bindM (FindTopLevelController fuel H config ns (Clone (Object pod))) (\<lambda>top_level.
       bindM (json_call (controllers_json md top_level)) (\<lambda>c. returnM (Some c))))
      (\<lambda>e. if is_query_failure e then bindM (json_call (Get_String md ''name'')) (\<lambda>_. returnM None)
           else throwM e))" for md ns
    by (auto simp: gives_def meth_results returnM_def throwM_def dest: controllers_json_ok split: if_splits)
next
  fix md ns i c
  assume "opt_ok i" "opt_ok c"
  then show "gives opt_ok
      (bindM (json_call (Get_Object pod ''spec'')) (\<lambda>spec.
       bindM (if Has spec ''nodeName'' then bindM (json_call (Get_String spec ''nodeName'')) (\<lambda>n. returnM (Some (String n)))
              else returnM None) (\<lambda>node_name. returnM
         (if object_fields [(''infrastructureResource'', i), (''controllers'', c), (''nodeName'', node_name)] = [] then None
          else Some (versioned (metadata_ingestion_raw_content_version config)
             (Object (object_fields [(''infrastructureResource'', i), (''controllers'', c), (''nodeName'', node_name)])))))))"
    by (intro gives_bind [of _ _ "json_call (Get_Object pod _)"] gives_bind_result [of opt_ok] gives_rules)
      (auto simp del: json_ok.simps(2) intro!: versioned_ok object_fields_ok)
qed

lemma GetPodAndContainerMetadata_gives [gives_rules]:
  "gives (list_all result_ok) (GetPodAndContainerMetadata fuel H config pod collected deleted)"
  unfolding GetPodAndContainerMetadata_def
  by (intro gives_bind_result [OF ComputePodAssociations_gives] gives_bind [of _ _ "json_call _"]
      gives_bind_result [OF gives_mapM] gives_bind_result [OF GetPodMetadata_gives] gives_return)
    (simp_all add: GetContainerMetadata_gives list_all_iff)

lemma services_give: "gives (list_all json_ok) (k8s_get (GetServiceList cluster location))"
  by (auto simp: gives_def k8s_get_def getM_def GetServiceList_def service_entry_def pod_resource_def list_all_iff
      simp del: Clone.simps)

lemma GetClusterMetadata_gives [gives_rules]: "gives result_ok (GetClusterMetadata H config collected)"
  unfolding GetClusterMetadata_def
  by (intro gives_bind [of _ _ "k8s_env _"] gives_bind_result [OF services_give] gives_return)
    (simp add: result_ok_def list_all_iff)

lemma or_else_gives [gives_rules]: "gives R m \<Longrightarrow> R x \<Longrightarrow> gives R (or_else m x)"
  unfolding or_else_def by (intro gives_rules)

lemma node_results_gives: "list_all result_ok rs \<Longrightarrow> gives (list_all result_ok) (node_results H config collected ns rs)"
proof (induction ns arbitrary: rs)
  case (Cons n ns)
  have "gives (\<lambda>x. \<forall>r. x = Some r \<longrightarrow> result_ok r)
      (or_else (bindM (json_call (As_Object n)) (\<lambda>node.
         bindM (GetNodeMetadata H config node collected False) (\<lambda>r. returnM (Some r)))) None)"
    by (intro or_else_gives gives_bind [of _ _ "json_call _"] gives_bind_result [OF GetNodeMetadata_gives] gives_return)
      auto
  then show ?case
    unfolding node_results.simps
    by (rule gives_bind_result) (auto intro!: gives_rules Cons)
qed (simp add: gives_rules)

lemma gives_exception [gives_rules]:
  "gives R (f ()) \<Longrightarrow> gives R (case e of JsonException j \<Rightarrow> f () | _ \<Rightarrow> throwM e)"
  by (cases e) (simp_all add: gives_rules)

lemma pod_results_gives: "gives (list_all result_ok) (pod_results fuel H config node collected ps)"
proof (induction ps)
  case (Cons p ps)
  have "gives (list_all result_ok) (catchM
        (bindM (json_call (As_Object p)) (\<lambda>pod.
         bindM (json_call (check_pod node pod)) (\<lambda>_.
         GetPodAndContainerMetadata fuel H config pod collected False)))
        (\<lambda>e. case e of JsonException j \<Rightarrow> returnM [] | _ \<Rightarrow> throwM e))"
    by (intro gives_rules gives_exception [of _ "\<lambda>_. returnM []"]) simp
  then show ?case
    unfolding pod_results.simps
    by (rule gives_bind_result) (auto intro!: gives_return gives_bind_result [OF Cons])
qed (simp add: gives_rules)

lemma Kubernetes_MetadataQuery_gives: "gives (list_all result_ok) (Kubernetes_MetadataQuery fuel H config)"
proof -
  have "gives (list_all result_ok) (query_nodes H config n)" "gives (list_all result_ok) (query_pods fuel H config n)" for n
    unfolding query_nodes_def query_pods_def
    by (intro or_else_gives gives_bind node_results_gives pod_results_gives; simp)+
  then show ?thesis
    unfolding Kubernetes_MetadataQuery_def Let_def
    by (intro gives_bind [of _ _ "CurrentNode H config"] gives_bind_result [of "list_all result_ok"] gives_return) simp_all
qed

lemma Kubernetes_MetadataQuery_throws: "throws is_fatal (Kubernetes_MetadataQuery fuel H config)"
  unfolding Kubernetes_MetadataQuery_def query_nodes_def query_pods_def Let_def by (intro throws_rules)

text \<open>
  C14.  A query of the Kubernetes updater keeps the caches well-formed, and it either returns results or
  ends the process: failed queries and malformed documents never reach the polling loop.  Every result
  has a resource with sorted labels and well-formed, non-ignored metadata.
\<close>

theorem Kubernetes_MetadataQuery_outcome:
  assumes "k8s_ok s" and "Kubernetes_MetadataQuery fuel H config s = (outcome, t)"
  shows "k8s_ok t \<and> (case outcome of Inr rs \<Rightarrow> list_all result_ok rs | Inl e \<Rightarrow> is_fatal e)"
proof (cases outcome)
  case (Inl e)
  with assms show ?thesis
    using keepsD [OF k8s.Kubernetes_MetadataQuery_keeps] throwsD [OF Kubernetes_MetadataQuery_throws]
    by simp blast
next
  case (Inr rs)
  with assms show ?thesis
    using keepsD [OF k8s.Kubernetes_MetadataQuery_keeps] givesD [OF Kubernetes_MetadataQuery_gives]
    by simp blast
qed

theorem Kubernetes_MetadataQuery_outcome_witness:
  "case Kubernetes_MetadataQuery 5 offline_host cluster_config (sample_reader, known_environment, ()) of
     (outcome, t) \<Rightarrow> k8s_ok t \<and> (case outcome of Inr rs \<Rightarrow> list_all result_ok rs | Inl e \<Rightarrow> is_fatal e)"
proof (rule prod.split [THEN iffD2], intro allI impI)
  fix outcome t
  assume q: "Kubernetes_MetadataQuery 5 offline_host cluster_config (sample_reader, known_environment, ()) = (outcome, t)"
  have "k8s_ok (sample_reader, known_environment, ())"
    by (simp add: sample_reader_def KubernetesReader_new_def reader_ok_def sample_owner_def map_ok_def less_char_def)
  from Kubernetes_MetadataQuery_outcome [OF this q]
  show "k8s_ok t \<and> (case outcome of Inr rs \<Rightarrow> list_all result_ok rs | Inl e \<Rightarrow> is_fatal e)" .
qed

section \<open>Starting the updater\<close>

lemma CurrentNode_cached:
  "current_node (fst s) \<noteq> [] \<Longrightarrow> CurrentNode H config s = (Inr (current_node (fst s)), s)"
  by (simp add: CurrentNode_def meth_simps k8s_get_def)

lemma CurrentNode_caches:
  assumes "CurrentNode H config s = (Inr node, t)"
  shows "current_node (fst t) = node"
  using assms
  by (auto simp: CurrentNode_def meth_results returnM_def k8s_get_def k8s_modify_def getM_def modifyM_def split: if_splits)

lemma validate_finds_node:
  "Kubernetes_ValidateDynamicConfiguration H config s = (Inr x, t) \<Longrightarrow> current_node (fst t) \<noteq> []"
  by (auto simp: Kubernetes_ValidateDynamicConfiguration_def meth_results throwM_def returnM_def
      dest: CurrentNode_caches split: if_splits)

text \<open>
  What a successful start leaves behind.  With watching enabled the node and pod watches run, for
  the node the agent found (which is not empty) or for the whole cluster, the service and endpoints
  watches run exactly for cluster-level service metadata, and nothing polls.  Without watching the
  polling thread runs exactly for a positive period, and there are no watches.
\<close>

theorem Kubernetes_Start_threads:
  assumes "Start (Kubernetes_class H config) (KubernetesUpdater_new config, s) = (Inr (), u, t)"
  shows "if kubernetes_use_watch config
    then (let node = if kubernetes_cluster_level_metadata config then [] else current_node (fst t);
              services = kubernetes_cluster_level_metadata config \<and> kubernetes_service_metadata config
          in current_node (fst t) \<noteq> [] \<and> node_watch u = Some node \<and> pod_watch u = Some node
             \<and> service_watch u = services \<and> endpoints_watch u = services \<and> \<not> poll_thread (k8s_polling u))
    else node_watch u = None \<and> pod_watch u = None \<and> \<not> service_watch u \<and> \<not> endpoints_watch u
      \<and> poll_thread (k8s_polling u) = (kubernetes_updater_interval_seconds config > 0)"
proof (cases "kubernetes_use_watch config")
  case True
  then obtain s' where v: "Kubernetes_ValidateDynamicConfiguration H config s = (Inr (), s')"
    and c: "Kubernetes_StartUpdater H config (KubernetesUpdater_new config) s' = (Inr u, t)"
    using assms
    by (auto simp: Start_def Kubernetes_class_def Kubernetes_ShouldStartUpdater_def meth_simps
        split: sum.splits prod.splits)
  from validate_finds_node [OF v] have "CurrentNode H config s' = (Inr (current_node (fst s')), s')"
    by (rule CurrentNode_cached)
  with c True validate_finds_node [OF v] show ?thesis
    by (auto simp: Kubernetes_StartUpdater_def meth_simps Let_def KubernetesUpdater_new_def PollingMetadataUpdater_new_def)
next
  case False
  with assms show ?thesis
    by (auto simp: Start_def Kubernetes_class_def Kubernetes_ShouldStartUpdater_def meth_simps Kubernetes_StartUpdater_def
        KubernetesUpdater_new_def PollingMetadataUpdater_new_def polling_ValidateStatic_def polling_ShouldStart_def
        polling_StartUpdater_def Init_def split: sum.splits prod.splits if_splits)
qed

text \<open>A master that answers every query with an empty document.\<close>

definition empty_master :: "(unit, unit) host" where
  "empty_master = offline_host\<lparr>host_platform := offline\<lparr>
     http_client := (\<lambda>req w. (Inr \<lparr>resp_status = 200, resp_message = ''OK'', resp_body = []\<rparr>, w)),
     parser := \<lparr>yajl_alloc = (), yajl_parse = (\<lambda>y input. (y, [], True)), yajl_complete_parse = (\<lambda>y. (y, [], True)),
       yajl_get_bytes_consumed = (\<lambda>y. 0), yajl_get_error = (\<lambda>y. [])\<rparr>\<rparr>\<rparr>"

definition watch_config :: Configuration where
  "watch_config = cluster_config\<lparr>kubernetes_use_watch := True, kubernetes_node_name := ''n'',
     kubernetes_cluster_level_metadata := False, kubernetes_updater_interval_seconds := 0\<rparr>"

lemma empty_master_QueryMaster:
  "QueryMaster empty_master config path (KubernetesReader_new, e, ()) = (Inr None, KubernetesReader_new, e, ())"
  by (simp add: QueryMaster_def meth_simps KubernetesApiToken_def ReadServiceAccountSecret_def Let_def k8s_lift_def
      KubernetesReader_new_def query_endpoint_def empty_master_def offline_host_def offline_def json_call_def
      FromString_def FromStream_def AllFromStream_def ParseStream_def NotifyEOF_def new_parser_def feed_def
      parse_loop.simps kMax_def)

lemma empty_master_validates:
  "Kubernetes_ValidateDynamicConfiguration empty_master watch_config (KubernetesReader_new, e, ())
     = (Inr (), KubernetesReader_new\<lparr>current_node := ''n''\<rparr>, e, ())"
  by (simp add: Kubernetes_ValidateDynamicConfiguration_def validate_query_def catchM_def Retry_def retry_from.simps
      meth_simps empty_master_QueryMaster CurrentNode_def k8s_get_def k8s_modify_def)
    (simp add: KubernetesReader_new_def watch_config_def meth_simps)

theorem Kubernetes_Start_threads_witness:
  "\<exists>u t. Start (Kubernetes_class empty_master watch_config) (KubernetesUpdater_new watch_config, KubernetesReader_new, Environment_new, ())
      = (Inr (), u, t)
    \<and> node_watch u = Some (current_node (fst t)) \<and> pod_watch u = Some (current_node (fst t)) \<and> current_node (fst t) \<noteq> []
    \<and> \<not> service_watch u \<and> \<not> poll_thread (k8s_polling u)"
proof -
  have flags: "kubernetes_use_watch watch_config" "\<not> kubernetes_cluster_level_metadata watch_config"
    "kubernetes_updater_interval_seconds watch_config = 0"
    by (simp_all add: watch_config_def)
  have "\<exists>u t. Start (Kubernetes_class empty_master watch_config)
      (KubernetesUpdater_new watch_config, KubernetesReader_new, Environment_new, ()) = (Inr (), u, t)"
    using flags
    by (simp add: Start_def Kubernetes_class_def Kubernetes_ShouldStartUpdater_def meth_simps empty_master_validates
        Kubernetes_StartUpdater_def CurrentNode_cached Let_def polling_ValidateStatic_def KubernetesUpdater_new_def
        PollingMetadataUpdater_new_def)
  then obtain u t where q: "Start (Kubernetes_class empty_master watch_config)
      (KubernetesUpdater_new watch_config, KubernetesReader_new, Environment_new, ()) = (Inr (), u, t)" by blast
  from q Kubernetes_Start_threads [OF q] flags show ?thesis by (auto simp: Let_def)
qed

end
