(* ===== verification/Kubernetes_Watch.thy ===== *)
theory Kubernetes_Watch
  imports Kubernetes_Updater
begin

text \<open>
  The watches of \<^verbatim>\<open>src/kubernetes.cc\<close>: the watcher that parses the chunks of a connection into events, the
  loop that reconnects, and the four watch threads with the health checker.

  The HTTP client is a parameter.  A request either throws at once or yields the chunks the client hands
  to the watcher, each with an optional error, and what reading the body of the response throws.  The
  timers that end a silent or an old connection show as a list of chunks without a final error.  A watch
  may go on forever, so the loop over connections takes a bound on their number (\<open>fuel\<close>).
\<close>

section \<open>Connections\<close>

datatype watch_error = Eof | WatchError

record watch_response =
  chunks :: "(string \<times> watch_error option) list"
  body_failure :: "string option"

type_synonym 'w watch_client = "string \<Rightarrow> string \<Rightarrow> 'w \<Rightarrow> (string + watch_response) \<times> 'w"

text \<open>
  The handle after an exception of the event callback has passed through yajl is not documented:
  \<open>unwound\<close> is any function of the handle and the input.
\<close>

type_synonym 'y unwind = "'y \<Rightarrow> string \<Rightarrow> 'y"

section \<open>The watcher\<close>

text \<open>The event callback is called on each value as the parser completes it.\<close>

fun run_events :: "(json \<Rightarrow> ('w, unit) k8s) \<Rightarrow> json list \<Rightarrow> ('w, unit) k8s" where
  "run_events on_value [] = returnM ()"
| "run_events on_value (v # vs) = bindM (on_value v) (\<lambda>_. run_events on_value vs)"

text \<open>
  One call into the parser: the values it completes go to the callback in order; an exception of the
  callback abandons the rest of the input, and a parse error surfaces after the values before it.  JSON
  exceptions of either kind are logged.
\<close>

definition parse_events ::
  "'y unwind \<Rightarrow> string \<Rightarrow> ('y parse_state, json_exception, 'a) meth \<Rightarrow> (json \<Rightarrow> ('w, unit) k8s)
    \<Rightarrow> 'y parse_state \<Rightarrow> ('w, 'y parse_state) k8s" where
  "parse_events unwound input parse on_value p =
     (case parse p of (r, p') \<Rightarrow>
        let values = drop (length (delivered (snd p))) (delivered (snd p'))
        in catchM (bindM (run_events on_value values) (\<lambda>_. returnM p'))
             (\<lambda>e. if is_json e then returnM (unwound (fst p) input, CallbackContext []) else throwM e))"

text \<open>\<^verbatim>\<open>Watcher::operator()\<close>; the flag tells whether the service was stopped.\<close>

definition Watcher_call ::
  "'y yajl \<Rightarrow> 'y unwind \<Rightarrow> (json \<Rightarrow> ('w, unit) k8s) \<Rightarrow> string \<times> watch_error option \<Rightarrow> 'y parse_state
    \<Rightarrow> ('w, bool \<times> 'y parse_state) k8s" where
  "Watcher_call Y unwound on_value chunk p =
     bindM (if fst chunk \<noteq> [] then parse_events unwound (fst chunk) (ParseStream Y (fst chunk)) on_value p
            else returnM p) (\<lambda>p.
     case snd chunk of
       None \<Rightarrow> returnM (False, p)
     | Some Eof \<Rightarrow> bindM (parse_events unwound [] (NotifyEOF Y) on_value p) (\<lambda>p. returnM (True, p))
     | Some WatchError \<Rightarrow> returnM (True, p))"

text \<open>The service runs the calls until one stops it.\<close>

fun watch_chunks ::
  "'y yajl \<Rightarrow> 'y unwind \<Rightarrow> (json \<Rightarrow> ('w, unit) k8s) \<Rightarrow> (string \<times> watch_error option) list \<Rightarrow> 'y parse_state
    \<Rightarrow> ('w, unit) k8s" where
  "watch_chunks Y unwound on_value [] p = returnM ()"
| "watch_chunks Y unwound on_value (chunk # rest) p =
     bindM (Watcher_call Y unwound on_value chunk p) (\<lambda>(stopped, p).
     if stopped then returnM () else watch_chunks Y unwound on_value rest p)"

text \<open>
  One connection.  When the request itself throws, the watcher thread is still joinable as it goes out of
  scope, which ends the process.  The body of the response, and with it the failure of the connection, is
  only looked at for the verbose log.  \<open>Some msg\<close> is a system error that the loop handles.
\<close>

definition watch_once ::
  "('w, 'y) host \<Rightarrow> 'y unwind \<Rightarrow> 'w watch_client \<Rightarrow> Configuration \<Rightarrow> string \<Rightarrow> string \<Rightarrow> (json \<Rightarrow> ('w, unit) k8s)
    \<Rightarrow> ('w, string option) k8s" where
  "watch_once H unwound client config endpoint token on_value =
     (\<lambda>(r, e, w). case client endpoint token w of
        (Inl msg, w') \<Rightarrow> (Inl Crashed, r, e, w')
      | (Inr response, w') \<Rightarrow>
          bindM (watch_chunks (parser (host_platform H)) unwound on_value (chunks response)
                   (new_parser (parser (host_platform H)))) (\<lambda>_.
          returnM (if verbose_logging config then body_failure response else None)) (r, e, w'))"

definition backoff :: "nat \<Rightarrow> rat" where
  "backoff failures = min ((3 / 2) ^ failures) 30"

fun watch_loop ::
  "nat \<Rightarrow> ('w, 'y) host \<Rightarrow> Configuration \<Rightarrow> string \<Rightarrow> ('w, string option) k8s \<Rightarrow> int \<Rightarrow> nat \<Rightarrow> ('w, unit) k8s" where
  "watch_loop fuel H config endpoint connect i failures =
     (let retries = kubernetes_updater_watch_connection_retries config in
      if \<not> (retries \<le> 0 \<or> i < retries) then returnM ()
      else case fuel of
          0 \<Rightarrow> throwM OutOfFuel
        | Suc n \<Rightarrow>
            bindM connect (\<lambda>failure.
            case failure of
              None \<Rightarrow> watch_loop n H config endpoint connect (i + 1) 0
            | Some msg \<Rightarrow>
                let failures = failures + 1 in
                if int failures > kubernetes_updater_watch_max_connection_failures config
                then throwM (QueryException (endpoint @ '' -> '' @ msg))
                else bindM (modifyM (\<lambda>(r, e, w). (r, e, sleep_for H (backoff failures) w))) (\<lambda>_.
                     watch_loop n H config endpoint connect (i + 1) failures)))"

declare watch_loop.simps [simp del]

definition kWatchParam :: string where "kWatchParam = ''watch=true''"

definition watch_endpoint :: "Configuration \<Rightarrow> string \<Rightarrow> string" where
  "watch_endpoint config path =
     kubernetes_endpoint_host config @ path @ (if str_find path ''?'' 0 = None then ''?'' else ''&'') @ kWatchParam"

definition WatchMaster ::
  "nat \<Rightarrow> ('w, 'y) host \<Rightarrow> 'y unwind \<Rightarrow> 'w watch_client \<Rightarrow> Configuration \<Rightarrow> string
    \<Rightarrow> (json_object \<Rightarrow> time_point \<Rightarrow> bool \<Rightarrow> ('w, unit) k8s) \<Rightarrow> ('w, unit) k8s" where
  "WatchMaster fuel H unwound client config path on_event =
     bindM (KubernetesApiToken H) (\<lambda>token.
     let endpoint = watch_endpoint config path
     in watch_loop fuel H config endpoint
          (watch_once H unwound client config endpoint token (WatchEventCallback H on_event)) 0 0)"

section \<open>The watch threads\<close>

text \<open>
  The handlers log, and a thread that ends marks its component as unhealthy.  The state has the health
  checker in front, absent when the pointer is null.
\<close>

definition watch_thread ::
  "string \<Rightarrow> ('w, unit) k8s \<Rightarrow> (HealthChecker option \<times> 'w k8s_state, reader_exception, unit) meth" where
  "watch_thread component watch =
     (\<lambda>(hc, s). case or_else watch () s of
        (Inl e, t) \<Rightarrow> (Inl e, hc, t)
      | (Inr _, t) \<Rightarrow> (Inr (), map_option (SetUnhealthy component) hc, t))"

definition WatchPods ::
  "nat \<Rightarrow> nat \<Rightarrow> ('w, 'y) host \<Rightarrow> 'y unwind \<Rightarrow> 'w watch_client \<Rightarrow> Configuration \<Rightarrow> string \<Rightarrow> 'w update_callback
    \<Rightarrow> (HealthChecker option \<times> 'w k8s_state, reader_exception, unit) meth" where
  "WatchPods fuel depth H unwound client config node_name update =
     watch_thread ''kubernetes_pod_thread''
       (WatchMaster fuel H unwound client config
          (kKubernetesEndpointPath @ ''/pods'' @ kNodeSelectorPrefix @ node_name @ pod_label_selector config)
          (PodCallback depth H config update))"

definition WatchNodes ::
  "nat \<Rightarrow> ('w, 'y) host \<Rightarrow> 'y unwind \<Rightarrow> 'w watch_client \<Rightarrow> Configuration \<Rightarrow> string \<Rightarrow> 'w update_callback
    \<Rightarrow> (HealthChecker option \<times> 'w k8s_state, reader_exception, unit) meth" where
  "WatchNodes fuel H unwound client config node_name update =
     watch_thread ''kubernetes_node_thread''
       (WatchMaster fuel H unwound client config (kKubernetesEndpointPath @ ''/watch/nodes/'' @ node_name)
          (NodeCallback H config update))"

definition WatchServices ::
  "nat \<Rightarrow> ('w, 'y) host \<Rightarrow> 'y unwind \<Rightarrow> 'w watch_client \<Rightarrow> Configuration \<Rightarrow> 'w update_callback
    \<Rightarrow> (HealthChecker option \<times> 'w k8s_state, reader_exception, unit) meth" where
  "WatchServices fuel H unwound client config update =
     watch_thread ''kubernetes_service_thread''
       (WatchMaster fuel H unwound client config (kKubernetesEndpointPath @ ''/watch/services/'')
          (ServiceCallback H config update))"

definition WatchEndpoints ::
  "nat \<Rightarrow> ('w, 'y) host \<Rightarrow> 'y unwind \<Rightarrow> 'w watch_client \<Rightarrow> Configuration \<Rightarrow> 'w update_callback
    \<Rightarrow> (HealthChecker option \<times> 'w k8s_state, reader_exception, unit) meth" where
  "WatchEndpoints fuel H unwound client config update =
     watch_thread ''kubernetes_endpoints_thread''
       (WatchMaster fuel H unwound client config (kKubernetesEndpointPath @ ''/watch/endpoints/'')
          (EndpointsCallback H config update))"

section \<open>Events of a stream\<close>

lemma delivered_AddValue: "prefix (delivered c) (delivered (AddValue v c))"
  by (induction v c rule: AddValue.induct) auto

lemma delivered_contexts [simp]:
  "delivered (PushArray c) = delivered c" "delivered (PushObject c) = delivered c"
  "PopArray c = Some (es, p) \<Longrightarrow> delivered p = delivered c"
  "PopObject c = Some (fs, p) \<Longrightarrow> delivered p = delivered c"
  "delivered (snd (NewField n c)) = delivered c"
  by (cases c; simp add: PushArray_def PushObject_def)+

lemma delivered_callback: "prefix (delivered c) (delivered (snd (callback ev c)))"
proof -
  have "prefix (delivered c) (delivered (AddValue v p))" if "delivered p = delivered c" for p v
    using delivered_AddValue [of p v] that by simp
  then show ?thesis
    by (cases ev)
      (simp_all add: handle_null_def handle_bool_def handle_string_def handle_integer_def handle_double_def
        handle_start_array_def handle_end_array_def handle_start_map_def handle_map_key_def handle_end_map_def
        split: option.split)
qed

lemma delivered_run: "prefix (delivered c) (delivered (snd (run_callbacks evs c)))"
proof (induction evs arbitrary: c)
  case (Cons ev evs)
  obtain ok c' where ev: "callback ev c = (ok, c')" by (metis surj_pair)
  with delivered_callback [of c ev] Cons [of c'] show ?case
    by (auto intro: prefix_order.trans)
qed simp

lemma delivered_feed: "feed r c = (ok, p) \<Longrightarrow> prefix (delivered c) (delivered (snd p))"
  using delivered_run by (cases r) (auto simp: feed_simp)

text \<open>The values completed between two states of the parser.\<close>

definition new_values :: "'y parse_state \<Rightarrow> 'y parse_state \<Rightarrow> json list" where
  "new_values p p' = drop (length (delivered (snd p))) (delivered (snd p'))"

lemma new_values_append:
  "prefix (delivered (snd p)) (delivered (snd p1)) \<Longrightarrow> prefix (delivered (snd p1)) (delivered (snd p2)) \<Longrightarrow>
     new_values p p2 = new_values p p1 @ new_values p1 p2"
  by (auto simp: new_values_def prefix_def)

lemma run_events_append: "run_events on_value (vs @ ws) = bindM (run_events on_value vs) (\<lambda>_. run_events on_value ws)"
  by (induction vs) (simp_all add: bindM_assoc)

lemma run_events_throws: "(\<And>v. throws X (on_value v)) \<Longrightarrow> throws X (run_events on_value vs)"
  by (induction vs) (auto intro!: throws_rules)

text \<open>A computation that, from the given state, ends without a JSON exception.\<close>

definition no_json :: "('s, reader_exception, 'a) meth \<Rightarrow> 's \<Rightarrow> bool" where
  "no_json m s \<longleftrightarrow> (\<forall>e. fst (m s) = Inl e \<longrightarrow> \<not> is_json e)"

lemma no_json_bind:
  "no_json (bindM m f) s \<Longrightarrow> no_json m s"
  "no_json (bindM m f) s \<Longrightarrow> m s = (Inr x, t) \<Longrightarrow> no_json (f x) t"
  by (auto simp: no_json_def bindM_def split: prod.splits sum.splits)

lemma bindM_cong_at:
  "(\<And>x t. m s = (Inr x, t) \<Longrightarrow> f x t = g x t) \<Longrightarrow> bindM m f s = bindM m g s"
  by (auto simp: bindM_def split: prod.split sum.split)

lemma parse_events_run:
  assumes "parse p = (r, p')" and "no_json (run_events on_value (new_values p p')) s"
  shows "parse_events unwound input parse on_value p s = bindM (run_events on_value (new_values p p')) (\<lambda>_. returnM p') s"
  using assms(2) unfolding parse_events_def Let_def assms(1) new_values_def
  by (auto simp: no_json_def catchM_def throwM_def bindM_def returnM_def split: prod.split sum.split)

lemma Watcher_call_parses:
  assumes "b \<noteq> []" and "ParseStream Y b p = (r, p')" and "no_json (run_events on_value (new_values p p')) s"
  shows "watch_chunks Y unwound on_value ((b, None) # rest) p s =
    bindM (run_events on_value (new_values p p')) (\<lambda>_. watch_chunks Y unwound on_value rest p') s"
proof -
  have "Watcher_call Y unwound on_value (b, None) p s =
      bindM (run_events on_value (new_values p p')) (\<lambda>_. returnM (False, p')) s"
    using assms(1) parse_events_run [of "ParseStream Y b", OF assms(2,3), of unwound b]
    by (simp add: Watcher_call_def) (simp add: bindM_def returnM_def split: prod.split sum.split)
  then show ?thesis by (simp add: bindM_def returnM_def del: watch_chunks.simps(1) split: prod.split sum.split)
qed

lemma watch_chunks_feed:
  assumes Y: "yajl_incremental Y" and "list_all (\<lambda>b. b \<noteq> []) (b # bs)"
    and "feed (yajl_parse Y (fst p) (concat (b # bs))) (snd p) = (True, p')"
    and "no_json (run_events on_value (new_values p p')) s"
  shows "watch_chunks Y unwound on_value (map (\<lambda>b. (b, None)) (b # bs) @ rest) p s
    = bindM (run_events on_value (new_values p p')) (\<lambda>_. watch_chunks Y unwound on_value rest p') s"
  using assms(2-4)
proof (induction bs arbitrary: b p s)
  case Nil
  then obtain n where "ParseStream Y b p = (Inr n, p')"
    using parse_loop_whole [OF Y, of p b True p' 0] by (auto simp: ParseStream_def)
  with Nil show ?case by (simp add: Watcher_call_parses del: watch_chunks.simps)
next
  case (Cons b' bs)
  obtain ok p1 where p1: "feed (yajl_parse Y (fst p) b) (snd p) = (ok, p1)" by (metis surj_pair)
  with feed_incremental [OF Y, of "fst p" b "snd p" ok "fst p1" "snd p1" "concat (b' # bs)"] Cons.prems(2)
  have ok and rest: "feed (yajl_parse Y (fst p1) (concat (b' # bs))) (snd p1) = (True, p')"
    by (auto split: if_splits)
  then obtain n where n: "ParseStream Y b p = (Inr n, p1)"
    using parse_loop_whole [OF Y p1, of 0] by (auto simp: ParseStream_def)
  have vals: "new_values p p' = new_values p p1 @ new_values p1 p'"
    using delivered_feed [OF p1] delivered_feed [OF rest] by (intro new_values_append) simp_all
  note quiet = Cons.prems(3) [unfolded vals run_events_append]
  have "watch_chunks Y unwound on_value (map (\<lambda>b. (b, None)) (b # b' # bs) @ rest) p s =
      bindM (run_events on_value (new_values p p1))
        (\<lambda>_. watch_chunks Y unwound on_value (map (\<lambda>b. (b, None)) (b' # bs) @ rest) p1) s"
    using Cons.prems(1) Watcher_call_parses [OF _ n no_json_bind(1) [OF quiet]] by (simp del: watch_chunks.simps)
  also have "\<dots> = bindM (run_events on_value (new_values p p1)) (\<lambda>_.
      bindM (run_events on_value (new_values p1 p')) (\<lambda>_. watch_chunks Y unwound on_value rest p')) s"
    using Cons.prems(1) by (intro bindM_cong_at Cons.IH [OF _ rest] no_json_bind(2) [OF quiet]) auto
  finally show ?case by (simp add: vals run_events_append bindM_assoc)
qed

section \<open>Exceptions of a connection\<close>

lemma throws_not: "throws (\<lambda>e. e \<noteq> x) m \<Longrightarrow> fst (m s) \<noteq> Inl x"
  by (cases "m s") (auto dest: throwsD)

text \<open>JSON exceptions of the events stay inside the watcher; \<open>X\<close> are the others that may leave it.\<close>

lemma parse_events_throws:
  assumes "\<And>v. throws (\<lambda>e. is_json e \<or> X e) (on_value v)"
  shows "throws X (parse_events unwound input parse on_value p)"
proof -
  have "throws X (catchM (bindM (run_events on_value vs) (\<lambda>_. returnM p'))
     (\<lambda>e. if is_json e then returnM (unwound (fst p) input, CallbackContext []) else throwM e))" for vs p'
    by (rule throws_catch [where Y = "\<lambda>e. is_json e \<or> X e"])
      (auto intro!: throws_rules run_events_throws assms)
  then show ?thesis
    unfolding parse_events_def Let_def by (auto split: prod.split)
qed

lemma watch_chunks_throws:
  assumes "\<And>v. throws (\<lambda>e. is_json e \<or> X e) (on_value v)"
  shows "throws X (watch_chunks Y unwound on_value cs p)"
proof (induction cs arbitrary: p)
  case (Cons c cs)
  have "throws X (Watcher_call Y unwound on_value c p)"
    unfolding Watcher_call_def
    by (intro throws_bind) (auto intro!: throws_rules parse_events_throws assms split: watch_error.split option.split)
  with Cons show ?case
    by (auto intro!: throws_rules split: prod.split)
qed (simp add: throws_rules)

lemma watch_once_throws:
  assumes "\<And>v. throws (\<lambda>e. is_json e \<or> X e) (on_value v)" and "X Crashed"
  shows "throws X (watch_once H unwound client config endpoint token on_value)"
  using assms(2) unfolding throws_def watch_once_def
  by (auto simp: meth_results returnM_def split: prod.splits sum.splits
      dest: throwsD [OF watch_chunks_throws [OF assms(1)]])

lemma WatchEventCallback_throws:
  assumes "\<And>obj t d. throws X (on_event obj t d)" and "\<And>j. X (JsonException j)"
  shows "throws X (WatchEventCallback H on_event raw)"
  unfolding WatchEventCallback_def by (intro throws_rules assms)

section \<open>The reconnecting loop\<close>

text \<open>Enough fuel for a bounded number of connections.\<close>

lemma watch_loop_bounded:
  assumes "throws (\<lambda>e. e \<noteq> OutOfFuel) connect"
    and "0 < kubernetes_updater_watch_connection_retries config"
    and "kubernetes_updater_watch_connection_retries config - i \<le> int fuel"
  shows "throws (\<lambda>e. e \<noteq> OutOfFuel) (watch_loop fuel H config endpoint connect i failures)"
  using assms(3)
proof (induction fuel arbitrary: i failures)
  case 0
  with assms(2) show ?case
    by (subst watch_loop.simps) (simp add: Let_def throws_rules)
next
  case (Suc n)
  then have IH: "throws (\<lambda>e. e \<noteq> OutOfFuel) (watch_loop n H config endpoint connect (i + 1) f)" for f
    by simp
  show ?case
    by (subst watch_loop.simps) (auto simp: Let_def intro!: throws_rules assms(1) IH)
qed

text \<open>The waits after \<open>n\<close> failed connections that follow \<open>k\<close> others.\<close>

definition waits :: "('w, 'y) host \<Rightarrow> nat \<Rightarrow> nat \<Rightarrow> 'w \<Rightarrow> 'w" where
  "waits H k n = fold (\<lambda>i. sleep_for H (backoff i)) [Suc k..<Suc (k + n)]"

lemma waits_simps [simp]: "waits H k 0 w = w"
  "waits H k (Suc n) w = waits H (Suc k) n (sleep_for H (backoff (Suc k)) w)"
  by (simp_all add: waits_def upt_conv_Cons [of "Suc k" "Suc (Suc (k + n))"] del: upt_Suc)




section \<open>Properties\<close>

text \<open>
  C17.  A connection of a watch that brings a stream of JSON documents in non-empty chunks and ends with the end
  of file: every document goes to the event callback, once and in order, however the stream is cut into
  chunks, given that yajl accepts its input piecewise, that the whole stream parses, and that handling these
  documents one after the other, from the state at the start, ends without a JSON exception.  (Such an
  exception drops the rest of the chunk, so then the cuts do matter.)
\<close>

theorem Watcher_chunking:
  assumes "yajl_incremental Y"
    and "list_all (\<lambda>b. b \<noteq> []) bodies" and "bodies \<noteq> []"
    and "AllFromString Y (concat bodies) = Inr vs"
    and "\<forall>e. fst (run_events (WatchEventCallback H on_event) vs s) = Inl e \<longrightarrow> \<not> is_json e"
  shows "watch_chunks Y unwound (WatchEventCallback H on_event)
      (map (\<lambda>b. (b, None)) bodies @ [([], Some Eof)]) (new_parser Y) s
    = run_events (WatchEventCallback H on_event) vs s"
proof -
  let ?on_value = "WatchEventCallback H on_event"
  obtain b bs where bodies: "bodies = b # bs" using assms(3) by (cases bodies) auto
  obtain ok p where p: "feed (yajl_parse Y (fst (new_parser Y)) (concat bodies)) (snd (new_parser Y)) = (ok, p)"
    by (metis surj_pair)
  from parse_loop_whole [OF assms(1) p, of 0] assms(4) obtain n t where
    ok: ok and parsed: "ParseStream Y (concat bodies) (new_parser Y) = (Inr n, p)"
    and eof: "NotifyEOF Y p = (Inr (), t)" and vs: "vs = delivered (snd t)"
    by (auto simp: AllFromString_def AllFromStream_def ParseStream_def meth_results bindM_def
        split: prod.splits sum.splits if_splits)
  have "feed (yajl_complete_parse Y (fst p)) (snd p) = (True, t)"
    using eof by (auto simp: NotifyEOF_def split: prod.splits if_splits)
  then have "new_values (new_parser Y) t = new_values (new_parser Y) p @ new_values p t"
    using delivered_feed [OF p] by (intro new_values_append) (auto dest: delivered_feed)
  moreover have "new_values (new_parser Y) t = vs"
    by (simp add: new_values_def new_parser_def vs)
  ultimately have vals: "vs = new_values (new_parser Y) p @ new_values p t" by simp
  have quiet: "no_json (bindM (run_events ?on_value (new_values (new_parser Y) p))
      (\<lambda>_. run_events ?on_value (new_values p t))) s"
    using assms(5) by (simp add: no_json_def vals run_events_append)
  have "watch_chunks Y unwound ?on_value (map (\<lambda>b. (b, None)) bodies @ [([], Some Eof)]) (new_parser Y) s =
      bindM (run_events ?on_value (new_values (new_parser Y) p))
        (\<lambda>_. watch_chunks Y unwound ?on_value [([], Some Eof)] p) s"
    using watch_chunks_feed [OF assms(1), of b bs "new_parser Y" p ?on_value s unwound "[([], Some Eof)]"]
      assms(2) p ok no_json_bind(1) [OF quiet] by (simp add: bodies)
  also have "\<dots> = bindM (run_events ?on_value (new_values (new_parser Y) p))
      (\<lambda>_. run_events ?on_value (new_values p t)) s"
  proof (rule bindM_cong_at)
    fix x u
    assume "run_events ?on_value (new_values (new_parser Y) p) s = (Inr x, u)"
    from parse_events_run [of "NotifyEOF Y", OF eof no_json_bind(2) [OF quiet this], of unwound "[]"]
    show "watch_chunks Y unwound ?on_value [([], Some Eof)] p u = run_events ?on_value (new_values p t) u"
      by (simp add: Watcher_call_def bindM_assoc) (simp add: bindM_def returnM_def split: prod.split sum.split)
  qed
  finally show ?thesis by (simp add: vals run_events_append)
qed


text \<open>
  With a positive number of connection retries a watch ends: that many connections are enough,
  provided each of them ends and the handling of its events does.
\<close>

theorem WatchMaster_bounded:
  assumes "0 < kubernetes_updater_watch_connection_retries config"
    and "kubernetes_updater_watch_connection_retries config \<le> int fuel"
    and "\<And>obj t d. throws (\<lambda>e. e \<noteq> OutOfFuel) (on_event obj t d)"
  shows "fst (WatchMaster fuel H unwound client config path on_event s) \<noteq> Inl OutOfFuel"
proof -
  have "throws (\<lambda>e. e \<noteq> OutOfFuel) (WatchEventCallback H on_event raw)" for raw
    by (rule WatchEventCallback_throws) (simp_all add: assms)
  then have "throws (\<lambda>e. is_json e \<or> e \<noteq> OutOfFuel) (WatchEventCallback H on_event raw)" for raw
    by (rule throws_mono) simp
  then have "throws (\<lambda>e. e \<noteq> OutOfFuel) (watch_once H unwound client config endpoint token (WatchEventCallback H on_event))"
    for endpoint token
    by (rule watch_once_throws) simp
  then have "throws (\<lambda>e. e \<noteq> OutOfFuel) (WatchMaster fuel H unwound client config path on_event)"
    unfolding WatchMaster_def Let_def
    using assms(1,2) by (intro throws_bind secrets_throw watch_loop_bounded) simp_all
  then show ?thesis by (rule throws_not)
qed




text \<open>A parser that reads one event per character.\<close>

definition event_reader :: "nat yajl" where
  "event_reader = \<lparr>yajl_alloc = 0,
     yajl_parse = (\<lambda>y s. (y + length s,
       concat (map (\<lambda>c. [CbStartMap, CbMapKey ''type'', CbString ''ADDED'', CbMapKey ''object'', CbStartMap,
         CbMapKey ''name'', CbString [c], CbEndMap, CbEndMap]) s), True)),
     yajl_complete_parse = (\<lambda>y. (y, [], True)), yajl_get_bytes_consumed = id, yajl_get_error = (\<lambda>_. [])\<rparr>"

definition read_event :: "char \<Rightarrow> json" where
  "read_event c = Object [(''object'', Object [(''name'', String [c])]), (''type'', String ''ADDED'')]"

text \<open>An event callback that notes the name of the object it gets.\<close>

definition note_name :: "json_object \<Rightarrow> time_point \<Rightarrow> bool \<Rightarrow> (unit, unit) k8s" where
  "note_name obj t deleted =
     bindM (json_call (Get_String obj ''name'')) (\<lambda>n. k8s_modify (\<lambda>r. r\<lparr>current_node := current_node r @ n\<rparr>))"

lemma read_event_noted:
  "WatchEventCallback offline_host note_name (read_event c) (r, e, w) =
     (Inr (), r\<lparr>current_node := current_node r @ [c]\<rparr>, e, w)"
  by (simp add: WatchEventCallback_def read_event_def note_name_def meth_simps json_call_def json_access_simps
      k8s_lift_def k8s_modify_def offline_host_def now_def offline_def)

theorem Watcher_chunking_witness:
  "watch_chunks event_reader (\<lambda>y input. y) (WatchEventCallback offline_host note_name)
      (map (\<lambda>b. (b, None)) [''a'', ''bc''] @ [([], Some Eof)]) (new_parser event_reader)
      (KubernetesReader_new, Environment_new, ())
    = (Inr (), KubernetesReader_new\<lparr>current_node := ''abc''\<rparr>, Environment_new, ())"
proof -
  let ?vs = "map read_event ''abc''" and ?s = "(KubernetesReader_new, Environment_new, ())"
  have "AllFromString event_reader (concat [''a'', ''bc'']) = Inr ?vs"
    by (simp add: AllFromString_def AllFromStream_def ParseStream_def NotifyEOF_def parse_loop.simps kMax_def
        event_reader_def new_parser_def feed_simp meth_simps read_event_def handle_start_map_def handle_map_key_def
        handle_string_def handle_end_map_def PushObject_def object_of_map_def less_char_def
        map_emplace_all_def)
  moreover have "yajl_incremental event_reader"
    by (simp add: yajl_incremental_def event_reader_def)
  moreover have run: "run_events (WatchEventCallback offline_host note_name) ?vs ?s =
      (Inr (), KubernetesReader_new\<lparr>current_node := ''abc''\<rparr>, Environment_new, ())"
    by (simp add: meth_simps read_event_noted) (simp add: KubernetesReader_new_def)
  ultimately show ?thesis
    using Watcher_chunking [of event_reader "[''a'', ''bc'']" ?vs offline_host note_name ?s "\<lambda>y input. y"] by simp
qed

theorem WatchMaster_bounded_witness:
  "fst (WatchMaster 3 offline_host (\<lambda>y input. ())
      (\<lambda>endpoint token w. (Inr \<lparr>chunks = [([], Some WatchError)], body_failure = Some ''refused''\<rparr>, w))
      (instance_config\<lparr>kubernetes_updater_watch_connection_retries := 3\<rparr>)
      ''/api'' (\<lambda>obj t d. returnM ()) (KubernetesReader_new, Environment_new, ())) \<noteq> Inl OutOfFuel"
  by (rule WatchMaster_bounded) (simp_all add: throws_rules)

end
