(* ===== verification/Agent.thy ===== *)
theory Agent
  imports Docker Kubernetes_Watch Reporter Api_Server
begin

text \<open>
  The agent and its main program (\<^verbatim>\<open>src/agent.h\<close>, \<^verbatim>\<open>src/agent.cc\<close>, \<^verbatim>\<open>src/metadatad.cc\<close>): construction, start of the
  updaters and of the server, the wait of the main thread and the shutdown on SIGTERM.

  Each updater has a reader with an environment of its own; the world is shared.  An operation that
  dereferences a null pointer or unlocks a mutex that is not locked is undefined and yields \<open>None\<close>.
\<close>

section \<open>The agent\<close>

datatype api_server_state = Serving nat | ServerStopped

record MetadataAgent =
  agent_store :: MetadataStore
  agent_health :: HealthChecker
  agent_api_server :: "api_server_state option"
  agent_reporter :: "(rat \<times> timer) option"

definition MetadataAgent_new :: MetadataAgent where
  "MetadataAgent_new =
     \<lparr>agent_store = empty_store, agent_health = \<lparr>unhealthy_components = []\<rparr>, agent_api_server = None,
      agent_reporter = None\<rparr>"

definition Agent_Start :: "Configuration \<Rightarrow> MetadataAgent \<Rightarrow> MetadataAgent" where
  "Agent_Start config a =
     a\<lparr>agent_api_server := Some (Serving (nat (metadata_api_num_threads config))),
       agent_reporter := Some (of_int (metadata_reporter_interval_seconds config), \<lparr>timer_locked = False\<rparr>)\<rparr>"

text \<open>Stopping does not notify the reporter.\<close>

definition Agent_Stop :: "MetadataAgent \<Rightarrow> MetadataAgent option" where
  "Agent_Stop a =
     (case agent_api_server a of
        None \<Rightarrow> None
      | Some _ \<Rightarrow> Some (a\<lparr>agent_api_server := Some ServerStopped\<rparr>))"

section \<open>The main program\<close>

record 'w daemon =
  d_server :: MetadataAgent
  d_instance :: "PollingMetadataUpdater \<times> Environment"
  d_docker :: "PollingMetadataUpdater \<times> Environment"
  d_kubernetes :: "KubernetesUpdater \<times> KubernetesReader \<times> Environment"
  d_world :: 'w
  server_wait_locked :: bool

text \<open>The objects of \<^verbatim>\<open>main\<close>; the constructor of the cleanup state locks its mutex.\<close>

definition daemon_new :: "Configuration \<Rightarrow> 'w \<Rightarrow> 'w daemon" where
  "daemon_new config w =
     \<lparr>d_server = MetadataAgent_new,
      d_instance = (InstanceUpdater_new config, Environment_new),
      d_docker = (DockerUpdater_new config, Environment_new),
      d_kubernetes = (KubernetesUpdater_new config, KubernetesReader_new, Environment_new),
      d_world = w, server_wait_locked = True\<rparr>"

text \<open>A method of one updater, run on the whole.\<close>

definition on_instance ::
  "(PollingMetadataUpdater \<times> 'w reader_state, 'e, 'a) meth \<Rightarrow> ('w daemon, 'e, 'a) meth" where
  "on_instance m d =
     (case m (fst (d_instance d), snd (d_instance d), d_world d) of
        (x, u, env, w) \<Rightarrow> (x, d\<lparr>d_instance := (u, env), d_world := w\<rparr>))"

definition on_docker ::
  "(PollingMetadataUpdater \<times> 'w reader_state, 'e, 'a) meth \<Rightarrow> ('w daemon, 'e, 'a) meth" where
  "on_docker m d =
     (case m (fst (d_docker d), snd (d_docker d), d_world d) of
        (x, u, env, w) \<Rightarrow> (x, d\<lparr>d_docker := (u, env), d_world := w\<rparr>))"

definition on_kubernetes ::
  "(KubernetesUpdater \<times> 'w k8s_state, 'e, 'a) meth \<Rightarrow> ('w daemon, 'e, 'a) meth" where
  "on_kubernetes m d =
     (case m (fst (d_kubernetes d), fst (snd (d_kubernetes d)), snd (snd (d_kubernetes d)), d_world d) of
        (x, u, r, env, w) \<Rightarrow> (x, d\<lparr>d_kubernetes := (u, r, env), d_world := w\<rparr>))"

definition daemon_start :: "('w, 'y) host \<Rightarrow> Configuration \<Rightarrow> ('w daemon, start_error, unit) meth" where
  "daemon_start H config =
     bindM (on_instance (Start Instance_class)) (\<lambda>_.
     bindM (on_docker (Start (Docker_class H config))) (\<lambda>_.
     bindM (on_kubernetes (Start (Kubernetes_class H config))) (\<lambda>_.
     modifyM (\<lambda>d. d\<lparr>d_server := Agent_Start config (d_server d)\<rparr>))))"

text \<open>What the shutdown does: the server, the updaters in order, then the mutex of the main thread.\<close>

definition StartShutdown :: "('w, 'y) host \<Rightarrow> Configuration \<Rightarrow> 'w daemon \<Rightarrow> 'w daemon option" where
  "StartShutdown H config d =
     (case Agent_Stop (d_server d) of
        None \<Rightarrow> None
      | Some server \<Rightarrow>
     (case NotifyStop Instance_class (fst (d_instance d), snd (d_instance d), d_world d) of
        None \<Rightarrow> None
      | Some (inst, inst_env, w) \<Rightarrow>
     (case NotifyStop (Docker_class H config) (fst (d_docker d), snd (d_docker d), w) of
        None \<Rightarrow> None
      | Some (dock, dock_env, w) \<Rightarrow>
     (case NotifyStop (Kubernetes_class H config)
             (fst (d_kubernetes d), fst (snd (d_kubernetes d)), snd (snd (d_kubernetes d)), w) of
        None \<Rightarrow> None
      | Some (kube, reader, kube_env, w) \<Rightarrow>
          if server_wait_locked d
          then Some \<lparr>d_server = server, d_instance = (inst, inst_env), d_docker = (dock, dock_env),
                 d_kubernetes = (kube, reader, kube_env), d_world = w, server_wait_locked = False\<rparr>
          else None))))"

text \<open>
  The start of \<^verbatim>\<open>main\<close>: it exits at once, ends with an uncaught exception, or waits for the shutdown.
\<close>

datatype 'w main_outcome = Exits int | Uncaught | Waiting Configuration "'w daemon"

definition main ::
  "('w, 'y) host \<Rightarrow> string \<Rightarrow> 'n yaml \<Rightarrow> (string \<Rightarrow> string) \<Rightarrow> (string list \<Rightarrow> flags option) \<Rightarrow> string list \<Rightarrow> 'w
    \<Rightarrow> 'w main_outcome" where
  "main H agent_version Y file command_line av w =
     (case ParseArguments agent_version Y file command_line av (Configuration_new agent_version) of
        (Inl e, config) \<Rightarrow> Uncaught
      | (Inr parse_result, config) \<Rightarrow>
          if parse_result \<noteq> 0 then Exits (if parse_result < 0 then 0 else parse_result)
          else (case daemon_start H config (daemon_new config w) of
             (Inl e, d) \<Rightarrow> Uncaught
           | (Inr _, d) \<Rightarrow> Waiting config d))"

text \<open>The exit status of the signal handler; undefined when the shutdown is.\<close>

definition handle_sigterm :: "('w, 'y) host \<Rightarrow> Configuration \<Rightarrow> 'w daemon \<Rightarrow> int option" where
  "handle_sigterm H config d = map_option (\<lambda>_. 0) (StartShutdown H config d)"

section \<open>Starting and stopping\<close>

lemma polling_started:
  assumes "Start (polling_subclass validate) (PollingMetadataUpdater_new p, s) = (Inr (), u, t)"
  shows "0 \<le> p \<and> timer_locked (poll_timer u) = (0 < p) \<and> poll_thread u = (0 < p)"
  using assms
  by (auto simp: Start_polling_subclass PollingMetadataUpdater_new_def polling_StartUpdater_def Init_def
      split: if_splits prod.splits sum.splits)

lemma NotifyStop_subclass:
  "NotifyStop (polling_subclass validate) (u, s) =
     (if timer_locked (poll_timer u) then Some (u\<lparr>poll_timer := (poll_timer u)\<lparr>timer_locked := False\<rparr>\<rparr>, s) else None)"
  by (simp add: NotifyStop_def polling_subclass_def polling_NotifyStop_def Cancel_def)

lemma Kubernetes_started:
  assumes "Start (Kubernetes_class H config) (KubernetesUpdater_new config, s) = (Inr (), u, t)"
  shows "timer_locked (poll_timer (k8s_polling u))
    = (\<not> kubernetes_use_watch config \<and> 0 < kubernetes_updater_interval_seconds config)"
  using assms
  by (auto simp: Start_def Kubernetes_class_def Kubernetes_ShouldStartUpdater_def meth_simps Kubernetes_StartUpdater_def
      KubernetesUpdater_new_def PollingMetadataUpdater_new_def polling_ValidateStatic_def polling_ShouldStart_def
      polling_StartUpdater_def Init_def Let_def split: sum.splits prod.splits if_splits)

lemma NotifyStop_kubernetes:
  "NotifyStop (Kubernetes_class H config) (u, s) =
     (if kubernetes_use_watch config then Some (u, s)
      else if timer_locked (poll_timer (k8s_polling u))
      then Some (u\<lparr>k8s_polling := (k8s_polling u)\<lparr>poll_timer := (poll_timer (k8s_polling u))\<lparr>timer_locked := False\<rparr>\<rparr>\<rparr>, s)
      else None)"
  by (simp add: NotifyStop_def Kubernetes_class_def Kubernetes_NotifyStopUpdater_def polling_NotifyStop_def Cancel_def)

lemma daemon_started:
  assumes "daemon_start H config (daemon_new config w) = (Inr (), d)"
  shows "timer_locked (poll_timer (fst (d_instance d))) = (0 < instance_updater_interval_seconds config)"
    and "timer_locked (poll_timer (fst (d_docker d))) = (0 < docker_updater_interval_seconds config)"
    and "timer_locked (poll_timer (k8s_polling (fst (d_kubernetes d))))
      = (\<not> kubernetes_use_watch config \<and> 0 < kubernetes_updater_interval_seconds config)"
    and "agent_api_server (d_server d) = Some (Serving (nat (metadata_api_num_threads config)))"
    and "server_wait_locked d"
proof -
  let ?i = "(InstanceUpdater_new config, Environment_new, w)"
  obtain d1 d2 d3 where
    1: "on_instance (Start Instance_class) (daemon_new config w) = (Inr (), d1)" and
    2: "on_docker (Start (Docker_class H config)) d1 = (Inr (), d2)" and
    3: "on_kubernetes (Start (Kubernetes_class H config)) d2 = (Inr (), d3)" and
    4: "d = d3\<lparr>d_server := Agent_Start config (d_server d3)\<rparr>"
    using assms by (auto simp: daemon_start_def bindM_Inr modifyM_def)
  from 1 obtain u e v where i: "Start Instance_class ?i = (Inr (), u, e, v)"
    and d1: "d1 = (daemon_new config w)\<lparr>d_instance := (u, e), d_world := v\<rparr>"
    by (auto simp: on_instance_def daemon_new_def split: prod.splits)
  from 2 d1 obtain u' e' v' where k: "Start (Docker_class H config) (DockerUpdater_new config, Environment_new, v) = (Inr (), u', e', v')"
    and d2: "d2 = d1\<lparr>d_docker := (u', e'), d_world := v'\<rparr>"
    by (auto simp: on_docker_def daemon_new_def split: prod.splits)
  from 3 d1 d2 obtain u'' t e'' v'' where
    k8s: "Start (Kubernetes_class H config) (KubernetesUpdater_new config, KubernetesReader_new, Environment_new, v') = (Inr (), u'', t, e'', v'')"
    and d3: "d3 = d2\<lparr>d_kubernetes := (u'', t, e''), d_world := v''\<rparr>"
    by (auto simp: on_kubernetes_def daemon_new_def split: prod.splits)
  show "timer_locked (poll_timer (fst (d_instance d))) = (0 < instance_updater_interval_seconds config)"
    using polling_started [OF i [unfolded Instance_class_def InstanceUpdater_new_def]] by (simp add: 4 d3 d2 d1)
  show "timer_locked (poll_timer (fst (d_docker d))) = (0 < docker_updater_interval_seconds config)"
    using polling_started [OF k [unfolded Docker_class_def DockerUpdater_new_def]] by (simp add: 4 d3 d2)
  show "timer_locked (poll_timer (k8s_polling (fst (d_kubernetes d))))
      = (\<not> kubernetes_use_watch config \<and> 0 < kubernetes_updater_interval_seconds config)"
    using Kubernetes_started [OF k8s] by (simp add: 4 d3)
  show "agent_api_server (d_server d) = Some (Serving (nat (metadata_api_num_threads config)))"
    "server_wait_locked d"
    by (simp_all add: 4 d3 d2 d1 daemon_new_def Agent_Start_def)
qed

text \<open>
  C32.  Shutdown after a successful start.  When every updater was started (both polling intervals are
  positive, and Kubernetes either watches or polls), the handler of SIGTERM stops the server, unlocks the
  timers of the polling threads and the mutex that the main thread waits for, and exits with status zero.  It
  notifies neither the reporter nor a watch thread: both are as before.  When one of the updaters was not
  started, the shutdown unlocks a mutex that is not locked, which is undefined.
\<close>

theorem shutdown_after_start:
  assumes "daemon_start H config (daemon_new config w) = (Inr (), d)"
  shows "if 0 < instance_updater_interval_seconds config \<and> 0 < docker_updater_interval_seconds config
      \<and> (kubernetes_use_watch config \<or> 0 < kubernetes_updater_interval_seconds config)
    then \<exists>d'. StartShutdown H config d = Some d' \<and> handle_sigterm H config d = Some 0
      \<and> agent_api_server (d_server d') = Some ServerStopped \<and> \<not> server_wait_locked d'
      \<and> \<not> timer_locked (poll_timer (fst (d_instance d'))) \<and> \<not> timer_locked (poll_timer (fst (d_docker d')))
      \<and> \<not> timer_locked (poll_timer (k8s_polling (fst (d_kubernetes d'))))
      \<and> agent_reporter (d_server d') = agent_reporter (d_server d)
      \<and> (let k = fst (d_kubernetes d); k' = fst (d_kubernetes d') in
           node_watch k' = node_watch k \<and> pod_watch k' = pod_watch k
           \<and> service_watch k' = service_watch k \<and> endpoints_watch k' = endpoints_watch k)
    else StartShutdown H config d = None \<and> handle_sigterm H config d = None"
  using daemon_started [OF assms]
  by (auto simp: StartShutdown_def handle_sigterm_def Agent_Stop_def NotifyStop_subclass NotifyStop_kubernetes
      Instance_class_def Docker_class_def Let_def split: if_splits)

text \<open>The defaults start the instance updater only.\<close>

lemma default_option:
  "map_of (option_list v) name = Some (IntOption f upd i) \<Longrightarrow> f (Configuration_new v) = i"
  "map_of (option_list v) name = Some (BoolOption g upd' b) \<Longrightarrow> g (Configuration_new v) = b"
  using Configuration_new_value [of v name] by fastforce+

lemma default_intervals:
  "instance_updater_interval_seconds (Configuration_new v) = 3600"
  "docker_updater_interval_seconds (Configuration_new v) = 0"
  "kubernetes_updater_interval_seconds (Configuration_new v) = 0"
  "kubernetes_use_watch (Configuration_new v) = False"
  by (rule default_option(1) [of v "''InstanceUpdaterIntervalSeconds''" _ instance_updater_interval_seconds_update],
      simp add: option_list_def)
    (rule default_option(1) [of v "''DockerUpdaterIntervalSeconds''" _ docker_updater_interval_seconds_update]
      default_option(1) [of v "''KubernetesUpdaterIntervalSeconds''" _ kubernetes_updater_interval_seconds_update]
      default_option(2) [of v "''KubernetesUseWatch''" _ kubernetes_use_watch_update],
      simp add: option_list_def)+

lemma default_kubernetes:
  "Start (Kubernetes_class H (Configuration_new v)) (KubernetesUpdater_new (Configuration_new v), s)
     = (Inr (), KubernetesUpdater_new (Configuration_new v), s)"
  by (simp add: Start_def Kubernetes_class_def meth_simps polling_ValidateStatic_def Kubernetes_ShouldStartUpdater_def
      polling_ShouldStart_def KubernetesUpdater_new_def PollingMetadataUpdater_new_def default_intervals)

lemma default_start: "\<exists>d. daemon_start offline_host (Configuration_new v) (daemon_new (Configuration_new v) ()) = (Inr (), d)"
  by (simp add: daemon_start_def meth_simps on_instance_def on_docker_def on_kubernetes_def daemon_new_def
      Instance_class_def Docker_class_def Start_polling_subclass InstanceUpdater_new_def DockerUpdater_new_def
      PollingMetadataUpdater_new_def default_intervals default_kubernetes)

theorem shutdown_after_start_witness:
  "\<exists>d. daemon_start offline_host (Configuration_new ''1'') (daemon_new (Configuration_new ''1'') ()) = (Inr (), d)
    \<and> StartShutdown offline_host (Configuration_new ''1'') d = None"
proof -
  obtain d where d: "daemon_start offline_host (Configuration_new ''1'') (daemon_new (Configuration_new ''1'') ()) = (Inr (), d)"
    using default_start by blast
  from d shutdown_after_start [OF d] show ?thesis by (auto simp: default_intervals)
qed

end
