(* ===== verification/Local_Resolver.thy ===== *)
theory Local_Resolver
  imports Prelude
begin

text \<open>
  Resolution of Unix-domain hosts (\<^verbatim>\<open>src/asio/local_resolve_op.hpp\<close>,
  \<^verbatim>\<open>src/asio/local_resolver_service.hpp\<close>): the host name of a URI is the encoded path of a socket.
  The synchronous \<open>resolve\<close>, and the operation of \<open>async_resolve\<close>, which runs once on the worker service
  and once on the main one.  The decoder of \<^verbatim>\<open>network::uri\<close> and \<^verbatim>\<open>stat\<close> are parameters: \<open>stat path\<close> is
  \<open>None\<close> when the call fails and otherwise says whether the mode is that of a socket.
\<close>

section \<open>Error codes, queries and results\<close>

text \<open>
  The error codes the client distinguishes; the first is the default-constructed one, which tests false.
\<close>

datatype error_code =
    Ec_success
  | Ec_eof
  | Ec_timed_out
  | Ec_host_not_found
  | Ec_operation_aborted
  | Ec_other int

abbreviation failed :: "error_code \<Rightarrow> bool" where
  "failed ec \<equiv> ec \<noteq> Ec_success"

record resolver_query =
  host_name :: string
  service_name :: string

text \<open>An entry of a resolver iterator: the endpoint with the names it was found by.\<close>

record resolver_entry =
  endpoint_path :: string
  entry_host_name :: string
  entry_service_name :: string

type_synonym stat_call = "string \<Rightarrow> bool option"

definition stat_result :: "stat_call \<Rightarrow> string \<Rightarrow> error_code" where
  "stat_result stat path = (if stat path \<noteq> Some True then Ec_host_not_found else Ec_success)"

section \<open>The synchronous resolver\<close>

definition resolve_query ::
  "(string \<Rightarrow> 'e + string) \<Rightarrow> stat_call \<Rightarrow> resolver_query \<Rightarrow> 'e + error_code \<times> resolver_entry list" where
  "resolve_query decode stat query =
     bindE (decode (host_name query)) (\<lambda>path.
       let ec = stat_result stat path
       in Inr (ec, if failed ec then []
                   else [\<lparr>endpoint_path = path, entry_host_name = path,
                          entry_service_name = service_name query\<rparr>]))"

text \<open>An existing endpoint always resolves.\<close>

definition resolve_endpoint :: "string \<Rightarrow> resolver_entry list" where
  "resolve_endpoint endpoint =
     [\<lparr>endpoint_path = endpoint, entry_host_name = [], entry_service_name = []\<rparr>]"

section \<open>The asynchronous operation\<close>

record resolve_op =
  op_query :: resolver_query
  op_ec :: error_code

definition new_resolve_op :: "resolver_query \<Rightarrow> resolve_op" where
  "new_resolve_op query = \<lparr>op_query = query, op_ec = Ec_success\<rparr>"

text \<open>
  Who completes the operation: the worker service, the main service, or a service that is being destroyed
  (a null owner), which only frees it.
\<close>

datatype op_owner = Worker_service | Main_service | No_owner

datatype op_completion =
    Posted_to_main resolve_op
  | Handler_invoked error_code "resolver_entry list"
  | Handler_destroyed

fun do_complete ::
  "(string \<Rightarrow> 'e + string) \<Rightarrow> stat_call \<Rightarrow> bool \<Rightarrow> op_owner \<Rightarrow> resolve_op \<Rightarrow> 'e + op_completion" where
  "do_complete decode stat cancel_expired Worker_service o1 =
     (if cancel_expired then Inr (Posted_to_main (o1\<lparr>op_ec := Ec_operation_aborted\<rparr>))
      else bindE (decode (host_name (op_query o1))) (\<lambda>path.
        Inr (Posted_to_main (o1\<lparr>op_ec := stat_result stat path\<rparr>))))"
| "do_complete decode stat cancel_expired owner o1 =
     bindE (if failed (op_ec o1) then Inr []
            else bindE (decode (host_name (op_query o1))) (\<lambda>path.
              Inr [\<lparr>endpoint_path = path, entry_host_name = path,
                    entry_service_name = service_name (op_query o1)\<rparr>]))
       (\<lambda>arg2. Inr (if owner = No_owner then Handler_destroyed else Handler_invoked (op_ec o1) arg2))"

text \<open>
  \<open>async_resolve\<close> starts the operation on the worker service, which posts it to the main service.  The
  flag says whether the resolver was cancelled before the worker reached the operation.
\<close>

definition async_resolve ::
  "(string \<Rightarrow> 'e + string) \<Rightarrow> stat_call \<Rightarrow> bool \<Rightarrow> resolver_query \<Rightarrow> 'e + op_completion" where
  "async_resolve decode stat cancel_expired query =
     bindE (do_complete decode stat cancel_expired Worker_service (new_resolve_op query)) (\<lambda>r.
       case r of
         Posted_to_main o1 \<Rightarrow> do_complete decode stat cancel_expired Main_service o1
       | _ \<Rightarrow> Inr r)"

section \<open>What they return\<close>

lemma stat_result_simps [simp]:
  "stat_result stat path = Ec_success \<longleftrightarrow> stat path = Some True"
  "stat_result stat path = Ec_host_not_found \<longleftrightarrow> stat path \<noteq> Some True"
  by (simp_all add: stat_result_def)

lemma async_resolve_cancelled:
  "async_resolve decode stat True query = Inr (Handler_invoked Ec_operation_aborted [])"
  by (simp add: async_resolve_def new_resolve_op_def)

lemma async_resolve_running:
  "async_resolve decode stat False query =
     bindE (resolve_query decode stat query) (\<lambda>(ec, entries). Inr (Handler_invoked ec entries))"
  by (cases "decode (host_name query)")
    (simp_all add: async_resolve_def new_resolve_op_def resolve_query_def Let_def stat_result_def)

text \<open>
  The two phases of the asynchronous resolver deliver what the synchronous one returns, unless the
  resolver was cancelled, which delivers \<^verbatim>\<open>operation_aborted\<close> without a call of the decoder or of
  \<^verbatim>\<open>stat\<close>.  A host whose decoded name is a socket has exactly one endpoint, that path; any other host is
  not found and has none.
\<close>

theorem async_resolve_result:
  "async_resolve decode stat cancelled query =
     (if cancelled then Inr (Handler_invoked Ec_operation_aborted [])
      else case decode (host_name query) of
          Inl e \<Rightarrow> Inl e
        | Inr path \<Rightarrow>
            Inr (if stat path = Some True
                 then Handler_invoked Ec_success [\<lparr>endpoint_path = path, entry_host_name = path,
                   entry_service_name = service_name query\<rparr>]
                 else Handler_invoked Ec_host_not_found [])) \<and>
   async_resolve decode stat False query =
     map_sum (\<lambda>e. e) (\<lambda>(ec, entries). Handler_invoked ec entries) (resolve_query decode stat query)"
  by (cases "decode (host_name query)")
    (simp_all add: async_resolve_cancelled async_resolve_running resolve_query_def stat_result_def)

end
