(* ===== verification/Local_Connection.thy ===== *)
theory Local_Connection
  imports Local_Resolver
begin

text \<open>
  The connection of the Unix-domain HTTP client (\<^verbatim>\<open>src/http/local_async_normal.hpp\<close>) over the local
  delegate (\<^verbatim>\<open>src/http/local_normal_delegate.ipp\<close>): an asynchronous state machine whose handlers run one
  at a time on a strand.  A handler starts at most one operation of the socket, by leaving a handler in
  \<open>pending\<close>; completions and the timer are chosen by the environment (\<open>conn_step\<close>).

  The protocol handler of cpp-netlib, which parses and owns the seven promises and the read buffer, is a
  parameter (\<open>netlib\<close>); its documented behaviour is the predicate \<open>netlib_contract\<close>.  The build does not
  define \<^verbatim>\<open>BOOST_NETWORK_ENABLE_HTTPS\<close>, so no error counts as a short read of SSL.
\<close>

section \<open>State\<close>

datatype promise_exception = System_error error_code | Runtime_error string

type_synonym 'a promise = "(promise_exception + 'a) option"

text \<open>
  The members of the protocol handler that the connection uses; \<open>'p\<close> is its parser.  \<open>part_begin\<close> is an
  index into the read buffer \<open>part\<close> of 1024 characters.
\<close>

record 'p protocol =
  version_promise :: "string promise"
  status_promise :: "nat promise"
  status_message_promise :: "string promise"
  headers_promise :: "(string \<times> string) list promise"
  source_promise :: "string promise"
  destination_promise :: "string promise"
  body_promise :: "string promise"
  part :: string
  part_begin :: nat
  partial_parsed :: string
  is_chunk_encoding :: bool
  response_parser :: 'p

text \<open>
  The parse functions get the number of bytes read and return the tribool (\<open>None\<close> is indeterminate),
  whether they ask the delegate for another read, and the members after the call; \<open>parse_headers\<close> also
  returns the number of bytes left in the buffer.  \<open>parse_chunk\<close> is the chunk parser, with its state \<open>'k\<close>.
\<close>

record ('p, 'k) netlib =
  parse_version :: "'p protocol \<Rightarrow> nat \<Rightarrow> bool option \<times> bool \<times> 'p protocol"
  parse_status :: "'p protocol \<Rightarrow> nat \<Rightarrow> bool option \<times> bool \<times> 'p protocol"
  parse_status_message :: "'p protocol \<Rightarrow> nat \<Rightarrow> bool option \<times> bool \<times> 'p protocol"
  parse_headers :: "'p protocol \<Rightarrow> nat \<Rightarrow> bool option \<times> nat \<times> bool \<times> 'p protocol"
  parse_body :: "'p protocol \<Rightarrow> nat \<Rightarrow> bool \<times> 'p protocol"
  parser_reset :: "'p \<Rightarrow> 'p"
  parse_chunk :: "'k \<Rightarrow> string \<Rightarrow> string \<times> 'k"

text \<open>What the closures of the handlers capture unchanged for the whole exchange.\<close>

record 'g exchange =
  get_body :: bool
  has_callback :: bool
  body_generator :: "('g \<Rightarrow> string option \<times> 'g) option"

datatype state_t = At_version | At_status | At_status_message | At_headers | At_body

text \<open>
  The closures handed to asynchronous operations: the endpoints left to try, or the state to resume in
  with the error code that replaces the one of the completion when the closure captured one.
\<close>

datatype handler =
    On_resolved
  | On_connected "resolver_entry list"
  | On_sent_request
  | On_received state_t "error_code option"

datatype timer_wait = Timer_idle | Timer_waiting | Timer_cancelled

record local_socket =
  peer :: string
  is_open :: bool

record ('p, 'k, 'g) conn =
  timeout :: int
  remove_chunk_markers :: bool
  timer_wait :: timer_wait
  is_timedout :: bool
  socket :: "local_socket option"
  command_streambuf :: string
  chunk_state :: 'k
  protocol :: "'p protocol"
  pending :: "handler list"
  generator_state :: 'g
  callback_calls :: "(string \<times> error_code) list"

text \<open>What can leave a handler: a promise satisfied twice, or the use of a null socket pointer.\<close>

datatype handler_error = Promise_already_satisfied | Null_socket

type_synonym ('p, 'k, 'g) action = "(('p, 'k, 'g) conn, handler_error, unit) meth"

definition new_connection :: "int \<Rightarrow> bool \<Rightarrow> 'p protocol \<Rightarrow> 'k \<Rightarrow> 'g \<Rightarrow> ('p, 'k, 'g) conn" where
  "new_connection t remove b k g =
     \<lparr>timeout = t, remove_chunk_markers = remove, timer_wait = Timer_idle, is_timedout = False,
      socket = None, command_streambuf = [], chunk_state = k, protocol = b, pending = [],
      generator_state = g, callback_calls = []\<rparr>"

section \<open>The delegate\<close>

definition schedule :: "handler \<Rightarrow> ('p, 'k, 'g) action" where
  "schedule h = modifyM (\<lambda>c. c\<lparr>pending := pending c @ [h]\<rparr>)"

text \<open>An asynchronous connect opens the new socket.\<close>

definition delegate_connect :: "string \<Rightarrow> handler \<Rightarrow> ('p, 'k, 'g) action" where
  "delegate_connect endpoint h =
     bindM (modifyM (\<lambda>c. c\<lparr>socket := Some \<lparr>peer = endpoint, is_open = True\<rparr>\<rparr>)) (\<lambda>_. schedule h)"

definition with_socket :: "('p, 'k, 'g) action \<Rightarrow> ('p, 'k, 'g) action" where
  "with_socket m = bindM (getM socket) (\<lambda>s. case s of None \<Rightarrow> throwM Null_socket | Some _ \<Rightarrow> m)"

definition delegate_write :: "handler \<Rightarrow> ('p, 'k, 'g) action" where
  "delegate_write h = with_socket (schedule h)"

definition delegate_read_some :: "handler \<Rightarrow> ('p, 'k, 'g) action" where
  "delegate_read_some h = with_socket (schedule h)"

text \<open>The argument is what \<^verbatim>\<open>shutdown\<close> reports; a failed one leaves the socket open.\<close>

definition disconnect :: "error_code \<Rightarrow> ('p, 'k, 'g) conn \<Rightarrow> ('p, 'k, 'g) conn" where
  "disconnect ignored c =
     (case socket c of
        None \<Rightarrow> c
      | Some s \<Rightarrow>
          if is_open s \<and> \<not> failed ignored then c\<lparr>socket := Some (s\<lparr>is_open := False\<rparr>)\<rparr> else c)"

section \<open>Promises, callback and timer\<close>

definition satisfy ::
  "('p protocol \<Rightarrow> 'a option) \<Rightarrow> (('a option \<Rightarrow> 'a option) \<Rightarrow> 'p protocol \<Rightarrow> 'p protocol) \<Rightarrow> 'a
    \<Rightarrow> ('p, 'k, 'g) action" where
  "satisfy promise promise_update r c =
     (case promise (protocol c) of
        None \<Rightarrow> (Inr (), c\<lparr>protocol := promise_update (\<lambda>_. Some r) (protocol c)\<rparr>)
      | Some _ \<Rightarrow> (Inl Promise_already_satisfied, c))"

definition call_callback :: "string \<Rightarrow> error_code \<Rightarrow> ('p, 'k, 'g) action" where
  "call_callback rng ec = modifyM (\<lambda>c. c\<lparr>callback_calls := callback_calls c @ [(rng, ec)]\<rparr>)"

definition timer_cancel :: "('p, 'k, 'g) action" where
  "timer_cancel = modifyM (\<lambda>c. c\<lparr>timer_wait :=
     (if timer_wait c = Timer_waiting then Timer_cancelled else timer_wait c)\<rparr>)"

definition set_errors :: "'g exchange \<Rightarrow> error_code \<Rightarrow> ('p, 'k, 'g) action" where
  "set_errors X ec =
     bindM (satisfy version_promise version_promise_update (Inl (System_error ec))) (\<lambda>_.
     bindM (satisfy status_promise status_promise_update (Inl (System_error ec))) (\<lambda>_.
     bindM (satisfy status_message_promise status_message_promise_update (Inl (System_error ec))) (\<lambda>_.
     bindM (satisfy headers_promise headers_promise_update (Inl (System_error ec))) (\<lambda>_.
     bindM (satisfy source_promise source_promise_update (Inl (System_error ec))) (\<lambda>_.
     bindM (satisfy destination_promise destination_promise_update (Inl (System_error ec))) (\<lambda>_.
     bindM (satisfy body_promise body_promise_update (Inl (System_error ec))) (\<lambda>_.
     bindM (if has_callback X then call_callback [] ec else returnM ()) (\<lambda>_.
     timer_cancel))))))))"

text \<open>\<^verbatim>\<open>is_timedout_\<close> is set whatever the error code, also when the timer was cancelled.\<close>

definition handle_timeout :: "error_code \<Rightarrow> error_code \<Rightarrow> ('p, 'k, 'g) conn \<Rightarrow> ('p, 'k, 'g) conn" where
  "handle_timeout ec shutdown_ec c =
     (if failed ec then c else disconnect shutdown_ec c)\<lparr>is_timedout := True\<rparr>"

section \<open>Start, resolve, connect, send\<close>

text \<open>The request comes linearized; the host and port go to the resolver.\<close>

definition start :: "string \<Rightarrow> ('p, 'k, 'g) action" where
  "start linearized =
     bindM (modifyM (\<lambda>c. c\<lparr>command_streambuf := command_streambuf c @ linearized\<rparr>)) (\<lambda>_.
     bindM (modifyM (\<lambda>c. if timeout c > 0 then c\<lparr>timer_wait := Timer_waiting\<rparr> else c)) (\<lambda>_.
     schedule On_resolved))"

definition handle_resolved :: "'g exchange \<Rightarrow> error_code \<Rightarrow> resolver_entry list \<Rightarrow> ('p, 'k, 'g) action" where
  "handle_resolved X ec endpoint_range =
     (case endpoint_range of
        entry # rest \<Rightarrow>
          if \<not> failed ec then delegate_connect (endpoint_path entry) (On_connected rest)
          else set_errors X ec
      | [] \<Rightarrow> set_errors X (if failed ec then ec else Ec_host_not_found))"

definition handle_connected :: "'g exchange \<Rightarrow> resolver_entry list \<Rightarrow> error_code \<Rightarrow> ('p, 'k, 'g) action" where
  "handle_connected X endpoint_range ec =
     bindM (getM is_timedout) (\<lambda>timedout.
       if timedout then set_errors X Ec_timed_out
       else if \<not> failed ec then delegate_write On_sent_request
       else case endpoint_range of
           entry # rest \<Rightarrow> delegate_connect (endpoint_path entry) (On_connected rest)
         | [] \<Rightarrow> set_errors X (if failed ec then ec else Ec_host_not_found))"

text \<open>The chunk the generator produces, if it has one.\<close>

definition next_chunk ::
  "'g exchange \<Rightarrow> (('p, 'k, 'g) conn, handler_error, string option) meth" where
  "next_chunk X c =
     (case body_generator X of
        None \<Rightarrow> (Inr None, c)
      | Some generate \<Rightarrow>
          (case generate (generator_state c) of (chunk, g) \<Rightarrow> (Inr chunk, c\<lparr>generator_state := g\<rparr>)))"

definition handle_sent_request :: "'g exchange \<Rightarrow> error_code \<Rightarrow> ('p, 'k, 'g) action" where
  "handle_sent_request X ec =
     bindM (getM is_timedout) (\<lambda>timedout.
       if \<not> timedout \<and> \<not> failed ec
       then bindM (next_chunk X) (\<lambda>chunk.
         case chunk of
           Some s \<Rightarrow>
             bindM (modifyM (\<lambda>c. c\<lparr>command_streambuf := command_streambuf c @ s\<rparr>)) (\<lambda>_.
             delegate_write On_sent_request)
         | None \<Rightarrow> delegate_read_some (On_received At_version None))
       else set_errors X (if timedout then Ec_timed_out else ec))"

section \<open>Receive\<close>

text \<open>A parse function of the base class, given the delegate and the handler for a further read.\<close>

definition parse_step ::
  "('p protocol \<Rightarrow> nat \<Rightarrow> 'r \<times> bool \<times> 'p protocol) \<Rightarrow> handler \<Rightarrow> nat
    \<Rightarrow> (('p, 'k, 'g) conn, handler_error, 'r) meth" where
  "parse_step f h n c =
     (case f (protocol c) n of (r, reads, b) \<Rightarrow>
        bindM (if reads then delegate_read_some h else returnM ()) (\<lambda>_. returnM r) (c\<lparr>protocol := b\<rparr>))"

definition parse_chunk_encoding ::
  "('p, 'k) netlib \<Rightarrow> string \<Rightarrow> (('p, 'k, 'g) conn, handler_error, string) meth" where
  "parse_chunk_encoding L rng c =
     (case parse_chunk L (chunk_state c) rng of (s, k) \<Rightarrow> (Inr s, c\<lparr>chunk_state := k\<rparr>))"

definition strips_chunks :: "('p, 'k, 'g) conn \<Rightarrow> bool" where
  "strips_chunks c \<longleftrightarrow> is_chunk_encoding (protocol c) \<and> remove_chunk_markers c"

text \<open>The callback gets a range of the buffer, without chunk markers when they are to be removed.\<close>

definition callback_range :: "('p, 'k) netlib \<Rightarrow> string \<Rightarrow> error_code \<Rightarrow> ('p, 'k, 'g) action" where
  "callback_range L rng ec =
     bindM (getM strips_chunks) (\<lambda>strips.
     bindM (if strips then parse_chunk_encoding L rng else returnM rng) (\<lambda>s. call_callback s ec))"

definition clear_part :: "('p, 'k) netlib \<Rightarrow> ('p, 'k, 'g) action" where
  "clear_part L = modifyM (\<lambda>c. c\<lparr>protocol := (protocol c)
     \<lparr>part := [CHR 0x00, CHR 0x00] @ drop 2 (part (protocol c)),
      response_parser := parser_reset L (response_parser (protocol c))\<rparr>\<rparr>)"

text \<open>
  The partially parsed body goes through the chunk parser in blocks of 1024 characters.  Each equation is
  an iteration of the loop over the blocks.
\<close>

function parse_blocks ::
  "('p, 'k) netlib \<Rightarrow> string \<Rightarrow> string \<Rightarrow> (('p, 'k, 'g) conn, handler_error, string) meth" where
  "parse_blocks L body_string rest =
     (if rest = [] then returnM body_string
      else bindM (parse_chunk_encoding L (take 1024 rest)) (\<lambda>range.
        parse_blocks L (body_string @ range) (drop 1024 rest)))"
  by pat_completeness auto
termination by (relation "measure (\<lambda>(L, b, rest). length rest)") auto

declare parse_blocks.simps [simp del]

text \<open>End of the body: what was read last goes to the callback or, with what came before, to the promise.\<close>

definition finish_body :: "('p, 'k) netlib \<Rightarrow> nat \<Rightarrow> ('p, 'k, 'g) action" where
  "finish_body L n =
     bindM (getM (\<lambda>c. (strips_chunks c, partial_parsed (protocol c), take n (part (protocol c)))))
       (\<lambda>(strips, parsed, last_part).
     if strips
     then bindM (parse_blocks L [] parsed) (\<lambda>body_string.
          bindM (modifyM (\<lambda>c. c\<lparr>protocol := (protocol c)\<lparr>partial_parsed := []\<rparr>\<rparr>)) (\<lambda>_.
          bindM (parse_chunk_encoding L last_part) (\<lambda>range.
          satisfy body_promise body_promise_update (Inr (body_string @ range)))))
     else bindM (modifyM (\<lambda>c. c\<lparr>protocol := (protocol c)\<lparr>partial_parsed := []\<rparr>\<rparr>)) (\<lambda>_.
          satisfy body_promise body_promise_update (Inr (parsed @ last_part))))"

definition from_body ::
  "('p, 'k) netlib \<Rightarrow> 'g exchange \<Rightarrow> error_code \<Rightarrow> nat \<Rightarrow> ('p, 'k, 'g) action" where
  "from_body L X ec n =
     (if ec = Ec_eof
      then bindM (if has_callback X
                  then bindM (getM (\<lambda>c. take n (part (protocol c)))) (\<lambda>range. callback_range L range ec)
                  else finish_body L n) (\<lambda>_.
           bindM (satisfy destination_promise destination_promise_update (Inr [])) (\<lambda>_.
           bindM (satisfy source_promise source_promise_update (Inr [])) (\<lambda>_.
           bindM (clear_part L) (\<lambda>_.
           timer_cancel))))
      else if has_callback X
      then bindM (getM (\<lambda>c. take n (part (protocol c)))) (\<lambda>range.
           bindM (callback_range L range ec) (\<lambda>_.
           delegate_read_some (On_received At_body None)))
      else parse_step (\<lambda>b n. case parse_body L b n of (reads, b) \<Rightarrow> ((), reads, b))
             (On_received At_body None) n)"

text \<open>The headers are complete and \<open>remainder\<close> bytes of the buffer belong to the body.\<close>

definition headers_done ::
  "('p, 'k) netlib \<Rightarrow> 'g exchange \<Rightarrow> error_code \<Rightarrow> nat \<Rightarrow> ('p, 'k, 'g) action" where
  "headers_done L X ec remainder =
     (if \<not> get_body X
      then bindM (satisfy body_promise body_promise_update (Inr [])) (\<lambda>_.
           bindM (if has_callback X then call_callback [] Ec_eof else returnM ()) (\<lambda>_.
           bindM (satisfy destination_promise destination_promise_update (Inr [])) (\<lambda>_.
           bindM (satisfy source_promise source_promise_update (Inr [])) (\<lambda>_.
           clear_part L))))
      else if has_callback X
      then bindM (getM (\<lambda>c. take remainder (drop (part_begin (protocol c)) (part (protocol c))))) (\<lambda>range.
           bindM (satisfy body_promise body_promise_update (Inr [])) (\<lambda>_.
           bindM (callback_range L range ec) (\<lambda>_.
           delegate_read_some (On_received At_body None))))
      else parse_step (\<lambda>b n. case parse_body L b n of (reads, b) \<Rightarrow> ((), reads, b))
             (On_received At_body None) remainder)"

text \<open>
  The cases of the switch fall through: \<open>from_version\<close> is the switch from the label \<^verbatim>\<open>version\<close> on, and so
  on.  The closure of the status message does not name its error code, so the one it uses is the
  captured one of the enclosing call.
\<close>

definition from_headers ::
  "('p, 'k) netlib \<Rightarrow> 'g exchange \<Rightarrow> error_code \<Rightarrow> nat \<Rightarrow> ('p, 'k, 'g) action" where
  "from_headers L X ec n =
     (if ec = Ec_eof then returnM ()
      else bindM (parse_step (\<lambda>b n. case parse_headers L b n of (ok, remainder, reads, b) \<Rightarrow>
                    ((ok, remainder), reads, b)) (On_received At_headers None) n) (\<lambda>(parsed_ok, remainder).
           if parsed_ok \<noteq> Some True then returnM () else headers_done L X ec remainder))"

definition from_status_message ::
  "('p, 'k) netlib \<Rightarrow> 'g exchange \<Rightarrow> error_code \<Rightarrow> nat \<Rightarrow> ('p, 'k, 'g) action" where
  "from_status_message L X ec n =
     (if ec = Ec_eof then returnM ()
      else bindM (parse_step (parse_status_message L) (On_received At_status_message (Some ec)) n) (\<lambda>parsed_ok.
           if parsed_ok \<noteq> Some True then returnM () else from_headers L X ec n))"

definition from_status ::
  "('p, 'k) netlib \<Rightarrow> 'g exchange \<Rightarrow> error_code \<Rightarrow> nat \<Rightarrow> ('p, 'k, 'g) action" where
  "from_status L X ec n =
     (if ec = Ec_eof then returnM ()
      else bindM (parse_step (parse_status L) (On_received At_status None) n) (\<lambda>parsed_ok.
           if parsed_ok \<noteq> Some True then returnM () else from_status_message L X ec n))"

definition from_version ::
  "('p, 'k) netlib \<Rightarrow> 'g exchange \<Rightarrow> error_code \<Rightarrow> nat \<Rightarrow> ('p, 'k, 'g) action" where
  "from_version L X ec n =
     (if ec = Ec_eof then returnM ()
      else bindM (parse_step (parse_version L) (On_received At_version None) n) (\<lambda>parsed_ok.
           if parsed_ok \<noteq> Some True then returnM () else from_status L X ec n))"

text \<open>The switch of the error branch, from each label on.\<close>

definition fail_body :: "'g exchange \<Rightarrow> error_code \<Rightarrow> ('p, 'k, 'g) action" where
  "fail_body X ec =
     (if \<not> has_callback X then satisfy body_promise body_promise_update (Inl (System_error ec))
      else call_callback [] ec)"

definition fail_headers :: "'g exchange \<Rightarrow> error_code \<Rightarrow> ('p, 'k, 'g) action" where
  "fail_headers X ec =
     bindM (satisfy headers_promise headers_promise_update (Inl (System_error ec))) (\<lambda>_. fail_body X ec)"

definition fail_status_message :: "'g exchange \<Rightarrow> error_code \<Rightarrow> ('p, 'k, 'g) action" where
  "fail_status_message X ec =
     bindM (satisfy status_message_promise status_message_promise_update (Inl (System_error ec)))
       (\<lambda>_. fail_headers X ec)"

definition fail_status :: "'g exchange \<Rightarrow> error_code \<Rightarrow> ('p, 'k, 'g) action" where
  "fail_status X ec =
     bindM (satisfy status_promise status_promise_update (Inl (System_error ec)))
       (\<lambda>_. fail_status_message X ec)"

definition fail_version :: "'g exchange \<Rightarrow> error_code \<Rightarrow> ('p, 'k, 'g) action" where
  "fail_version X ec =
     bindM (satisfy version_promise version_promise_update (Inl (System_error ec)))
       (\<lambda>_. fail_status X ec)"

definition handle_received_data ::
  "('p, 'k) netlib \<Rightarrow> 'g exchange \<Rightarrow> state_t \<Rightarrow> error_code \<Rightarrow> nat \<Rightarrow> ('p, 'k, 'g) action" where
  "handle_received_data L X st ec n =
     bindM (getM is_timedout) (\<lambda>timedout.
       if \<not> timedout \<and> (\<not> failed ec \<or> ec = Ec_eof)
       then case st of
           At_version \<Rightarrow> from_version L X ec n
         | At_status \<Rightarrow> from_status L X ec n
         | At_status_message \<Rightarrow> from_status_message L X ec n
         | At_headers \<Rightarrow> from_headers L X ec n
         | At_body \<Rightarrow> from_body L X ec n
       else let report_code = if timedout then Ec_timed_out else ec in
         bindM (satisfy source_promise source_promise_update (Inl (System_error report_code))) (\<lambda>_.
         bindM (satisfy destination_promise destination_promise_update (Inl (System_error report_code))) (\<lambda>_.
         case st of
           At_version \<Rightarrow> fail_version X report_code
         | At_status \<Rightarrow> fail_status X report_code
         | At_status_message \<Rightarrow> fail_status_message X report_code
         | At_headers \<Rightarrow> fail_headers X report_code
         | At_body \<Rightarrow> fail_body X report_code)))"

section \<open>Completions\<close>

text \<open>
  What the environment reports for an operation.  A completed write has consumed the bytes it
  transferred, and a completed read has put its data at the front of the buffer.
\<close>

datatype completion =
    Resolved error_code "resolver_entry list"
  | Connected error_code
  | Sent error_code nat
  | Received error_code string

fun fits :: "handler \<Rightarrow> completion \<Rightarrow> bool" where
  "fits On_resolved (Resolved ec entries) = True"
| "fits (On_connected rest) (Connected ec) = True"
| "fits On_sent_request (Sent ec n) = True"
| "fits (On_received st captured) (Received ec s) = True"
| "fits h e = False"

fun run_handler ::
  "('p, 'k) netlib \<Rightarrow> 'g exchange \<Rightarrow> handler \<Rightarrow> completion \<Rightarrow> ('p, 'k, 'g) action" where
  "run_handler L X On_resolved (Resolved ec entries) = handle_resolved X ec entries"
| "run_handler L X (On_connected rest) (Connected ec) = handle_connected X rest ec"
| "run_handler L X On_sent_request (Sent ec n) =
     bindM (modifyM (\<lambda>c. c\<lparr>command_streambuf := drop n (command_streambuf c)\<rparr>))
       (\<lambda>_. handle_sent_request X ec)"
| "run_handler L X (On_received st captured) (Received ec s) =
     bindM (modifyM (\<lambda>c. c\<lparr>protocol := (protocol c)
              \<lparr>part := s @ drop (length s) (part (protocol c))\<rparr>\<rparr>)) (\<lambda>_.
     handle_received_data L X st (case captured of None \<Rightarrow> ec | Some outer_ec \<Rightarrow> outer_ec) (length s))"
| "run_handler L X h e = returnM ()"

section \<open>Runs\<close>

text \<open>
  A step completes a pending operation, or lets the timer run out.  A cancelled timer reports that it was
  aborted, unless it had run out before.
\<close>

inductive conn_step ::
  "('p, 'k) netlib \<Rightarrow> 'g exchange \<Rightarrow> ('p, 'k, 'g) conn \<Rightarrow> ('p, 'k, 'g) conn \<Rightarrow> bool"
  for L :: "('p, 'k) netlib" and X :: "'g exchange" where
  completed: "pending c = hs @ h # hs' \<Longrightarrow> fits h e \<Longrightarrow>
     conn_step L X c (snd (run_handler L X h e (c\<lparr>pending := hs @ hs'\<rparr>)))"
| expired: "timer_wait c = Timer_waiting \<Longrightarrow>
     conn_step L X c (handle_timeout Ec_success shutdown_ec (c\<lparr>timer_wait := Timer_idle\<rparr>))"
| aborted: "timer_wait c = Timer_cancelled \<Longrightarrow> ec = Ec_success \<or> ec = Ec_operation_aborted \<Longrightarrow>
     conn_step L X c (handle_timeout ec shutdown_ec (c\<lparr>timer_wait := Timer_idle\<rparr>))"

inductive conn_reachable ::
  "('p, 'k) netlib \<Rightarrow> 'g exchange \<Rightarrow> ('p, 'k, 'g) conn \<Rightarrow> ('p, 'k, 'g) conn \<Rightarrow> bool"
  for L :: "('p, 'k) netlib" and X :: "'g exchange" and c0 :: "('p, 'k, 'g) conn" where
  first: "conn_reachable L X c0 c0"
| later: "conn_reachable L X c0 c \<Longrightarrow> conn_step L X c d \<Longrightarrow> conn_reachable L X c0 d"

inductive_cases conn_stepE: "conn_step L X c d"

text \<open>Consecutive completions of the only pending operation; \<open>None\<close> when an event does not fit.\<close>

fun run_completions ::
  "('p, 'k) netlib \<Rightarrow> 'g exchange \<Rightarrow> completion list \<Rightarrow> ('p, 'k, 'g) conn
    \<Rightarrow> ((handler_error + unit) \<times> ('p, 'k, 'g) conn) option" where
  "run_completions L X [] c = Some (Inr (), c)"
| "run_completions L X (e # es) c =
     (case pending c of
        [h] \<Rightarrow>
          if fits h e
          then (case run_handler L X h e (c\<lparr>pending := []\<rparr>) of
                  (Inr _, d) \<Rightarrow> run_completions L X es d
                | (Inl err, d) \<Rightarrow> Some (Inl err, d))
          else None
      | _ \<Rightarrow> None)"

end
