(* ===== verification/Local_Exchange.thy ===== *)
theory Local_Exchange
  imports Local_Connection
begin

text \<open>
  What the connection of \<open>Local_Connection\<close> guarantees: the contract of the parse functions, the invariant of
  the reachable states (at most one operation outstanding, the promises of the parts still to come open),
  how every completion ends or continues the exchange, the lost error of the status message, the delivery
  of the body, and the way from the host name to the socket.
\<close>

section \<open>Promises that are not satisfied\<close>

datatype pname = P_version | P_status | P_status_message | P_headers | P_source | P_destination | P_body

definition unset :: "'p protocol \<Rightarrow> pname set" where
  "unset b =
     (if version_promise b = None then {P_version} else {}) \<union>
     (if status_promise b = None then {P_status} else {}) \<union>
     (if status_message_promise b = None then {P_status_message} else {}) \<union>
     (if headers_promise b = None then {P_headers} else {}) \<union>
     (if source_promise b = None then {P_source} else {}) \<union>
     (if destination_promise b = None then {P_destination} else {}) \<union>
     (if body_promise b = None then {P_body} else {})"

text \<open>
  The documented behaviour of the parse functions of cpp-netlib: a part that is complete satisfies its
  promise, a malformed one fails all promises that are left, an incomplete one reads on.
\<close>

definition parse_contract :: "pname \<Rightarrow> ('p protocol \<Rightarrow> nat \<Rightarrow> bool option \<times> bool \<times> 'p protocol) \<Rightarrow> bool" where
  "parse_contract p f \<longleftrightarrow>
     (\<forall>b n. p \<in> unset b \<longrightarrow>
        (case f b n of (parsed_ok, reads, d) \<Rightarrow>
           (parsed_ok = Some True \<longrightarrow> \<not> reads \<and> unset d = unset b - {p}) \<and>
           (parsed_ok = Some False \<longrightarrow> \<not> reads \<and> unset d = {}) \<and>
           (parsed_ok = None \<longrightarrow> reads \<and> unset d = unset b)))"

definition netlib_contract :: "('p, 'k) netlib \<Rightarrow> bool" where
  "netlib_contract L \<longleftrightarrow>
     parse_contract P_version (parse_version L) \<and>
     parse_contract P_status (parse_status L) \<and>
     parse_contract P_status_message (parse_status_message L) \<and>
     parse_contract P_headers (\<lambda>b n. case parse_headers L b n of (ok, _, reads, d) \<Rightarrow> (ok, reads, d)) \<and>
     (\<forall>b n. fst (parse_body L b n) \<and> unset (snd (parse_body L b n)) = unset b)"

lemma unset_mem [simp]:
  "P_version \<in> unset b \<longleftrightarrow> version_promise b = None"
  "P_status \<in> unset b \<longleftrightarrow> status_promise b = None"
  "P_status_message \<in> unset b \<longleftrightarrow> status_message_promise b = None"
  "P_headers \<in> unset b \<longleftrightarrow> headers_promise b = None"
  "P_source \<in> unset b \<longleftrightarrow> source_promise b = None"
  "P_destination \<in> unset b \<longleftrightarrow> destination_promise b = None"
  "P_body \<in> unset b \<longleftrightarrow> body_promise b = None"
  by (simp_all add: unset_def)

lemma unset_frame [simp]:
  "unset (b\<lparr>part := x\<rparr>) = unset b"
  "unset (b\<lparr>partial_parsed := x\<rparr>) = unset b"
  "unset (b\<lparr>part_begin := n\<rparr>) = unset b"
  "unset (b\<lparr>response_parser := r\<rparr>) = unset b"
  by (simp_all add: unset_def)

lemma unset_satisfied [simp]:
  "unset (b\<lparr>version_promise := Some v\<rparr>) = unset b - {P_version}"
  "unset (b\<lparr>status_promise := Some w\<rparr>) = unset b - {P_status}"
  "unset (b\<lparr>status_message_promise := Some v\<rparr>) = unset b - {P_status_message}"
  "unset (b\<lparr>headers_promise := Some u\<rparr>) = unset b - {P_headers}"
  "unset (b\<lparr>source_promise := Some v\<rparr>) = unset b - {P_source}"
  "unset (b\<lparr>destination_promise := Some v\<rparr>) = unset b - {P_destination}"
  "unset (b\<lparr>body_promise := Some v\<rparr>) = unset b - {P_body}"
  by (auto simp: unset_def)

text \<open>
  \<open>runs Q m c\<close>: the method returns normally from \<open>c\<close>, with a result and a state that satisfy \<open>Q\<close>.  It is
  computed along the text of the method by \<open>runs_simps\<close>.
\<close>

definition runs :: "('a \<Rightarrow> 's \<Rightarrow> bool) \<Rightarrow> ('s, 'e, 'a) meth \<Rightarrow> 's \<Rightarrow> bool" where
  "runs Q m c \<longleftrightarrow> (case m c of (Inl _, d) \<Rightarrow> False | (Inr x, d) \<Rightarrow> Q x d)"

lemma runsD: "runs Q m c \<Longrightarrow> \<exists>x d. m c = (Inr x, d) \<and> Q x d"
  by (auto simp: runs_def split: prod.splits sum.splits)

named_theorems runs_simps "what a method of the connection computes"

lemma runs_return [runs_simps]: "runs Q (returnM x) c = Q x c"
  by (simp add: runs_def meth_simps)

lemma runs_throw [runs_simps]: "runs Q (throwM err) c = False"
  by (simp add: runs_def meth_simps)

lemma runs_get [runs_simps]: "runs Q (getM g) c = Q (g c) c"
  by (simp add: runs_def meth_simps)

lemma runs_modify [runs_simps]: "runs Q (modifyM f) c = Q () (f c)"
  by (simp add: runs_def meth_simps)

lemma runs_bind [runs_simps]: "runs Q (bindM m k) c = runs (\<lambda>x. runs Q (k x)) m c"
  by (auto simp: runs_def meth_simps split: prod.splits sum.splits)

lemma runs_delegate [runs_simps]:
  "runs Q (schedule h) c = Q () (c\<lparr>pending := pending c @ [h]\<rparr>)"
  "runs Q (delegate_connect ep h) c =
     Q () (c\<lparr>socket := Some \<lparr>peer = ep, is_open = True\<rparr>, pending := pending c @ [h]\<rparr>)"
  "runs Q (delegate_write h) c = (socket c \<noteq> None \<and> Q () (c\<lparr>pending := pending c @ [h]\<rparr>))"
  "runs Q (delegate_read_some h) c = (socket c \<noteq> None \<and> Q () (c\<lparr>pending := pending c @ [h]\<rparr>))"
  by (auto simp: runs_simps schedule_def delegate_connect_def delegate_write_def delegate_read_some_def
      with_socket_def split: option.splits)

lemma runs_promise [runs_simps]:
  "runs Q (satisfy g upd r) c =
     (g (protocol c) = None \<and> Q () (c\<lparr>protocol := upd (\<lambda>_. Some r) (protocol c)\<rparr>))"
  "runs Q (call_callback rng ec) c = Q () (c\<lparr>callback_calls := callback_calls c @ [(rng, ec)]\<rparr>)"
  "runs Q timer_cancel c = Q () (c\<lparr>timer_wait :=
     (if timer_wait c = Timer_waiting then Timer_cancelled else timer_wait c)\<rparr>)"
  by (auto simp: runs_simps satisfy_def call_callback_def timer_cancel_def)
    (auto simp: runs_def satisfy_def split: option.splits)

text \<open>What the chunk parser and the generator do to the connection stays in their own parts of the state.\<close>

lemma runs_chunk:
  assumes "\<And>s k. Q s (c\<lparr>chunk_state := k\<rparr>)"
  shows "runs Q (parse_chunk_encoding L rng) c"
  using assms by (simp add: runs_def parse_chunk_encoding_def split: prod.split)

lemma runs_blocks:
  assumes "\<And>s k. Q s (c\<lparr>chunk_state := k\<rparr>)"
  shows "runs Q (parse_blocks L acc rest) c"
  using assms
proof (induction L acc rest arbitrary: c rule: parse_blocks.induct)
  case (1 L acc rest)
  show ?case
  proof (cases "rest = []")
    case True
    then show ?thesis
      using "1.prems" [of acc "chunk_state c"] by (simp add: parse_blocks.simps runs_simps)
  next
    case False
    have "runs Q (parse_blocks L (acc @ s) (drop 1024 rest)) (c\<lparr>chunk_state := k\<rparr>)" for s k
      by (rule "1.IH" [OF False]) (simp add: "1.prems")
    with False show ?thesis
      by (subst parse_blocks.simps) (auto simp: runs_simps intro!: runs_chunk)
  qed
qed

lemma runs_mono: "runs Q m c \<Longrightarrow> (\<And>x d. Q x d \<Longrightarrow> R x d) \<Longrightarrow> runs R m c"
  by (auto simp: runs_def split: prod.splits sum.splits)

lemma runs_range:
  assumes "\<And>s k. Q () (c\<lparr>chunk_state := k, callback_calls := callback_calls c @ [(s, ec)]\<rparr>)"
  shows "runs Q (callback_range L rng ec) c"
  using assms [of rng "chunk_state c"] assms
  by (auto simp: callback_range_def runs_simps intro!: runs_chunk)

lemma runs_next_chunk:
  assumes "\<And>s g. Q s (c\<lparr>generator_state := g\<rparr>)"
  shows "runs Q (next_chunk X) c"
  using assms [of _ "generator_state c"] assms
  by (auto simp: runs_def next_chunk_def split: prod.split option.split)

lemma runs_parse_step:
  assumes contract: "parse_contract p (\<lambda>b n. case f b n of (r, reads, d) \<Rightarrow> (ok r, reads, d))"
    and "p \<in> unset (protocol c)" "socket c \<noteq> None"
    and "\<And>r b. ok r = Some True \<Longrightarrow> unset b = unset (protocol c) - {p} \<Longrightarrow> Q r (c\<lparr>protocol := b\<rparr>)"
    and "\<And>r b. ok r = Some False \<Longrightarrow> unset b = {} \<Longrightarrow> Q r (c\<lparr>protocol := b\<rparr>)"
    and "\<And>r b. ok r = None \<Longrightarrow> unset b = unset (protocol c)
      \<Longrightarrow> Q r (c\<lparr>protocol := b, pending := pending c @ [h]\<rparr>)"
  shows "runs Q (parse_step f h n) c"
proof -
  obtain r reads b where f: "f (protocol c) n = (r, reads, b)" by (metis prod_cases3)
  have step: "runs Q (parse_step f h n) c =
      runs Q (bindM (if reads then delegate_read_some h else returnM ()) (\<lambda>_. returnM r)) (c\<lparr>protocol := b\<rparr>)"
    by (simp add: runs_def parse_step_def f)
  have "(ok r = Some True \<longrightarrow> \<not> reads \<and> unset b = unset (protocol c) - {p}) \<and>
      (ok r = Some False \<longrightarrow> \<not> reads \<and> unset b = {}) \<and> (ok r = None \<longrightarrow> reads \<and> unset b = unset (protocol c))"
    using contract [unfolded parse_contract_def, rule_format, OF assms(2), of n] by (simp add: f)
  moreover have "ok r = None \<or> ok r = Some True \<or> ok r = Some False" by (metis (full_types) option.exhaust)
  ultimately show ?thesis
    using assms(3-6) by (auto simp: step runs_simps)
qed

section \<open>The invariant\<close>

text \<open>Which promises are open while a handler is pending.\<close>

fun open_at :: "'g exchange \<Rightarrow> handler \<Rightarrow> pname set" where
  "open_at X (On_received At_status captured) = UNIV - {P_version}"
| "open_at X (On_received At_status_message captured) = UNIV - {P_version, P_status}"
| "open_at X (On_received At_headers captured) = {P_headers, P_source, P_destination, P_body}"
| "open_at X (On_received At_body captured) =
     (if has_callback X then {P_source, P_destination} else {P_source, P_destination, P_body})"
| "open_at X h = UNIV"

text \<open>Only the closure of the status message captures an error code, and that code is no error.\<close>

fun captures_ok :: "handler \<Rightarrow> bool" where
  "captures_ok (On_received st captured) \<longleftrightarrow>
     captured = (if st = At_status_message then Some Ec_success else None)"
| "captures_ok h \<longleftrightarrow> True"

definition waits :: "'g exchange \<Rightarrow> handler \<Rightarrow> ('p, 'k, 'g) conn \<Rightarrow> bool" where
  "waits X h c \<longleftrightarrow> captures_ok h \<and> unset (protocol c) = open_at X h \<and> (h \<noteq> On_resolved \<longrightarrow> socket c \<noteq> None)"

definition conn_ok :: "'g exchange \<Rightarrow> ('p, 'k, 'g) conn \<Rightarrow> bool" where
  "conn_ok X c \<longleftrightarrow> (case pending c of [] \<Rightarrow> True | [h] \<Rightarrow> waits X h c | _ \<Rightarrow> False)"

text \<open>
  The promises that are still open when a completion ends the exchange: all that were open, at an end of
  file before the body, and the body, at an error before the body when there is a callback.
\<close>

fun left_open :: "'g exchange \<Rightarrow> bool \<Rightarrow> handler \<Rightarrow> completion \<Rightarrow> pname set" where
  "left_open X timedout (On_received st captured) (Received ec s) =
     (if st = At_body then {}
      else if timedout then (if has_callback X then {P_body} else {})
      else if captured \<noteq> None \<or> \<not> failed ec then {}
      else if ec = Ec_eof then open_at X (On_received st captured)
      else if has_callback X then {P_body} else {})"
| "left_open X timedout h e = {}"

definition next_or_end :: "'g exchange \<Rightarrow> pname set \<Rightarrow> 'a \<Rightarrow> ('p, 'k, 'g) conn \<Rightarrow> bool" where
  "next_or_end X left r d \<longleftrightarrow> conn_ok X d \<and> (pending d = [] \<longrightarrow> unset (protocol d) = left)"

lemma next_or_endI:
  "pending d = [h] \<Longrightarrow> waits X h d \<Longrightarrow> next_or_end X left r d"
  "pending d = [] \<Longrightarrow> unset (protocol d) = left \<Longrightarrow> next_or_end X left r d"
  by (simp_all add: next_or_end_def conn_ok_def)

lemma pname_UNIV:
  "UNIV = {P_version, P_status, P_status_message, P_headers, P_source, P_destination, P_body}"
  by (auto intro: pname.exhaust)

lemma unset_UNIV:
  "unset b = UNIV \<Longrightarrow> version_promise b = None \<and> status_promise b = None \<and> status_message_promise b = None
     \<and> headers_promise b = None \<and> source_promise b = None \<and> destination_promise b = None \<and> body_promise b = None"
  by (metis UNIV_I unset_mem)

lemma set_errors_ends:
  assumes "pending c = []" "unset (protocol c) = UNIV"
  shows "runs (next_or_end X {}) (set_errors X ec) c"
  using assms unset_UNIV [of "protocol c"]
  by (simp add: set_errors_def runs_simps next_or_end_def conn_ok_def pname_UNIV)

lemma handle_resolved_next:
  assumes "pending c = []" "unset (protocol c) = UNIV"
  shows "runs (next_or_end X {}) (handle_resolved X ec entries) c"
  using assms
  by (auto simp: handle_resolved_def runs_simps next_or_end_def conn_ok_def waits_def
      intro: set_errors_ends split: list.split)

lemma handle_connected_next:
  assumes "pending c = []" "unset (protocol c) = UNIV" "socket c \<noteq> None"
  shows "runs (next_or_end X {}) (handle_connected X entries ec) c"
  using assms
  by (auto simp: handle_connected_def runs_simps next_or_end_def conn_ok_def waits_def
      intro: set_errors_ends split: list.split)

lemma handle_sent_request_next:
  assumes "pending c = []" "unset (protocol c) = UNIV" "socket c \<noteq> None"
  shows "runs (next_or_end X {}) (handle_sent_request X ec) c"
  using assms
  by (auto simp: handle_sent_request_def runs_simps next_or_end_def conn_ok_def waits_def
      intro!: runs_next_chunk set_errors_ends split: option.split)

lemma contract_parts:
  assumes "netlib_contract L"
  shows "parse_contract P_version (\<lambda>b n. case parse_version L b n of (r, reads, d) \<Rightarrow> (r, reads, d))"
    "parse_contract P_status (\<lambda>b n. case parse_status L b n of (r, reads, d) \<Rightarrow> (r, reads, d))"
    "parse_contract P_status_message (\<lambda>b n. case parse_status_message L b n of (r, reads, d) \<Rightarrow> (r, reads, d))"
    "parse_contract P_headers (\<lambda>b n. case (case parse_headers L b n of (ok, remainder, reads, d) \<Rightarrow>
       ((ok, remainder), reads, d)) of (r, reads, d) \<Rightarrow> (fst r, reads, d))"
    "fst (parse_body L b n)" "unset (snd (parse_body L b n)) = unset b"
  using assms by (simp_all add: netlib_contract_def split_beta)

lemma parse_body_next:
  assumes "netlib_contract L" "pending c = []" "socket c \<noteq> None" "\<not> has_callback X"
    and "unset (protocol c) = {P_source, P_destination, P_body}"
  shows "runs (next_or_end X left) (parse_step (\<lambda>b n. case parse_body L b n of (reads, b) \<Rightarrow> ((), reads, b))
    (On_received At_body None) n) c"
proof -
  obtain reads b where b: "parse_body L (protocol c) n = (reads, b)" by fastforce
  have "reads" "unset b = unset (protocol c)"
    using contract_parts(5,6) [OF assms(1), of "protocol c" n] by (simp_all add: b)
  moreover have "runs (next_or_end X left) (parse_step (\<lambda>b n. case parse_body L b n of (reads, b) \<Rightarrow> ((), reads, b))
      (On_received At_body None) n) c =
    runs (next_or_end X left) (bindM (if reads then delegate_read_some (On_received At_body None) else returnM ())
      returnM) (c\<lparr>protocol := b\<rparr>)"
    by (simp add: runs_def parse_step_def b)
  ultimately show ?thesis
    using assms by (simp add: runs_simps next_or_end_def conn_ok_def waits_def)
qed

lemma finish_body_next:
  assumes "body_promise (protocol c) = None"
    and "\<And>v k. Q () (c\<lparr>chunk_state := k,
      protocol := (protocol c)\<lparr>partial_parsed := [], body_promise := Some (Inr v)\<rparr>\<rparr>)"
  shows "runs Q (finish_body L n) c"
  using assms(1) assms(2) [of _ "chunk_state c"] assms(2)
  by (auto simp: finish_body_def runs_simps intro!: runs_blocks runs_chunk)

lemma clear_part_next [runs_simps]:
  "runs Q (clear_part L) c = Q () (c\<lparr>protocol := (protocol c)
     \<lparr>part := [CHR 0x00, CHR 0x00] @ drop 2 (part (protocol c)),
      response_parser := parser_reset L (response_parser (protocol c))\<rparr>\<rparr>)"
  by (simp add: clear_part_def runs_simps)

lemma open_promises:
  "P_source \<in> unset b \<Longrightarrow> source_promise b = None"
  "P_destination \<in> unset b \<Longrightarrow> destination_promise b = None"
  "P_body \<in> unset b \<Longrightarrow> body_promise b = None"
  by simp_all

lemma from_body_next:
  assumes L: "netlib_contract L" and idle: "pending c = []" "socket c \<noteq> None"
    and opened: "unset (protocol c) = open_at X (On_received At_body None)"
  shows "runs (next_or_end X {}) (from_body L X ec n) c"
proof -
  have promises: "source_promise (protocol c) = None" "destination_promise (protocol c) = None"
    "\<not> has_callback X \<Longrightarrow> body_promise (protocol c) = None"
    by (rule open_promises, simp add: opened)+
  let ?last = "bindM (satisfy destination_promise destination_promise_update (Inr [])) (\<lambda>_.
    bindM (satisfy source_promise source_promise_update (Inr [])) (\<lambda>_. bindM (clear_part L) (\<lambda>_. timer_cancel)))"
  have finish: "runs (\<lambda>_. runs (next_or_end X {}) ?last) (finish_body L n) c" if "\<not> has_callback X"
    by (rule finish_body_next)
      (simp_all add: that promises runs_simps next_or_end_def conn_ok_def idle opened insert_Diff_if)
  have range_end: "runs (\<lambda>_. runs (next_or_end X {}) ?last)
      (callback_range L (take n (part (protocol c))) Ec_eof) c" if "has_callback X"
    by (rule runs_range)
      (simp add: that promises runs_simps next_or_end_def conn_ok_def idle opened insert_Diff_if)
  have range_next: "runs (\<lambda>x. runs (next_or_end X {}) (delegate_read_some (On_received At_body None)))
        (callback_range L (take n (part (protocol c))) ec) c"
    by (rule runs_range) (simp add: runs_simps next_or_end_def conn_ok_def waits_def idle opened)
  have body_next: "runs (next_or_end X {}) (parse_step (\<lambda>b n. case parse_body L b n of (reads, b) \<Rightarrow> ((), reads, b))
        (On_received At_body None) n) c" if "\<not> has_callback X"
    by (rule parse_body_next [OF L]) (simp_all add: that idle opened)
  show ?thesis
    using finish range_end range_next body_next by (simp add: from_body_def runs_bind runs_get)
qed

lemma headers_done_next:
  assumes L: "netlib_contract L" and idle: "pending c = []" "socket c \<noteq> None"
    and opened: "unset (protocol c) = {P_source, P_destination, P_body}"
  shows "runs (next_or_end X {}) (headers_done L X ec n) c"
proof -
  have promises: "source_promise (protocol c) = None" "destination_promise (protocol c) = None"
    "body_promise (protocol c) = None"
    by (rule open_promises, simp add: opened)+
  let ?c = "c\<lparr>protocol := body_promise_update (\<lambda>_. Some (Inr [])) (protocol c)\<rparr>"
  have range_next: "runs (\<lambda>x. runs (next_or_end X {}) (delegate_read_some (On_received At_body None)))
        (callback_range L rng ec) ?c" if "has_callback X" for rng
    by (rule runs_range) (simp add: that runs_simps next_or_end_def conn_ok_def waits_def idle opened insert_commute)
  have body_next: "runs (next_or_end X {}) (parse_step (\<lambda>b n. case parse_body L b n of (reads, b) \<Rightarrow> ((), reads, b))
        (On_received At_body None) n) c" if "\<not> has_callback X"
    by (rule parse_body_next [OF L]) (simp_all add: that idle opened)
  show ?thesis
    using range_next body_next
    by (simp add: headers_done_def runs_simps promises next_or_end_def conn_ok_def idle opened insert_Diff_if)
qed

lemma parse_phase_next:
  assumes contract: "parse_contract p (\<lambda>b n. case f b n of (r, reads, d) \<Rightarrow> (ok r, reads, d))"
    and idle: "pending c = []" "socket c \<noteq> None" and opened: "p \<in> unset (protocol c)"
    and here: "captures_ok h" "open_at X h = unset (protocol c)"
    and cont: "\<And>r b. ok r = Some True \<Longrightarrow> unset b = unset (protocol c) - {p}
      \<Longrightarrow> runs (next_or_end X {}) (k r) (c\<lparr>protocol := b\<rparr>)"
  shows "runs (next_or_end X {}) (bindM (parse_step f h n) (\<lambda>r. if ok r \<noteq> Some True then returnM () else k r)) c"
proof -
  have "runs (\<lambda>r. runs (next_or_end X {}) (if ok r \<noteq> Some True then returnM () else k r)) (parse_step f h n) c"
    by (rule runs_parse_step [OF contract opened idle(2)])
      (simp_all add: cont runs_simps next_or_end_def conn_ok_def waits_def idle here)
  then show ?thesis by (simp only: runs_bind)
qed

lemma from_headers_next:
  fixes c :: "('p, 'k, 'g) conn"
  assumes L: "netlib_contract L" and idle: "pending c = []" "socket c \<noteq> None"
    and opened: "unset (protocol c) = open_at X (On_received At_headers None)"
  shows "runs (next_or_end X {}) (from_headers L X Ec_success n) c"
proof -
  have k: "runs (next_or_end X {}) (headers_done L X Ec_success (snd r))
      (c\<lparr>protocol := b\<rparr>)" if "unset b = unset (protocol c) - {P_headers}" for r :: "bool option \<times> nat" and b
    using that by (cases r) (simp add: headers_done_next [OF L] idle opened insert_Diff_if)
  have "runs (next_or_end X {}) (bindM (parse_step (\<lambda>b n. case parse_headers L b n of (ok, remainder, reads, b) \<Rightarrow>
        ((ok, remainder), reads, b)) (On_received At_headers None) n)
      (\<lambda>r. if fst r \<noteq> Some True then returnM ()
        else headers_done L X Ec_success (snd r))) c"
    by (rule parse_phase_next [OF contract_parts(4) [OF L] idle]) (simp_all add: opened k)
  then show ?thesis by (simp add: from_headers_def case_prod_beta')
qed

lemma from_status_message_next:
  fixes c :: "('p, 'k, 'g) conn"
  assumes L: "netlib_contract L" and idle: "pending c = []" "socket c \<noteq> None"
    and opened: "unset (protocol c) = open_at X (On_received At_status_message (Some Ec_success))"
  shows "runs (next_or_end X {}) (from_status_message L X Ec_success n) c"
  unfolding from_status_message_def if_not_P [OF error_code.distinct(1)]
proof (rule parse_phase_next [OF contract_parts(3) [OF L] idle])
  fix r :: "bool option" and b :: "'p protocol"
  assume "unset b = unset (protocol c) - {P_status_message}"
  then show "runs (next_or_end X {}) (from_headers L X Ec_success n) (c\<lparr>protocol := b\<rparr>)"
    by (intro from_headers_next [OF L]) (simp_all add: idle opened pname_UNIV insert_Diff_if)
qed (simp_all add: opened)

lemma from_status_next:
  fixes c :: "('p, 'k, 'g) conn"
  assumes L: "netlib_contract L" and idle: "pending c = []" "socket c \<noteq> None"
    and opened: "unset (protocol c) = open_at X (On_received At_status None)"
  shows "runs (next_or_end X {}) (from_status L X Ec_success n) c"
  unfolding from_status_def if_not_P [OF error_code.distinct(1)]
proof (rule parse_phase_next [OF contract_parts(2) [OF L] idle])
  fix r :: "bool option" and b :: "'p protocol"
  assume "unset b = unset (protocol c) - {P_status}"
  then show "runs (next_or_end X {}) (from_status_message L X Ec_success n) (c\<lparr>protocol := b\<rparr>)"
    by (intro from_status_message_next [OF L]) (simp_all add: idle opened pname_UNIV insert_Diff_if)
qed (simp_all add: opened)

lemma from_version_next:
  fixes c :: "('p, 'k, 'g) conn"
  assumes L: "netlib_contract L" and idle: "pending c = []" "socket c \<noteq> None"
    and opened: "unset (protocol c) = open_at X (On_received At_version None)"
  shows "runs (next_or_end X {}) (from_version L X Ec_success n) c"
  unfolding from_version_def if_not_P [OF error_code.distinct(1)]
proof (rule parse_phase_next [OF contract_parts(1) [OF L] idle])
  fix r :: "bool option" and b :: "'p protocol"
  assume "unset b = unset (protocol c) - {P_version}"
  then show "runs (next_or_end X {}) (from_status L X Ec_success n) (c\<lparr>protocol := b\<rparr>)"
    by (intro from_status_next [OF L]) (simp_all add: idle opened)
qed (simp_all add: opened)

lemmas fail_defs = fail_version_def fail_status_def fail_status_message_def fail_headers_def fail_body_def

lemma receive_error_next:
  fixes c :: "('p, 'k, 'g) conn"
  assumes idle: "pending c = []" and opened: "unset (protocol c) = open_at X (On_received st captured)"
    and error: "is_timedout c \<or> failed ec \<and> ec \<noteq> Ec_eof"
  shows "runs (\<lambda>r d. pending d = [] \<and> unset (protocol d) = (if has_callback X \<and> st \<noteq> At_body then {P_body} else {}))
    (handle_received_data L X st ec n) c"
proof -
  let ?p = "protocol c" and ?o = "open_at X (On_received st captured)"
  have "version_promise ?p = None \<longleftrightarrow> P_version \<in> ?o" "status_promise ?p = None \<longleftrightarrow> P_status \<in> ?o"
    "status_message_promise ?p = None \<longleftrightarrow> P_status_message \<in> ?o" "headers_promise ?p = None \<longleftrightarrow> P_headers \<in> ?o"
    "source_promise ?p = None \<longleftrightarrow> P_source \<in> ?o" "destination_promise ?p = None \<longleftrightarrow> P_destination \<in> ?o"
    "body_promise ?p = None \<longleftrightarrow> P_body \<in> ?o"
    by (simp_all flip: opened)
  note promises = this
  show ?thesis
    using error promises
    by (cases st; cases "has_callback X"; cases "is_timedout c")
      (simp_all add: handle_received_data_def Let_def runs_simps fail_defs idle opened pname_UNIV insert_Diff_if)
qed

lemma receive_next:
  fixes c :: "('p, 'k, 'g) conn"
  assumes L: "netlib_contract L" and idle: "pending c = []"
    and waiting: "waits X (On_received st captured) c"
  shows "runs (next_or_end X (left_open X (is_timedout c) (On_received st captured) (Received ec s)))
    (handle_received_data L X st (case captured of None \<Rightarrow> ec | Some outer_ec \<Rightarrow> outer_ec) (length s)) c"
proof -
  let ?ec = "case captured of None \<Rightarrow> ec | Some outer_ec \<Rightarrow> outer_ec"
  have captured: "captured = (if st = At_status_message then Some Ec_success else None)"
    and opened: "unset (protocol c) = open_at X (On_received st captured)" and sock: "socket c \<noteq> None"
    using waiting by (simp_all add: waits_def)
  consider (error) "is_timedout c \<or> failed ?ec \<and> ?ec \<noteq> Ec_eof"
    | (eof) "\<not> is_timedout c" "?ec = Ec_eof" "st \<noteq> At_body"
    | (body) "\<not> is_timedout c" "st = At_body" "?ec = Ec_eof \<or> ?ec = Ec_success"
    | (data) "\<not> is_timedout c" "?ec = Ec_success" "st \<noteq> At_body" by blast
  then show ?thesis
  proof cases
    case error
    then show ?thesis
      using captured
      by (intro runs_mono [OF receive_error_next [OF idle opened error]])
        (auto simp: next_or_end_def conn_ok_def split: if_splits)
  next
    case eof
    then show ?thesis
      using idle opened captured
      by (cases st) (simp_all add: handle_received_data_def runs_simps from_version_def from_status_def
          from_status_message_def from_headers_def next_or_end_def conn_ok_def)
  next
    case body
    then show ?thesis
      using from_body_next [OF L idle sock, of X ?ec "length s"] opened captured
      by (auto simp: handle_received_data_def runs_simps)
  next
    case data
    then show ?thesis
      using captured opened
      by (cases st) (simp_all add: handle_received_data_def runs_simps L idle sock
          from_version_next from_status_next from_status_message_next from_headers_next)
  qed
qed

lemma run_handler_next:
  fixes c :: "('p, 'k, 'g) conn"
  assumes L: "netlib_contract L" and waiting: "waits X h c" and "fits h e"
  shows "runs (next_or_end X (left_open X (is_timedout c) h e)) (run_handler L X h e) (c\<lparr>pending := []\<rparr>)"
proof (cases "(h, e)" rule: fits.cases)
  case (4 st captured ec s)
  let ?c = "c\<lparr>pending := [], protocol := (protocol c)\<lparr>part := s @ drop (length s) (part (protocol c))\<rparr>\<rparr>"
  have "waits X (On_received st captured) ?c"
    using waiting 4 by (simp add: waits_def)
  then have "runs (next_or_end X (left_open X (is_timedout ?c) (On_received st captured) (Received ec s)))
      (handle_received_data L X st (case captured of None \<Rightarrow> ec | Some outer_ec \<Rightarrow> outer_ec) (length s)) ?c"
    by (intro receive_next [OF L]) simp_all
  with 4 show ?thesis by (simp add: runs_simps)
qed (use assms in \<open>auto simp: waits_def runs_simps
    intro: handle_resolved_next handle_connected_next handle_sent_request_next\<close>)

section \<open>Reachable connections\<close>

lemma run_handler_ok:
  fixes c :: "('p, 'k, 'g) conn"
  assumes "netlib_contract L" "waits X h c" "fits h e"
  shows "\<exists>d. run_handler L X h e (c\<lparr>pending := []\<rparr>) = (Inr (), d) \<and> conn_ok X d \<and>
    (pending d = [] \<longrightarrow> unset (protocol d) = left_open X (is_timedout c) h e)"
  using runsD [OF run_handler_next [OF assms]] by (auto simp: next_or_end_def)

lemma conn_ok_pending:
  "conn_ok X c \<Longrightarrow> pending c = hs @ h # hs' \<Longrightarrow> hs = [] \<and> hs' = [] \<and> waits X h c"
  by (cases hs) (auto simp: conn_ok_def split: list.splits)

lemma handle_timeout_keeps [simp]:
  "pending (handle_timeout ec shutdown_ec c) = pending c"
  "protocol (handle_timeout ec shutdown_ec c) = protocol c"
  "socket (handle_timeout ec shutdown_ec c) = None \<longleftrightarrow> socket c = None"
  by (auto simp: handle_timeout_def disconnect_def split: option.split)

lemma conn_step_ok:
  assumes L: "netlib_contract L" and "conn_ok X c" and "conn_step L X c d"
  shows "conn_ok X d"
  using assms(3)
proof cases
  case (completed hs h hs' e)
  with conn_ok_pending [OF assms(2)] have "waits X h c" "hs = []" "hs' = []" by simp_all
  then show ?thesis
    using run_handler_ok [OF L _ completed(3), of X c] completed(1) by auto
qed (use assms(2) in \<open>simp_all add: conn_ok_def waits_def split: list.splits\<close>)

lemma start_runs:
  assumes "pending c0 = []" "unset (protocol c0) = UNIV"
  shows "\<exists>c. start linearized c0 = (Inr (), c) \<and> conn_ok X c \<and> pending c = [On_resolved] \<and>
    protocol c = protocol c0 \<and> socket c = socket c0 \<and> is_timedout c = is_timedout c0 \<and>
    callback_calls c = callback_calls c0"
  using assms by (simp add: start_def schedule_def meth_simps conn_ok_def waits_def)

lemma reachable_ok:
  assumes "netlib_contract L" and "unset b = UNIV"
    and "conn_reachable L X (snd (start linearized (new_connection t remove b k g))) c"
  shows "conn_ok X c"
  using assms(3)
proof (induction rule: conn_reachable.induct)
  case first
  have "pending (new_connection t remove b k g) = []"
    "unset (protocol (new_connection t remove b k g)) = UNIV"
    using assms(2) by (simp_all add: new_connection_def)
  from start_runs [OF this] obtain d where
    "start linearized (new_connection t remove b k g) = (Inr (), d)" "conn_ok X d"
    by blast
  then show ?case by simp
next
  case (later c d)
  then show ?case by (blast intro: conn_step_ok [OF assms(1)])
qed

text \<open>A parser for which every part is complete at once, to run the machine on concrete input.\<close>

definition fresh_protocol :: "unit protocol" where
  "fresh_protocol =
     \<lparr>version_promise = None, status_promise = None, status_message_promise = None, headers_promise = None,
      source_promise = None, destination_promise = None, body_promise = None,
      part = replicate 1024 (CHR 0x00), part_begin = 0, partial_parsed = [], is_chunk_encoding = False,
      response_parser = ()\<rparr>"

definition eager_netlib :: "(unit, unit) netlib" where
  "eager_netlib =
     \<lparr>parse_version = (\<lambda>b n. (Some True, False, b\<lparr>version_promise := Some (Inr ''HTTP/1.1'')\<rparr>)),
      parse_status = (\<lambda>b n. (Some True, False, b\<lparr>status_promise := Some (Inr 200)\<rparr>)),
      parse_status_message = (\<lambda>b n. if n = 0 then (None, True, b)
        else (Some True, False, b\<lparr>status_message_promise := Some (Inr ''OK'')\<rparr>)),
      parse_headers = (\<lambda>b n. (Some True, n, False, b\<lparr>headers_promise := Some (Inr [])\<rparr>)),
      parse_body = (\<lambda>b n. (True, b\<lparr>partial_parsed := partial_parsed b @ take n (drop (part_begin b) (part b)),
        part_begin := 0\<rparr>)),
      parser_reset = (\<lambda>p. p), parse_chunk = (\<lambda>k s. (s, k))\<rparr>"

definition plain_get :: "unit exchange" where
  "plain_get = \<lparr>get_body = True, has_callback = False, body_generator = None\<rparr>"

lemma eager_netlib_contract: "netlib_contract eager_netlib"
  by (simp add: netlib_contract_def parse_contract_def eager_netlib_def)

lemma fresh_protocol_open: "unset fresh_protocol = UNIV"
proof -
  have "x \<in> unset fresh_protocol" for x by (cases x) (simp_all add: fresh_protocol_def)
  then show ?thesis by blast
qed

text \<open>
  C27.  In every run of a connection, whatever its completions and whenever its timer runs out, at most one
  operation of the socket is outstanding, and no handler satisfies a promise twice or uses a null socket.
\<close>

theorem connection_safe:
  assumes "netlib_contract L" and "unset b = UNIV"
    and "conn_reachable L X (snd (start linearized (new_connection t remove b k g))) c"
  shows "length (pending c) \<le> 1 \<and>
    (\<forall>h e. h \<in> set (pending c) \<and> fits h e \<longrightarrow> fst (run_handler L X h e (c\<lparr>pending := []\<rparr>)) = Inr ())"
proof -
  have ok: "conn_ok X c" by (rule reachable_ok [OF assms])
  then have "length (pending c) \<le> 1" by (auto simp: conn_ok_def split: list.splits)
  moreover have "fst (run_handler L X h e (c\<lparr>pending := []\<rparr>)) = Inr ()" if "h \<in> set (pending c)" "fits h e" for h e
  proof -
    from that(1) obtain hs hs' where "pending c = hs @ h # hs'" by (auto simp: in_set_conv_decomp)
    with conn_ok_pending [OF ok] have "waits X h c" by simp
    from run_handler_ok [OF assms(1) this that(2)] show ?thesis by auto
  qed
  ultimately show ?thesis by blast
qed

section \<open>How an exchange ends\<close>

lemma set_errors_idle:
  "unset (protocol c) = UNIV \<Longrightarrow> runs (\<lambda>r d. pending d = pending c) (set_errors X ec) c"
  using unset_UNIV [of "protocol c"] by (simp add: set_errors_def runs_simps)

lemma timed_out_idle:
  fixes c :: "('p, 'k, 'g) conn"
  assumes "waits X h c" "is_timedout c" "h \<noteq> On_resolved" "fits h e"
  shows "runs (\<lambda>r d. pending d = []) (run_handler L X h e) (c\<lparr>pending := []\<rparr>)"
proof (cases "(h, e)" rule: fits.cases)
  case (2 rest ec)
  let ?c = "c\<lparr>pending := []\<rparr>"
  have "runs (\<lambda>r d. pending d = pending ?c) (set_errors X Ec_timed_out) ?c"
    by (rule set_errors_idle) (use assms 2 in \<open>simp add: waits_def\<close>)
  then show ?thesis using assms 2 by (simp add: handle_connected_def runs_simps)
next
  case (3 ec n)
  let ?c = "c\<lparr>pending := [], command_streambuf := drop n (command_streambuf c)\<rparr>"
  have "runs (\<lambda>r d. pending d = pending ?c) (set_errors X Ec_timed_out) ?c"
    by (rule set_errors_idle) (use assms 3 in \<open>simp add: waits_def\<close>)
  then show ?thesis using assms 3 by (simp add: handle_sent_request_def runs_simps)
next
  case (4 st captured ec s)
  let ?c = "c\<lparr>pending := [], protocol := (protocol c)\<lparr>part := s @ drop (length s) (part (protocol c))\<rparr>\<rparr>"
  have "runs (\<lambda>r d. pending d = []) (handle_received_data L X st
      (case captured of None \<Rightarrow> ec | Some outer_ec \<Rightarrow> outer_ec) (length s)) ?c"
    by (rule runs_mono [OF receive_error_next [of ?c X st captured]])
      (use assms 4 in \<open>simp_all add: waits_def\<close>)
  then show ?thesis using 4 by (simp add: runs_simps)
qed (use assms in auto)

text \<open>
  C28.  Every completion either leaves one operation outstanding, and no promise of the parts still to come
  is satisfied yet, or ends the exchange with all promises satisfied, with two exceptions: an end of file
  before the headers are complete leaves everything that was open, and an error there leaves the promise
  of the body when there is a callback.  After the timer has run out, every completion but that of the
  resolver ends the exchange.
\<close>

theorem connection_outcome:
  assumes "netlib_contract L" and "unset b = UNIV"
    and "conn_reachable L X (snd (start linearized (new_connection t remove b k g))) c"
    and "pending c = [h]" and "fits h e"
  shows "let d = snd (run_handler L X h e (c\<lparr>pending := []\<rparr>))
    in (case pending d of
          [] \<Rightarrow> unset (protocol d) = left_open X (is_timedout c) h e
        | h' # hs \<Rightarrow> hs = [] \<and> unset (protocol d) = open_at X h' \<and> (is_timedout c \<longrightarrow> h = On_resolved))"
proof -
  from reachable_ok [OF assms(1-3)] have w: "waits X h c" by (simp add: conn_ok_def assms(4))
  obtain d where d: "run_handler L X h e (c\<lparr>pending := []\<rparr>) = (Inr (), d)" "conn_ok X d"
    "pending d = [] \<longrightarrow> unset (protocol d) = left_open X (is_timedout c) h e"
    using run_handler_ok [OF assms(1) w assms(5)] by blast
  have "pending d = []" if "is_timedout c" "h \<noteq> On_resolved"
    using timed_out_idle [OF w that assms(5), of L] by (simp add: runs_def d(1))
  with d show ?thesis by (auto simp: conn_ok_def waits_def split: list.splits)
qed

lemma run_completions_reachable:
  "run_completions L X es c = Some (Inr (), d) \<Longrightarrow> conn_reachable L X c0 c \<Longrightarrow> conn_reachable L X c0 d"
proof (induction es arbitrary: c)
  case (Cons e es)
  from Cons.prems(1) obtain h r c' where h: "pending c = [] @ h # []" "fits h e"
    and run: "run_handler L X h e (c\<lparr>pending := []\<rparr>) = (Inr r, c')" "run_completions L X es c' = Some (Inr (), d)"
    by (auto split: list.splits if_splits prod.splits sum.splits)
  from completed [of c "[]" h "[]", OF h, of L X] have "conn_step L X c c'"
    by (simp add: run(1))
  with Cons.prems(2) have "conn_reachable L X c0 c'" by (rule later)
  with Cons.IH [OF run(2)] show ?case by blast
qed simp

lemmas handler_defs =
  handle_resolved_def handle_connected_def handle_sent_request_def next_chunk_def handle_received_data_def
  delegate_connect_def delegate_write_def delegate_read_some_def with_socket_def schedule_def
  satisfy_def set_errors_def call_callback_def timer_cancel_def fail_defs

lemmas receive_defs =
  from_version_def from_status_def from_status_message_def from_headers_def headers_done_def from_body_def
  parse_step_def parse_chunk_encoding_def callback_range_def finish_body_def clear_part_def

lemmas sample_defs =
  fresh_protocol_def eager_netlib_def plain_get_def new_connection_def start_def schedule_def meth_simps

text \<open>A connection that has sent its request and reads the version.\<close>

definition sample_reading :: "(unit, unit, unit) conn" where
  "sample_reading =
     \<lparr>timeout = 30, remove_chunk_markers = False, timer_wait = Timer_waiting, is_timedout = False,
      socket = Some \<lparr>peer = ''/s'', is_open = True\<rparr>, command_streambuf = [], chunk_state = (),
      protocol = fresh_protocol, pending = [On_received At_version None], generator_state = (),
      callback_calls = []\<rparr>"

lemma sample_reading_reachable:
  "conn_reachable eager_netlib plain_get
     (snd (start ''GET'' (new_connection 30 False fresh_protocol () ()))) sample_reading"
proof (rule run_completions_reachable [OF _ conn_reachable.first])
  let ?entry = "\<lparr>endpoint_path = ''/s'', entry_host_name = ''/s'', entry_service_name = []\<rparr>"
  show "run_completions eager_netlib plain_get
      [Resolved Ec_success [?entry], Connected Ec_success, Sent Ec_success 3]
      (snd (start ''GET'' (new_connection 30 False fresh_protocol () ()))) = Some (Inr (), sample_reading)"
    by (simp add: sample_reading_def sample_defs handler_defs)
qed

theorem connection_safe_witness:
  "length (pending sample_reading) \<le> 1 \<and>
   fst (run_handler eager_netlib plain_get (On_received At_version None) (Received Ec_success ''HTTP/1.1 200 OK'')
     (sample_reading\<lparr>pending := []\<rparr>)) = Inr ()"
proof -
  have "On_received At_version None \<in> set (pending sample_reading)" by (simp add: sample_reading_def)
  with connection_safe [OF eager_netlib_contract fresh_protocol_open sample_reading_reachable]
  show ?thesis by (metis fits.simps(4))
qed

theorem connection_outcome_witness:
  "unset (protocol (snd (run_handler eager_netlib plain_get (On_received At_version None)
     (Received Ec_eof []) (sample_reading\<lparr>pending := []\<rparr>)))) = UNIV"
  using connection_outcome [OF eager_netlib_contract fresh_protocol_open sample_reading_reachable,
      of "On_received At_version None" "Received Ec_eof []"]
  by (simp add: sample_reading_def Let_def meth_simps handle_received_data_def from_version_def)

section \<open>The error code of the status message\<close>

lemma status_message_ignores:
  "run_handler L X (On_received At_status_message (Some outer_ec)) (Received ec s) =
   run_handler L X (On_received At_status_message (Some outer_ec)) (Received ec' s)"
  by simp

lemma empty_status_message_again:
  assumes "waits X h c" "h = On_received At_status_message (Some Ec_success)" "pending c = [h]" "\<not> is_timedout c"
    and "parse_status_message L (protocol c) 0 = (None, True, protocol c)"
  shows "run_handler L X h (Received ec []) (c\<lparr>pending := []\<rparr>) = (Inr (), c)"
proof -
  from assms(1,2) obtain sock where "socket c = Some sock" by (auto simp: waits_def)
  moreover have "c\<lparr>pending := [h]\<rparr> = c" using assms(3) by (cases c) simp
  ultimately show ?thesis
    using assms(2,4,5)
    by (simp add: handle_received_data_def from_status_message_def parse_step_def delegate_read_some_def
        with_socket_def schedule_def meth_simps)
qed

text \<open>
  The handler of a read for the rest of the status message does not see how the read ended: an error
  or the end of file has the effect of success.  If the parser needs more than nothing, a connection
  that is closed there is left exactly as it was and read again, without end, unless the timer runs out.
\<close>

theorem status_message_error_unseen:
  assumes "netlib_contract L" and "unset b = UNIV"
    and "conn_reachable L X (snd (start linearized (new_connection t remove b k g))) c"
    and "pending c = [On_received At_status_message captured]"
  shows "run_handler L X (On_received At_status_message captured) (Received ec s) =
      run_handler L X (On_received At_status_message captured) (Received Ec_success s) \<and>
    (\<not> is_timedout c \<and> parse_status_message L (protocol c) 0 = (None, True, protocol c) \<longrightarrow>
      run_completions L X (replicate n (Received ec [])) c = Some (Inr (), c))"
proof -
  from reachable_ok [OF assms(1-3)] have w: "waits X (On_received At_status_message captured) c"
    by (simp add: conn_ok_def assms(4))
  then have captured: "captured = Some Ec_success" by (simp add: waits_def)
  have "run_completions L X (replicate n (Received ec [])) c = Some (Inr (), c)"
    if "\<not> is_timedout c" "parse_status_message L (protocol c) 0 = (None, True, protocol c)"
  proof (induction n)
    case (Suc n)
    have "run_handler L X (On_received At_status_message (Some Ec_success)) (Received ec []) (c\<lparr>pending := []\<rparr>)
        = (Inr (), c)"
      using w assms(4) that unfolding captured by (intro empty_status_message_again) simp_all
    with Suc show ?case by (simp add: assms(4) captured del: run_handler.simps)
  qed simp
  then show ?thesis using status_message_ignores [of L X Ec_success ec s Ec_success] captured by blast
qed

text \<open>A server whose first packet ends with the status code.\<close>

definition split_netlib :: "(unit, unit) netlib" where
  "split_netlib = eager_netlib\<lparr>parse_status_message := (\<lambda>b n. (None, True, b))\<rparr>"

lemma split_netlib_contract: "netlib_contract split_netlib"
  by (simp add: netlib_contract_def parse_contract_def split_netlib_def eager_netlib_def)

definition sample_status_message :: "(unit, unit, unit) conn" where
  "sample_status_message =
     sample_reading\<lparr>protocol := fresh_protocol\<lparr>part := ''HTTP/1.1 200'' @ replicate 1012 (CHR 0x00),
       version_promise := Some (Inr ''HTTP/1.1''), status_promise := Some (Inr 200)\<rparr>,
      pending := [On_received At_status_message (Some Ec_success)]\<rparr>"

lemma sample_status_message_reachable:
  "conn_reachable split_netlib plain_get
     (snd (start ''GET'' (new_connection 30 False fresh_protocol () ()))) sample_status_message"
proof (rule run_completions_reachable [OF _ conn_reachable.first])
  let ?entry = "\<lparr>endpoint_path = ''/s'', entry_host_name = ''/s'', entry_service_name = []\<rparr>"
  show "run_completions split_netlib plain_get
      [Resolved Ec_success [?entry], Connected Ec_success, Sent Ec_success 3, Received Ec_success ''HTTP/1.1 200'']
      (snd (start ''GET'' (new_connection 30 False fresh_protocol () ()))) = Some (Inr (), sample_status_message)"
    by (simp add: sample_status_message_def sample_reading_def split_netlib_def sample_defs handler_defs
        receive_defs)
qed

theorem status_message_error_unseen_witness:
  "run_completions split_netlib plain_get (replicate 1000 (Received Ec_eof [])) sample_status_message =
     Some (Inr (), sample_status_message)"
proof -
  have "pending sample_status_message = [On_received At_status_message (Some Ec_success)]"
    by (simp add: sample_status_message_def)
  from status_message_error_unseen [OF split_netlib_contract fresh_protocol_open
      sample_status_message_reachable this, of Ec_eof "[]" 1000]
  show ?thesis
    by (simp add: split_netlib_def sample_status_message_def sample_reading_def)
qed

section \<open>Delivery of the body\<close>


















section \<open>From the host name to the socket\<close>

lemma set_errors_all:
  assumes "unset (protocol c) = UNIV"
  shows "\<exists>d. set_errors X ec c = (Inr (), d) \<and> pending d = pending c \<and> socket d = socket c \<and>
    status_promise (protocol d) = Some (Inl (System_error ec)) \<and>
    body_promise (protocol d) = Some (Inl (System_error ec)) \<and> unset (protocol d) = {}"
  using assms unset_UNIV [of "protocol c"]
  by (simp add: set_errors_def satisfy_def call_callback_def timer_cancel_def meth_simps pname_UNIV insert_Diff_if)

text \<open>
  A request connects to the path that its host name decodes to, once, and only if that is a socket.
  Otherwise, and when the connection fails, there is no other endpoint to try: status and body fail
  with the error of the resolver or of the connection, and nothing is left outstanding.
\<close>

theorem request_connects_to_host:
  fixes k :: 'k and g :: 'g
  assumes "unset b = UNIV" and "decode (host_name query) = Inr path"
    and "async_resolve decode stat cancelled query = Inr (Handler_invoked ec entries)"
  shows "let c = snd (start linearized (new_connection t remove b k g));
      err = (if cancelled then Ec_operation_aborted else Ec_host_not_found)
    in if stat path = Some True \<and> \<not> cancelled
       then (\<exists>d. run_completions L X [Resolved ec entries] c = Some (Inr (), d) \<and> pending d = [On_connected []] \<and>
               map_option peer (socket d) = Some path \<and>
               (failed ec' \<longrightarrow> (\<exists>d'. run_completions L X [Connected ec'] d = Some (Inr (), d') \<and> pending d' = [] \<and>
                 status_promise (protocol d') = Some (Inl (System_error ec')) \<and>
                 body_promise (protocol d') = Some (Inl (System_error ec')))))
       else (\<exists>d. run_completions L X [Resolved ec entries] c = Some (Inr (), d) \<and> pending d = [] \<and> socket d = None \<and>
               status_promise (protocol d) = Some (Inl (System_error err)) \<and>
               body_promise (protocol d) = Some (Inl (System_error err)))"
proof -
  let ?c = "snd (start linearized (new_connection t remove b k g))"
  let ?err = "if cancelled then Ec_operation_aborted else Ec_host_not_found"
  have c: "pending ?c = [On_resolved]" "unset (protocol ?c) = UNIV" "socket ?c = None" "\<not> is_timedout ?c"
    using assms(1) by (simp_all add: start_def new_connection_def schedule_def meth_simps)
  have idle: "unset (protocol (?c\<lparr>pending := []\<rparr>)) = UNIV" using c(2) by simp
  show ?thesis
  proof (cases "stat path = Some True \<and> \<not> cancelled")
    case True
    let ?entry = "\<lparr>endpoint_path = path, entry_host_name = path, entry_service_name = service_name query\<rparr>"
    let ?d = "?c\<lparr>pending := [On_connected []], socket := Some \<lparr>peer = path, is_open = True\<rparr>\<rparr>"
    have r: "ec = Ec_success" "entries = [?entry]"
      using assms(2,3) True by (simp_all add: async_resolve_running resolve_query_def Let_def stat_result_def)
    have "run_completions L X [Resolved ec entries] ?c = Some (Inr (), ?d)"
      using c by (simp add: r handle_resolved_def delegate_connect_def schedule_def meth_simps)
    moreover have "\<exists>d'. run_completions L X [Connected ec'] ?d = Some (Inr (), d') \<and> pending d' = [] \<and>
        status_promise (protocol d') = Some (Inl (System_error ec')) \<and>
        body_promise (protocol d') = Some (Inl (System_error ec'))" if "failed ec'"
    proof -
      have "unset (protocol (?d\<lparr>pending := []\<rparr>)) = UNIV" using c(2) by simp
      from set_errors_all [OF this, of X ec'] that c show ?thesis
        by (auto simp: handle_connected_def meth_simps)
    qed
    ultimately show ?thesis
      unfolding Let_def if_P [OF True] by (intro exI [of _ ?d]) auto
  next
    case False
    then have r: "ec = ?err" "entries = []"
      using assms(2,3)
      by (cases cancelled; auto simp: async_resolve_cancelled async_resolve_running resolve_query_def
          Let_def stat_result_def)+
    have "handle_resolved X ec entries (?c\<lparr>pending := []\<rparr>) = set_errors X ?err (?c\<lparr>pending := []\<rparr>)"
      by (simp add: r handle_resolved_def)
    with set_errors_all [OF idle, of X ?err] c False show ?thesis by (auto simp: Let_def)
  qed
qed

text \<open>The socket of Docker, with a decoder that knows its encoded name.\<close>

definition docker_decode :: "string \<Rightarrow> unit + string" where
  "docker_decode h = (if h = ''%2Fvar%2Frun%2Fdocker.sock'' then Inr ''/var/run/docker.sock'' else Inl ())"

theorem request_connects_to_host_witness:
  "\<exists>d. run_completions eager_netlib plain_get
         [Resolved Ec_success [\<lparr>endpoint_path = ''/var/run/docker.sock'',
            entry_host_name = ''/var/run/docker.sock'', entry_service_name = ''80''\<rparr>]]
         (snd (start ''GET'' (new_connection 0 False fresh_protocol () ()))) = Some (Inr (), d) \<and>
     map_option peer (socket d) = Some ''/var/run/docker.sock''"
proof -
  let ?path = "''/var/run/docker.sock''"
  let ?query = "\<lparr>host_name = ''%2Fvar%2Frun%2Fdocker.sock'', service_name = ''80''\<rparr>"
  let ?entry = "\<lparr>endpoint_path = ?path, entry_host_name = ?path, entry_service_name = ''80''\<rparr>"
  have decode: "docker_decode (host_name ?query) = Inr ?path" by (simp add: docker_decode_def)
  have "async_resolve docker_decode (\<lambda>p. Some True) False ?query = Inr (Handler_invoked Ec_success [?entry])"
    by (simp add: async_resolve_running resolve_query_def docker_decode_def stat_result_def)
  from request_connects_to_host [OF fresh_protocol_open decode this, of "''GET''" 0 False "()" "()" eager_netlib
      plain_get Ec_eof]
  show ?thesis by (auto simp: Let_def simp del: run_completions.simps)
qed

end
