(* ===== verification/Docker_Socket.thy ===== *)
theory Docker_Socket
  imports Docker Local_Exchange
begin

text \<open>
  The Docker reader over the Unix-domain client: \<^verbatim>\<open>QueryDocker\<close> of \<^verbatim>\<open>src/docker.cc\<close> makes its request
  with a \<^verbatim>\<open>local_client\<close>, reads the status of the response and then its message or its body, each of which
  waits for a promise of the connection.
\<close>

section \<open>A response read from the promises of a connection\<close>

text \<open>
  What \<^verbatim>\<open>QueryDocker\<close> gets when it reads the response: the exception of the first promise that failed,
  or the parts it looks at.  It is \<open>None\<close> while a promise it waits for is open, and for the exceptions
  it does not handle.
\<close>

definition response_of :: "(error_code \<Rightarrow> string) \<Rightarrow> 'p protocol \<Rightarrow> (string + response) option" where
  "response_of message_of b =
     (case status_promise b of
        Some (Inl (System_error ec)) \<Rightarrow> Some (Inl (message_of ec))
      | Some (Inr code) \<Rightarrow>
          if 300 \<le> code
          then (case status_message_promise b of
                  Some (Inl (System_error ec)) \<Rightarrow> Some (Inl (message_of ec))
                | Some (Inr s) \<Rightarrow> Some (Inr \<lparr>resp_status = int code, resp_message = s, resp_body = []\<rparr>)
                | _ \<Rightarrow> None)
          else (case body_promise b of
                  Some (Inl (System_error ec)) \<Rightarrow> Some (Inl (message_of ec))
                | Some (Inr s) \<Rightarrow> Some (Inr \<lparr>resp_status = int code, resp_message = [], resp_body = s\<rparr>)
                | _ \<Rightarrow> None)
      | _ \<Rightarrow> None)"

text \<open>The client: cpp-netlib, the file system, the connection's options, and how a request becomes bytes.\<close>

record ('p, 'k) unix_client =
  library :: "('p, 'k) netlib"
  fresh :: "'p protocol"
  chunk_parser :: 'k
  client_timeout :: int
  client_removes_markers :: bool
  decode_host :: "string \<Rightarrow> unit + string"
  stat_file :: stat_call
  error_message :: "error_code \<Rightarrow> string"
  host_and_port :: "string \<Rightarrow> resolver_query"
  linearized :: "request \<Rightarrow> string"

text \<open>\<^verbatim>\<open>client.get\<close> without a body callback or a generator.\<close>

definition get_exchange :: "unit exchange" where
  "get_exchange = \<lparr>get_body = True, has_callback = False, body_generator = None\<rparr>"

text \<open>The exchange of a request in which the connection gets these completions after the resolver.\<close>

definition unix_exchange ::
  "('p, 'k) unix_client \<Rightarrow> request \<Rightarrow> completion list
    \<Rightarrow> ((handler_error + unit) \<times> ('p, 'k, unit) conn) option" where
  "unix_exchange U req es =
     (case async_resolve (decode_host U) (stat_file U) False (host_and_port U (req_url req)) of
        Inr (Handler_invoked ec entries) \<Rightarrow>
          run_completions (library U) get_exchange (Resolved ec entries # es)
            (snd (start (linearized U req)
              (new_connection (client_timeout U) (client_removes_markers U) (fresh U) (chunk_parser U) ())))
      | _ \<Rightarrow> None)"

text \<open>The platform's HTTP client is this one: every result is read from the promises of an exchange.\<close>

definition uses_unix_client :: "('p, 'k) unix_client \<Rightarrow> ('w, 'y) platform \<Rightarrow> bool" where
  "uses_unix_client U P \<longleftrightarrow>
     (\<forall>req w. \<exists>es d. unix_exchange U req es = Some (Inr (), d) \<and>
        response_of (error_message U) (protocol d) = Some (fst (http_client P req w)))"

definition docker_url :: "Configuration \<Rightarrow> string \<Rightarrow> string" where
  "docker_url config path = docker_endpoint_host config @ ''v'' @ docker_api_version config @ path"

section \<open>No socket\<close>

lemma exchange_without_socket:
  assumes "unset (fresh U) = UNIV" and "decode_host U (resolver_query.host_name (host_and_port U (req_url req))) = Inr path"
    and "stat_file U path \<noteq> Some True" and "unix_exchange U req es = Some (Inr (), d)"
  shows "response_of (error_message U) (protocol d) = Some (Inl (error_message U Ec_host_not_found))"
proof -
  let ?c = "snd (start (linearized U req)
    (new_connection (client_timeout U) (client_removes_markers U) (fresh U) (chunk_parser U) ()))"
  have c: "pending ?c = [On_resolved]" "unset (protocol ?c) = UNIV"
    using assms(1) by (simp_all add: start_def new_connection_def schedule_def meth_simps)
  have idle: "unset (protocol (?c\<lparr>pending := []\<rparr>)) = UNIV" using c(2) by simp
  obtain e where e: "set_errors get_exchange Ec_host_not_found (?c\<lparr>pending := []\<rparr>) = (Inr (), e)"
    "pending e = []" "status_promise (protocol e) = Some (Inl (System_error Ec_host_not_found))"
    using set_errors_all [OF idle, of get_exchange Ec_host_not_found] by auto
  have "run_completions (library U) get_exchange (Resolved Ec_host_not_found [] # es) ?c = Some (Inr (), d)"
    using assms(2-4)
    by (simp add: unix_exchange_def async_resolve_running resolve_query_def Let_def stat_result_def)
  then have "run_completions (library U) get_exchange es e = Some (Inr (), d)"
    by (simp add: c handle_resolved_def e(1))
  then have "d = e" using e(2) by (cases es) simp_all
  then show ?thesis by (simp add: response_of_def e(3))
qed

lemma QueryDocker_without_socket:
  assumes "uses_unix_client U (host_platform H)" and "unset (fresh U) = UNIV"
    and "decode_host U (resolver_query.host_name (host_and_port U (docker_url config p))) = Inr path"
    and "stat_file U path \<noteq> Some True"
  shows "fst (QueryDocker H config p s) =
    Inl (QueryException (docker_url config p @ '' -> '' @ error_message U Ec_host_not_found))"
proof -
  let ?req = "\<lparr>req_method = GET, req_url = docker_url config p, req_headers = [], req_body = []\<rparr>"
  obtain es d where "unix_exchange U ?req es = Some (Inr (), d)"
    "response_of (error_message U) (protocol d) = Some (fst (http_client (host_platform H) ?req (snd s)))"
    using assms(1) unfolding uses_unix_client_def by blast
  with exchange_without_socket [OF assms(2), of ?req path es d] assms(3,4)
  have "fst (http_client (host_platform H) ?req (snd s)) = Inl (error_message U Ec_host_not_found)" by simp
  then show ?thesis
    by (cases "http_client (host_platform H) ?req (snd s)") (simp add: QueryDocker_def docker_url_def Let_def)
qed

text \<open>
  Without the socket that the Docker endpoint names, the validation makes its ten attempts with a
  second between them and fails with the error of the resolver, so the updater does not start.
\<close>

theorem docker_socket_absent:
  fixes H :: "('w, 'y) host"
  assumes "uses_unix_client U (host_platform H)" and "unset (fresh U) = UNIV"
    and "decode_host U (resolver_query.host_name (host_and_port U (docker_url config
      (kDockerEndpointPath @ ''/json?all=true&limit=1'' @ container_filter config)))) = Inr path"
    and "stat_file U path \<noteq> Some True"
  shows "let p = kDockerEndpointPath @ ''/json?all=true&limit=1'' @ container_filter config;
      attempt = bindM (QueryDocker H config p) (\<lambda>_. returnM ());
      wait = (\<lambda>s. (fst s, sleep_for H 1 (snd s)))
    in Docker_ValidateDynamicConfiguration H config s =
      (Inl (Some (ValidationError (''Docker query validation retry limit reached: '' @ docker_url config p
         @ '' -> '' @ error_message U Ec_host_not_found))),
       snd (attempt (((\<lambda>s. wait (snd (attempt s))) ^^ 9) s)))"
proof -
  let ?p = "kDockerEndpointPath @ ''/json?all=true&limit=1'' @ container_filter config"
  let ?work = "bindM (QueryDocker H config ?p) (\<lambda>_. returnM ()) :: ('w reader_state, reader_exception, unit) meth"
  let ?wait = "\<lambda>s. (fst s, sleep_for H 1 (snd s))"
  let ?e = "QueryException (docker_url config ?p @ '' -> '' @ error_message U Ec_host_not_found)"
  have work: "fst (?work u) = Inl ?e" for u
    using QueryDocker_without_socket [OF assms, of u]
    by (cases "QueryDocker H config ?p u") (simp add: bindM_def)
  have retriable: "retriable is_terminate is_query_failure (fst (?work u))" for u
    unfolding work by (simp add: retriable_def is_terminate_def is_query_failure_def)
  obtain k where k: "Retry is_terminate is_query_failure kDockerValidationRetryLimit ?wait ?work s
      = ?work (retried ?wait ?work k s)" "int k = max 1 kDockerValidationRetryLimit - 1"
    using retry_from_attempts [of 0 kDockerValidationRetryLimit is_terminate is_query_failure ?work ?wait s] retriable
    unfolding Retry_def by auto
  have k9: "k = 9" using k(2) by (simp add: kDockerValidationRetryLimit_def)
  have retry: "Retry is_terminate is_query_failure kDockerValidationRetryLimit ?wait ?work s
      = (Inl ?e, snd (?work (((\<lambda>s. ?wait (snd (?work s))) ^^ 9) s)))"
    unfolding k(1) k9 retried_def by (rule prod_eqI) (simp_all only: work fst_conv snd_conv)
  show ?thesis
    unfolding Docker_ValidateDynamicConfiguration_def Let_def catchM_def retry by (simp add: throwM_def)
qed

section \<open>A socket\<close>

text \<open>
  C33.  A Docker query that returns a value had a socket at the path its host names, and the value is what
  the body of the exchange, as the connection collected it, parses to.
\<close>

theorem docker_query_body:
  assumes "uses_unix_client U (host_platform H)" and "unset (fresh U) = UNIV"
    and "QueryDocker H config p s = (Inr v, t)"
  shows "\<exists>path es d code body.
    decode_host U (resolver_query.host_name (host_and_port U (docker_url config p))) = Inr path \<and>
    stat_file U path = Some True \<and>
    unix_exchange U \<lparr>req_method = GET, req_url = docker_url config p, req_headers = [], req_body = []\<rparr> es
      = Some (Inr (), d) \<and>
    status_promise (protocol d) = Some (Inr code) \<and> code < 300 \<and>
    body_promise (protocol d) = Some (Inr body) \<and> FromString (parser (host_platform H)) body = Inr v"
proof -
  let ?req = "\<lparr>req_method = GET, req_url = docker_url config p, req_headers = [], req_body = []\<rparr>"
  obtain es d where d: "unix_exchange U ?req es = Some (Inr (), d)"
    "response_of (error_message U) (protocol d) = Some (fst (http_client (host_platform H) ?req (snd s)))"
    using assms(1) unfolding uses_unix_client_def by blast
  obtain path where path: "decode_host U (resolver_query.host_name (host_and_port U (docker_url config p))) = Inr path"
    using d(1)
    by (cases "decode_host U (resolver_query.host_name (host_and_port U (docker_url config p)))")
      (simp_all add: unix_exchange_def async_resolve_running resolve_query_def)
  have "stat_file U path = Some True"
    using QueryDocker_without_socket [OF assms(1,2) path, of s] assms(3) by auto
  moreover obtain r w' where r: "http_client (host_platform H) ?req (snd s) = (Inr r, w')"
    "resp_status r < 300" "FromString (parser (host_platform H)) (resp_body r) = Inr v"
    using assms(3)
    by (auto simp: QueryDocker_def docker_url_def Let_def json_call_def liftM_def split: prod.splits sum.splits if_splits)
  moreover have "\<exists>code. status_promise (protocol d) = Some (Inr code) \<and> code < 300 \<and>
      body_promise (protocol d) = Some (Inr (resp_body r))"
    using d(2) r
    by (auto simp: response_of_def split: option.splits sum.splits promise_exception.splits if_splits)
  ultimately show ?thesis using d(1) path by blast
qed

section \<open>Witnesses\<close>

text \<open>A client of the Docker socket, with and without the file.\<close>

definition sample_client :: "bool option \<Rightarrow> (unit, unit) unix_client" where
  "sample_client file =
     \<lparr>library = eager_netlib, fresh = fresh_protocol, chunk_parser = (), client_timeout = 0,
      client_removes_markers = True, decode_host = (\<lambda>h. Inr ''/var/run/docker.sock''), stat_file = (\<lambda>p. file),
      error_message = (\<lambda>ec. ''unreachable''),
      host_and_port = (\<lambda>url. \<lparr>resolver_query.host_name = ''%2Fvar%2Frun%2Fdocker.sock'', service_name = ''80''\<rparr>),
      linearized = (\<lambda>req. ''GET'')\<rparr>"

lemma offline_unix_client: "uses_unix_client (sample_client None) (host_platform offline_host)"
  unfolding uses_unix_client_def
proof (intro allI)
  fix req and w
  have "unix_exchange (sample_client None) req [] =
      Some (set_errors get_exchange Ec_host_not_found
        ((snd (start ''GET'' (new_connection 0 True fresh_protocol () ())))\<lparr>pending := []\<rparr>))"
    by (simp add: unix_exchange_def sample_client_def async_resolve_running resolve_query_def stat_result_def
        start_def schedule_def new_connection_def meth_simps handle_resolved_def split: prod.split sum.split)
  then show "\<exists>es d. unix_exchange (sample_client None) req es = Some (Inr (), d) \<and>
      response_of (error_message (sample_client None)) (protocol d) =
        Some (fst (http_client (host_platform offline_host) req w))"
    by (intro exI [of _ "[]"])
      (simp add: set_errors_def satisfy_def call_callback_def timer_cancel_def sample_client_def response_of_def
        offline_host_def offline_def get_exchange_def sample_defs)
qed

theorem docker_socket_absent_witness:
  "fst (Docker_ValidateDynamicConfiguration offline_host instance_config (Environment_new, ())) =
     Inl (Some (ValidationError (''Docker query validation retry limit reached: '' @
       docker_url instance_config (kDockerEndpointPath @ ''/json?all=true&limit=1'' @ container_filter instance_config)
       @ '' -> unreachable'')))"
  using docker_socket_absent [OF offline_unix_client, of instance_config "''/var/run/docker.sock''" "(Environment_new, ())"]
  by (simp add: sample_client_def fresh_protocol_open Let_def)

text \<open>A host whose Docker answers every request, with a parser that accepts everything.\<close>

definition accepting_yajl :: "unit yajl" where
  "accepting_yajl = null_yajl\<lparr>yajl_parse := (\<lambda>y s. ((), [], True)), yajl_complete_parse := (\<lambda>y. ((), [], True))\<rparr>"

definition docker_host :: "(unit, unit) host" where
  "docker_host = offline_host\<lparr>host_platform := offline\<lparr>parser := accepting_yajl, http_client :=
     (\<lambda>req w. (Inr \<lparr>resp_status = 200, resp_message = [], resp_body = ''[]''\<rparr>, w))\<rparr>\<rparr>"

lemma docker_host_client: "uses_unix_client (sample_client (Some True)) (host_platform docker_host)"
  unfolding uses_unix_client_def
proof (intro allI)
  fix req and w
  let ?es = "[Connected Ec_success, Sent Ec_success 3, Received Ec_success ''['', Received Ec_eof '']'']"
  obtain d where "unix_exchange (sample_client (Some True)) req ?es = Some (Inr (), d)"
    "status_promise (protocol d) = Some (Inr 200)" "body_promise (protocol d) = Some (Inr ''[]'')"
    by (simp add: unix_exchange_def async_resolve_running resolve_query_def stat_result_def
        sample_client_def get_exchange_def sample_defs handler_defs receive_defs strips_chunks_def)
  then show "\<exists>es d. unix_exchange (sample_client (Some True)) req es = Some (Inr (), d) \<and>
      response_of (error_message (sample_client (Some True))) (protocol d) =
        Some (fst (http_client (host_platform docker_host) req w))"
    by (intro exI [of _ ?es] exI [of _ d]) (simp add: response_of_def docker_host_def)
qed

lemma docker_host_query: "QueryDocker docker_host instance_config ''/containers'' (Environment_new, ()) =
    (Inr None, Environment_new, ())"
  by (simp add: QueryDocker_def docker_host_def Let_def json_call_def liftM_def FromString_def FromStream_def
      AllFromStream_def ParseStream_def parse_loop.simps NotifyEOF_def feed_def new_parser_def accepting_yajl_def
      meth_simps kMax_def)

theorem docker_query_body_witness:
  "\<exists>es d body. unix_exchange (sample_client (Some True)) \<lparr>req_method = GET,
       req_url = docker_url instance_config ''/containers'', req_headers = [], req_body = []\<rparr> es = Some (Inr (), d) \<and>
     body_promise (protocol d) = Some (Inr body) \<and> FromString accepting_yajl body = Inr None"
proof -
  have "unset (fresh (sample_client (Some True))) = UNIV" by (simp add: sample_client_def fresh_protocol_open)
  from docker_query_body [OF docker_host_client this docker_host_query] show ?thesis
    by (auto simp: docker_host_def)
qed

end
