(* ===== verification/Signing.thy ===== *)
theory Signing
  imports OAuth2
begin


section \<open>The key and the signature\<close>





section \<open>Failures\<close>







end
