(* ===== verification/Logging.thy ===== *)
theory Logging
  imports Agent_Time
begin

text \<open>
  The log (\<^verbatim>\<open>src/logging.h\<close>, \<^verbatim>\<open>src/logging.cc\<close>, \<^verbatim>\<open>safe_localtime\<close> of \<^verbatim>\<open>src/time.cc\<close>) and the stream
  operators for header lists (\<^verbatim>\<open>src/http_common.h\<close>).

  Every logger belongs to one thread, which builds the message; loggers meet only in \<open>LogStream_write\<close>,
  which holds the mutex of the stream.  A run of all threads is therefore a list of complete writes.  The
  calendar of the local time zone is the parameter \<open>localtime\<close>, the hash of the thread id is a number.
\<close>

section \<open>Local time\<close>





section \<open>Loggers and streams\<close>

datatype Severity = DEBUG | INFO | WARNING | ERROR



text \<open>A logger is its buffer; \<^verbatim>\<open>stream_\<close> is the stream the operations below are applied to.\<close>

record Logger =
  source_file :: string
  source_line :: nat
  severity :: Severity
  buffer :: string




text \<open>The output streams are numbered, with what was written to each.\<close>

record LogStream =
  out_stream :: nat
  written :: "nat \<Rightarrow> string"

definition set_stream :: "nat \<Rightarrow> LogStream \<Rightarrow> LogStream" where
  "set_stream n s = s\<lparr>out_stream := n\<rparr>"

definition LogStream_write :: "string \<Rightarrow> LogStream \<Rightarrow> LogStream" where
  "LogStream_write line s =
     s\<lparr>written := (written s)(out_stream s := written s (out_stream s) @ line @ [CHR 0x0A])\<rparr>"

text \<open>Flushing keeps the buffer, and the destructor flushes as well.\<close>

definition Logger_flush :: "Logger \<Rightarrow> LogStream \<Rightarrow> LogStream" where
  "Logger_flush l = LogStream_write (buffer l)"

definition Logger_destroy :: "Logger \<Rightarrow> LogStream \<Rightarrow> LogStream" where
  "Logger_destroy l = Logger_flush l"

section \<open>Header lists\<close>


definition response_headers :: "(string \<times> string) list \<Rightarrow> string" where
  "response_headers hv = ''['' @ concat (map (\<lambda>(first, second). '' '' @ first @ '': '' @ second) hv) @ '' ]''"

section \<open>Statements\<close>




section \<open>One line per statement\<close>









text \<open>An explicit flush repeats the line: the destructor writes it again.\<close>

lemma flushed_twice:
  "written (Logger_destroy l (Logger_flush l s)) (out_stream s) =
     written s (out_stream s) @ buffer l @ [CHR 0x0A] @ buffer l @ [CHR 0x0A]"
  by (simp add: Logger_destroy_def Logger_flush_def LogStream_write_def)

section \<open>What a line tells\<close>



lemma not_in_number [simp]:
  "CHR 0x0A \<notin> set (show_nat n)" "CHR '' '' \<notin> set (show_nat n)" "CHR '']'' \<notin> set (show_nat n)"
  using show_nat_digits [of _ n] by (fastforce simp: is_digit_def)+










section \<open>Coordinated universal time as the local time\<close>






end
