(* ===== verification/Kubernetes_Owners.thy ===== *)
theory Kubernetes_Owners
  imports Kubernetes_Updater
begin

text \<open>
  The memory of the Kubernetes reader over a whole run: what its threads do (polling, watching, starting)
  as steps on one state, and what that means for the cache of owners.  The recursive mutex of the reader
  makes every method below atomic where it touches the caches; the environment and the outside world
  change freely between them.
\<close>

section \<open>Runs of the reader\<close>

inductive reader_step ::
  "nat \<Rightarrow> ('w, 'y) host \<Rightarrow> Configuration \<Rightarrow> 'w k8s_state \<Rightarrow> 'w k8s_state \<Rightarrow> bool" for fuel H config where
  validate: "reader_step fuel H config s (snd (Kubernetes_ValidateDynamicConfiguration H config s))"
| start: "reader_step fuel H config s (snd (Kubernetes_StartUpdater H config u s))"
| poll: "reader_step fuel H config s (snd (Kubernetes_MetadataQuery fuel H config s))"
| pod_event: "(\<And>rs r e. fst (snd (update rs (r, e))) = r) \<Longrightarrow>
    reader_step fuel H config s (snd (WatchEventCallback H (PodCallback fuel H config update) raw s))"
| node_event: "(\<And>rs r e. fst (snd (update rs (r, e))) = r) \<Longrightarrow>
    reader_step fuel H config s (snd (WatchEventCallback H (NodeCallback H config update) raw s))"
| service_event: "(\<And>rs r e. fst (snd (update rs (r, e))) = r) \<Longrightarrow>
    reader_step fuel H config s (snd (WatchEventCallback H (ServiceCallback H config update) raw s))"
| endpoints_event: "(\<And>rs r e. fst (snd (update rs (r, e))) = r) \<Longrightarrow>
    reader_step fuel H config s (snd (WatchEventCallback H (EndpointsCallback H config update) raw s))"
| outside: "reader_step fuel H config (r, e) (r, e')"

abbreviation reader_run ::
  "nat \<Rightarrow> ('w, 'y) host \<Rightarrow> Configuration \<Rightarrow> 'w k8s_state \<Rightarrow> 'w k8s_state \<Rightarrow> bool" where
  "reader_run fuel H config \<equiv> (reader_step fuel H config)\<^sup>*\<^sup>*"

context reader_invariant begin

lemma Kubernetes_StartUpdater_keeps [keeps_rules]: "keeps (\<lambda>s. R (fst s)) (Kubernetes_StartUpdater H config u)"
  unfolding Kubernetes_StartUpdater_def Let_def by (intro keeps_rules)

lemma update_keeps: "(\<And>rs r e. fst (snd (update rs (r, e))) = r) \<Longrightarrow> keeps (\<lambda>s. R (fst s)) (update rs)"
  by (auto simp: keeps_def)

lemma event_keeps:
  assumes "\<And>rs r e. fst (snd (update rs (r, e))) = r"
  shows "keeps (\<lambda>s. R (fst s)) (WatchEventCallback H (PodCallback fuel H config update) raw)"
    and "keeps (\<lambda>s. R (fst s)) (WatchEventCallback H (NodeCallback H config update) raw)"
    and "keeps (\<lambda>s. R (fst s)) (WatchEventCallback H (ServiceCallback H config update) raw)"
    and "keeps (\<lambda>s. R (fst s)) (WatchEventCallback H (EndpointsCallback H config update) raw)"
proof -
  have "keeps (\<lambda>s. R (fst s)) (update rs)" for rs using assms by (rule update_keeps)
  note events = callbacks_keep [of update, OF this]
  show "keeps (\<lambda>s. R (fst s)) (WatchEventCallback H (PodCallback fuel H config update) raw)"
    "keeps (\<lambda>s. R (fst s)) (WatchEventCallback H (NodeCallback H config update) raw)"
    "keeps (\<lambda>s. R (fst s)) (WatchEventCallback H (ServiceCallback H config update) raw)"
    "keeps (\<lambda>s. R (fst s)) (WatchEventCallback H (EndpointsCallback H config update) raw)"
    by (intro WatchEventCallback_keeps events)+
qed

lemma reader_step_keeps: "reader_step fuel H config s t \<Longrightarrow> R (fst s) \<Longrightarrow> R (fst t)"
proof (induction rule: reader_step.induct)
  case (validate s)
  then show ?case using Kubernetes_Validate_keeps [of H config] unfolding keeps_def by blast
next
  case (start s u)
  then show ?case using Kubernetes_StartUpdater_keeps [of H config u] unfolding keeps_def by blast
next
  case (poll s)
  then show ?case using Kubernetes_MetadataQuery_keeps [of fuel H config] unfolding keeps_def by blast
next
  case (pod_event update s raw)
  then show ?case using event_keeps(1) [of update] unfolding keeps_def by blast
next
  case (node_event update s raw)
  then show ?case using event_keeps(2) [of update] unfolding keeps_def by blast
next
  case (service_event update s raw)
  then show ?case using event_keeps(3) [of update] unfolding keeps_def by blast
next
  case (endpoints_event update s raw)
  then show ?case using event_keeps(4) [of update] unfolding keeps_def by blast
qed auto

lemma reader_run_keeps: "reader_run fuel H config s t \<Longrightarrow> R (fst s) \<Longrightarrow> R (fst t)"
  by (induction rule: rtranclp_induct) (auto intro: reader_step_keeps)

end

section \<open>The cache of owners only grows\<close>

definition knows_owner :: "string \<Rightarrow> json \<Rightarrow> KubernetesReader \<Rightarrow> bool" where
  "knows_owner ref v r \<longleftrightarrow> map_ok (owners r) \<and> map_of (owners r) ref = Some v"

interpretation known_owner: reader_invariant "knows_owner ref v" for ref v
  by unfold_locales (auto simp: knows_owner_def wf_intros map_of_map_emplace split: option.splits)

interpretation same_owners: reader_frame "\<lambda>r. owners r = m" for m
  by unfold_locales simp_all

text \<open>The key of a reference in the cache: neither the namespace nor the name is part of it.\<close>

definition owner_key :: "('w, 'y) host \<Rightarrow> json_object \<Rightarrow> json_exception + string" where
  "owner_key H owner_ref =
     bindE (Get_String owner_ref ''apiVersion'') (\<lambda>api_version.
     bindE (Get_String owner_ref ''kind'') (\<lambda>kind.
     bindE (Get_String owner_ref ''name'') (\<lambda>name.
     bindE (Get_String owner_ref ''uid'') (\<lambda>uid.
     Inr (join_strings H [api_version, kind, uid] ''/'')))))"

lemma GetOwner_remembered:
  assumes "owner_key H ref = Inr key" and "knows_owner key v (fst u)"
  shows "GetOwner H config ns ref u = (Inr (Clone v), u)"
  using assms
  by (auto simp: owner_key_def bindE_eq_Inr_iff knows_owner_def GetOwner_def Let_def meth_simps json_call_def
      k8s_get_def)

lemma steps_Inr:
  "json_call r s = (Inr x, t) \<longleftrightarrow> r = Inr x \<and> t = s"
  "k8s_get f s = (Inr y, t) \<longleftrightarrow> y = f (fst s) \<and> t = s"
  "k8s_modify g s = (Inr (), t) \<longleftrightarrow> t = (g (fst s), snd s)"
  by (auto simp: json_call_def k8s_get_def k8s_modify_def meth_simps split: sum.splits)

lemma GetOwner_remembers:
  assumes "GetOwner H config ns ref s = (Inr v, t)" and "k8s_ok s"
  shows "\<exists>key w. owner_key H ref = Inr key \<and> knows_owner key w (fst t) \<and> v = Clone w"
proof -
  have "k8s_ok t" using keepsD [OF k8s.GetOwner_keeps assms(1)] assms(2) by simp
  then have ok: "map_ok (owners (fst t))" by (simp add: reader_ok_def)
  obtain a k n uid where ref: "Get_String ref ''apiVersion'' = Inr a" "Get_String ref ''kind'' = Inr k"
    "Get_String ref ''name'' = Inr n" "Get_String ref ''uid'' = Inr uid"
    using assms(1) by (auto simp: GetOwner_def Let_def bindM_Inr steps_Inr)
  let ?key = "join_strings H [a, k, uid] ''/''"
  have key: "owner_key H ref = Inr ?key" by (simp add: owner_key_def ref)
  show ?thesis
  proof (cases "map_of (owners (fst s)) ?key")
    case (Some w)
    with assms key GetOwner_remembered [OF key, of w s config ns] show ?thesis
      by (auto simp: knows_owner_def reader_ok_def)
  next
    case None
    then obtain p s1 w s2 where run: "KindPath H config a k s = (Inr p, s1)"
      "QueryMaster H config (fst p @ ''/namespaces/'' @ ns @ ''/'' @ snd p @ ''/'' @ n) s1 = (Inr (Some w), s2)"
      and t: "v = Clone w" "fst t = fst s2\<lparr>owners := map_emplace ?key w (owners (fst s2))\<rparr>"
      using assms(1) unfolding GetOwner_def Let_def bindM_Inr steps_Inr ref
      by (auto simp: bindM_Inr steps_Inr returnM_def throwM_def split: if_splits)
    from run have "owners (fst s2) = owners (fst s)"
      using keepsD [OF same_owners.KindPath_keeps run(1)] keepsD [OF same_owners.QueryMaster_keeps run(2)] by simp
    with None t assms(2) have "knows_owner ?key w (fst t)"
      by (simp add: knows_owner_def reader_ok_def wf_intros map_of_map_emplace)
    with key t(1) show ?thesis by blast
  qed
qed

text \<open>
  C10.  An owner that was found once is never asked for again: whatever the threads of the updater do
  afterwards, and however the cluster changes, a reference with the same API version, kind and uid is
  answered with the same object, without a request and without a change of state, also from another
  namespace.
\<close>

theorem owner_remembered:
  assumes "k8s_ok s" and "GetOwner H config ns ref s = (Inr v, t)" and "reader_run fuel H config t u"
    and "owner_key H ref' = owner_key H ref"
  shows "GetOwner H config ns' ref' u = (Inr v, u)"
proof -
  obtain key w where key: "owner_key H ref = Inr key" "knows_owner key w (fst t)" "v = Clone w"
    using GetOwner_remembers [OF assms(2,1)] by blast
  have "knows_owner key w (fst u)" by (rule known_owner.reader_run_keeps [OF assms(3) key(2)])
  then show ?thesis using GetOwner_remembered [of H ref' key w u] assms(4) key by simp
qed

section \<open>A failed discovery is remembered\<close>

definition no_kinds :: "string \<Rightarrow> KubernetesReader \<Rightarrow> bool" where
  "no_kinds api_version r \<longleftrightarrow>
     map_ok (version_to_kind_to_name r) \<and> map_of (version_to_kind_to_name r) api_version = Some []"

interpretation failed_version: reader_invariant "no_kinds api_version" for api_version
  by unfold_locales (auto simp: no_kinds_def wf_intros map_of_map_emplace map_of_map_assign split: option.splits)

lemma KindPath_no_kinds:
  "no_kinds api_version (fst s) \<Longrightarrow> KindPath H config api_version kind s = (Inl Crashed, s)"
  by (simp add: no_kinds_def KindPath_def Let_def k8s_get_def meth_simps)

lemma QueryMaster_kinds:
  "QueryMaster H config path (r\<lparr>version_to_kind_to_name := ks\<rparr>, e) =
     (case QueryMaster H config path (r, e) of (x, r', e') \<Rightarrow> (x, r'\<lparr>version_to_kind_to_name := ks\<rparr>, e'))"
  by (auto simp: QueryMaster_def KubernetesApiToken_def ReadServiceAccountSecret_def SecretPath_def k8s_lift_def
      meth_simps Let_def split: prod.splits sum.splits)

lemma KindPath_failed:
  assumes "k8s_ok s" and "map_of (version_to_kind_to_name (fst s)) api_version = None"
    and "QueryMaster H config ((if str_find api_version ''/'' 0 = None then ''/api'' else ''/apis'') @ ''/'' @ api_version) s
           = (Inl e, s')" and "is_logged e"
  shows "\<exists>t. KindPath H config api_version kind s = (Inl Crashed, t) \<and> no_kinds api_version (fst t)"
proof -
  let ?ks = "map_emplace api_version [] (version_to_kind_to_name (fst s))"
  have "QueryMaster H config ((if str_find api_version ''/'' 0 = None then ''/api'' else ''/apis'') @ ''/'' @ api_version)
      ((fst s)\<lparr>version_to_kind_to_name := ?ks\<rparr>, snd s) = (Inl e, (fst s')\<lparr>version_to_kind_to_name := ?ks\<rparr>, snd s')"
    using assms(3) by (simp add: QueryMaster_kinds split: prod.split)
  moreover have "no_kinds api_version ((fst s')\<lparr>version_to_kind_to_name := ?ks\<rparr>)"
    using assms(1,2) by (simp add: no_kinds_def reader_ok_def wf_intros map_of_map_emplace)
  ultimately show ?thesis
    using assms(2,4)
    by (simp add: KindPath_def Let_def bindM_def k8s_get_def k8s_modify_def getM_def modifyM_def or_else_def catchM_def
        returnM_def throwM_def)
qed

lemma GetOwner_no_kinds:
  assumes "no_kinds api_version (fst s)" and "Get_String ref ''apiVersion'' = Inr api_version"
    and "owner_key H ref = Inr key" and "map_of (owners (fst s)) key = None"
  shows "GetOwner H config ns ref s = (Inl Crashed, s)"
  using assms KindPath_no_kinds [OF assms(1), of H config]
  by (auto simp: owner_key_def bindE_eq_Inr_iff GetOwner_def Let_def meth_simps json_call_def k8s_get_def)

text \<open>
  C11.  When the query for the kinds of an API version fails once, the failure is remembered as an empty
  list of kinds for the rest of the run: the process ends at once, and had it gone on, every later request
  for an owner of that version that is not in the cache would end it, without asking the master again.
\<close>

theorem failed_discovery_fatal:
  assumes "k8s_ok s" and "map_of (version_to_kind_to_name (fst s)) api_version = None"
    and "QueryMaster H config ((if str_find api_version ''/'' 0 = None then ''/api'' else ''/apis'') @ ''/'' @ api_version) s
           = (Inl e, s')" and "is_logged e"
    and "KindPath H config api_version kind s = (outcome, t)" and "reader_run fuel H config t u"
    and "Get_String ref ''apiVersion'' = Inr api_version" and "owner_key H ref = Inr key"
    and "map_of (owners (fst u)) key = None"
  shows "outcome = Inl Crashed \<and> GetOwner H config ns ref u = (Inl Crashed, u)"
proof -
  have t: "outcome = Inl Crashed" "no_kinds api_version (fst t)"
    using KindPath_failed [OF assms(1-4), of kind] assms(5) by auto
  have "no_kinds api_version (fst u)" by (rule failed_version.reader_run_keeps [OF assms(6) t(2)])
  with t(1) show ?thesis using GetOwner_no_kinds [OF _ assms(7-9)] by blast
qed

section \<open>Witnesses\<close>

definition controller_fields :: "string \<Rightarrow> json_object" where
  "controller_fields name =
     [(''apiVersion'', String ''v1''), (''kind'', String ''ReplicaSet''), (''name'', String name), (''uid'', String ''u'')]"

lemma controller_fields_key: "owner_key offline_host (controller_fields name) = Inr ''v1/ReplicaSet/u''"
  by (simp add: owner_key_def controller_fields_def Get_String_def GetField_def As_def Is_def offline_host_def join_list.simps)

text \<open>A query of the updater lies between, and the second reference has another name.\<close>

theorem owner_remembered_witness:
  "let s = (sample_reader, known_environment, ());
       u = snd (Kubernetes_MetadataQuery 5 offline_host cluster_config s)
   in GetOwner offline_host cluster_config ''other'' (controller_fields ''renamed'') u = (Inr (Clone sample_owner), u)"
proof -
  let ?s = "(sample_reader, known_environment, ())"
  let ?u = "snd (Kubernetes_MetadataQuery 5 offline_host cluster_config ?s)"
  have "k8s_ok ?s"
    by (simp add: sample_reader_def KubernetesReader_new_def reader_ok_def sample_owner_def map_ok_def less_char_def)
  moreover have "GetOwner offline_host cluster_config ''default'' (controller_fields ''rs'') ?s = (Inr (Clone sample_owner), ?s)"
    by (rule GetOwner_remembered [OF controller_fields_key])
      (simp add: knows_owner_def sample_reader_def map_ok_def)
  moreover have "reader_run 5 offline_host cluster_config ?s ?u"
    by (rule r_into_rtranclp) (rule reader_step.poll)
  ultimately have "GetOwner offline_host cluster_config ''other'' (controller_fields ''renamed'') ?u = (Inr (Clone sample_owner), ?u)"
    by (rule owner_remembered) (simp add: controller_fields_key)
  then show ?thesis by (simp add: Let_def)
qed

theorem failed_discovery_fatal_witness:
  "let s = (KubernetesReader_new, known_environment, ());
       t = snd (KindPath offline_host cluster_config ''v1'' ''ReplicaSet'' s)
   in GetOwner offline_host cluster_config ''default'' (controller_fields ''rs'') t = (Inl Crashed, t)"
proof -
  let ?s = "(KubernetesReader_new, known_environment, ())"
  let ?t = "snd (KindPath offline_host cluster_config ''v1'' ''ReplicaSet'' ?s)"
  have q: "fst (QueryMaster offline_host cluster_config path ?s) =
      Inl (QueryException (kubernetes_endpoint_host cluster_config @ path @ '' -> unreachable''))" for path
    by (simp add: QueryMaster_def KubernetesApiToken_def ReadServiceAccountSecret_def KubernetesReader_new_def bindM_def
        k8s_lift_def query_endpoint_def offline_host_def offline_def)
  have ok: "k8s_ok ?s" by (simp add: KubernetesReader_new_def reader_ok_def)
  have none: "map_of (version_to_kind_to_name (fst ?s)) ''v1'' = None" by (simp add: KubernetesReader_new_def)
  have logged: "is_logged (QueryException w)" for w by (simp add: is_logged_def is_query_failure_def)
  have "owners (fst ?t) = []"
    using same_owners.KindPath_keeps [of "[]" offline_host cluster_config "''v1''" "''ReplicaSet''"]
    unfolding keeps_def by (auto simp: KubernetesReader_new_def)
  then have "map_of (owners (fst ?t)) ''v1/ReplicaSet/u'' = None" by simp
  moreover have "Get_String (controller_fields ''rs'') ''apiVersion'' = Inr ''v1''"
    by (simp add: controller_fields_def Get_String_def GetField_def As_def Is_def)
  ultimately have "fst (KindPath offline_host cluster_config ''v1'' ''ReplicaSet'' ?s) = Inl Crashed \<and>
      GetOwner offline_host cluster_config ''default'' (controller_fields ''rs'') ?t = (Inl Crashed, ?t)"
    using failed_discovery_fatal [OF ok none prod_eqI [OF trans [OF q fst_conv [symmetric]] snd_conv [symmetric]] logged
      prod.collapse [symmetric] rtranclp.rtrancl_refl _ controller_fields_key] by blast
  then show ?thesis by (simp add: Let_def)
qed

end
