(* ===== verification/Watch_Timers.thy ===== *)
theory Watch_Timers
  imports Kubernetes_Watch
begin

text \<open>
  The timers of a watch (\<^verbatim>\<open>DelayTimer\<close> of \<^verbatim>\<open>src/time.h\<close>, \<^verbatim>\<open>Watcher\<close> and \<^verbatim>\<open>WatchMaster\<close> of
  \<^verbatim>\<open>src/kubernetes.cc\<close>): one that ends a connection after the reconnect interval, and one that ends it
  after too long a silence and is restarted by every chunk.  All connections of a watch share one
  \<^verbatim>\<open>io_service\<close>.  Its thread, one at a time, runs the handlers of waits and reads in the order in which they
  were queued, until one of them stops the service; a handler that is queued when it stops runs after the
  next reset.  A read is not cancelled when its connection is given up: its handler calls the watcher of that
  connection, which the client holds by reference.

  The environment chooses when data come, when an expired timer is noticed and how much time passes, in
  particular while a handler runs: the event callbacks make requests that block.
\<close>

section \<open>Waits, reads and their handlers\<close>

text \<open>
  The error code the handler of a wait gets is success, or \<^verbatim>\<open>operation_aborted\<close> when its wait was cancelled.
  The handlers of \<^verbatim>\<open>WatchMaster\<close> stop the service they captured; the one the watcher installs goes through
  the watcher (its number is that of the connection), which lives as long as the connection.
\<close>

datatype wait_result = Elapsed | Aborted

datatype wait_handler = Stop_service | Stop_by_watcher nat

datatype service_handler =
    Wait_done wait_handler wait_result
  | Read_done nat "string \<times> watch_error option"

type_synonym wait = "time_point \<times> wait_handler"

definition seconds :: "int \<Rightarrow> int" where "seconds n = n * 1000000000"

text \<open>Setting a new expiry cancels the wait in progress, whose handler is queued.\<close>

definition cancel_wait :: "wait option \<Rightarrow> service_handler list" where
  "cancel_wait timer = (case timer of None \<Rightarrow> [] | Some (d, h) \<Rightarrow> [Wait_done h Aborted])"

definition RunAsyncAfter ::
  "int \<Rightarrow> wait_handler \<Rightarrow> time_point \<Rightarrow> wait option \<Rightarrow> wait option \<times> service_handler list" where
  "RunAsyncAfter duration handler t timer = (Some (t + seconds duration, handler), cancel_wait timer)"

section \<open>The service and its connections\<close>

text \<open>
  \<open>reading\<close> are the connections with a read in progress.  The other fields from \<open>started_at\<close> on only record
  what has happened: the start of the connection, the end of the last chunk without an error, the chunks so
  far, whether the handler of an elapsed wait was queued when the connection started, the number of handlers
  run, and whether a handler used a watcher that no longer exists.
\<close>

record watch_service =
  service_time :: time_point
  connection :: nat
  reconnect_timer :: "wait option"
  silence_timer :: "wait option"
  reading :: "nat list"
  queued :: "service_handler list"
  is_stopped :: bool
  started_at :: time_point
  heard_at :: time_point
  heard :: "(string \<times> watch_error option) list"
  stale :: bool
  handled :: nat
  dangling :: bool

definition elapsed :: "service_handler list \<Rightarrow> bool" where
  "elapsed q \<longleftrightarrow> (\<exists>h. Wait_done h Elapsed \<in> set q)"

abbreviation reconnect_interval :: "Configuration \<Rightarrow> int" where
  "reconnect_interval config \<equiv> kubernetes_updater_watch_reconnect_interval_seconds config"

abbreviation max_silence :: "Configuration \<Rightarrow> int" where
  "max_silence config \<equiv> kubernetes_updater_watch_reconnect_max_silence_seconds config"

text \<open>The timers and the request at the start of a connection; the service keeps what is queued and read.\<close>

definition begin_connection :: "Configuration \<Rightarrow> watch_service \<Rightarrow> watch_service" where
  "begin_connection config s =
     s\<lparr>connection := connection s + 1, is_stopped := False,
       reconnect_timer :=
         (if reconnect_interval config > 0
          then fst (RunAsyncAfter (reconnect_interval config) Stop_service (service_time s) None) else None),
       silence_timer :=
         (if max_silence config > 0
          then fst (RunAsyncAfter (max_silence config) Stop_service (service_time s) None) else None),
       reading := reading s @ [connection s + 1],
       started_at := service_time s, heard_at := service_time s, heard := [], stale := elapsed (queued s)\<rparr>"

text \<open>The timers go out of scope: the watcher with the silence timer first.\<close>

definition end_connection :: "watch_service \<Rightarrow> watch_service" where
  "end_connection s =
     s\<lparr>queued := queued s @ cancel_wait (silence_timer s) @ cancel_wait (reconnect_timer s),
       silence_timer := None, reconnect_timer := None\<rparr>"

text \<open>A handler of a wait.  Only the watcher of the connection that goes on exists.\<close>

definition run_wait :: "wait_handler \<Rightarrow> wait_result \<Rightarrow> watch_service \<Rightarrow> watch_service" where
  "run_wait h ec s =
     (if ec \<noteq> Aborted
      then (case h of
              Stop_service \<Rightarrow> s\<lparr>is_stopped := True\<rparr>
            | Stop_by_watcher n \<Rightarrow>
                if n = connection s then s\<lparr>is_stopped := True\<rparr> else s\<lparr>dangling := True\<rparr>)
      else s)"

text \<open>What the call of the watcher on a chunk does with the service and the silence timer.\<close>

definition watcher_timers :: "Configuration \<Rightarrow> string \<times> watch_error option \<Rightarrow> watch_service \<Rightarrow> watch_service" where
  "watcher_timers config chunk s =
     (let s = s\<lparr>heard := heard s @ [chunk]\<rparr>
      in if snd chunk \<noteq> None then s\<lparr>is_stopped := True\<rparr>
         else let s = s\<lparr>heard_at := service_time s\<rparr>
           in if max_silence config > 0
              then (case RunAsyncAfter (max_silence config) (Stop_by_watcher (connection s)) (service_time s)
                           (silence_timer s) of
                      (timer, aborted) \<Rightarrow> s\<lparr>silence_timer := timer, queued := queued s @ aborted\<rparr>)
              else s)"

text \<open>The handler of a read calls the watcher of its connection, and reads on unless there was an error.\<close>

definition run_read :: "Configuration \<Rightarrow> nat \<Rightarrow> string \<times> watch_error option \<Rightarrow> watch_service \<Rightarrow> watch_service" where
  "run_read config n chunk s =
     (if n \<noteq> connection s then s\<lparr>dangling := True\<rparr>
      else (watcher_timers config chunk s)
        \<lparr>reading := (if snd chunk = None then reading s @ [n] else reading s)\<rparr>)"

primrec run_queued :: "Configuration \<Rightarrow> service_handler \<Rightarrow> watch_service \<Rightarrow> watch_service" where
  "run_queued config (Wait_done h ec) s = run_wait h ec s"
| "run_queued config (Read_done n chunk) s = run_read config n chunk s"

section \<open>Steps\<close>

text \<open>
  What happens without the other side: time passes, expired timers are noticed, queued handlers run.  After a
  handler has used a watcher that no longer exists anything may happen, and the model ends.
\<close>

inductive quiet_step :: "Configuration \<Rightarrow> watch_service \<Rightarrow> watch_service \<Rightarrow> bool" for config where
  pass: "\<not> dangling s \<Longrightarrow> service_time s \<le> t \<Longrightarrow> quiet_step config s (s\<lparr>service_time := t\<rparr>)"
| reconnect_due: "\<not> is_stopped s \<Longrightarrow> \<not> dangling s \<Longrightarrow> reconnect_timer s = Some (d, h) \<Longrightarrow> d \<le> service_time s \<Longrightarrow>
    quiet_step config s (s\<lparr>reconnect_timer := None, queued := queued s @ [Wait_done h Elapsed]\<rparr>)"
| silence_due: "\<not> is_stopped s \<Longrightarrow> \<not> dangling s \<Longrightarrow> silence_timer s = Some (d, h) \<Longrightarrow> d \<le> service_time s \<Longrightarrow>
    quiet_step config s (s\<lparr>silence_timer := None, queued := queued s @ [Wait_done h Elapsed]\<rparr>)"
| run: "\<not> is_stopped s \<Longrightarrow> \<not> dangling s \<Longrightarrow> queued s = w # ws \<Longrightarrow>
    quiet_step config s (run_queued config w (s\<lparr>queued := ws, handled := handled s + 1\<rparr>))"

text \<open>Data or an error come for a read, or the loop of \<^verbatim>\<open>WatchMaster\<close> goes on with the next connection.\<close>

inductive service_step :: "Configuration \<Rightarrow> watch_service \<Rightarrow> watch_service \<Rightarrow> bool" for config where
  quiet: "quiet_step config s t \<Longrightarrow> service_step config s t"
| arrive: "\<not> is_stopped s \<Longrightarrow> \<not> dangling s \<Longrightarrow> n \<in> set (reading s) \<Longrightarrow>
    service_step config s (s\<lparr>reading := remove1 n (reading s), queued := queued s @ [Read_done n c]\<rparr>)"
| again: "is_stopped s \<Longrightarrow> \<not> dangling s \<Longrightarrow> service_step config s (begin_connection config (end_connection s))"

inductive_cases quiet_stepE: "quiet_step config s t"
inductive_cases service_stepE: "service_step config s t"

definition idle_service :: "time_point \<Rightarrow> watch_service" where
  "idle_service t =
     \<lparr>service_time = t, connection = 0, reconnect_timer = None, silence_timer = None, reading = [], queued = [],
      is_stopped = False, started_at = t, heard_at = t, heard = [], stale = False, handled = 0, dangling = False\<rparr>"

inductive watching :: "Configuration \<Rightarrow> watch_service \<Rightarrow> bool" for config where
  first: "watching config (begin_connection config (idle_service t))"
| step: "watching config s \<Longrightarrow> service_step config s t \<Longrightarrow> watching config t"

section \<open>The invariant\<close>

text \<open>A pending timer, and what its absence means while the connection goes on.\<close>

definition timer_ok :: "int \<Rightarrow> time_point \<Rightarrow> (wait_handler \<Rightarrow> bool) \<Rightarrow> wait option \<Rightarrow> watch_service \<Rightarrow> bool" where
  "timer_ok interval base handlers timer s \<longleftrightarrow>
     (case timer of
        None \<Rightarrow> interval > 0 \<longrightarrow> elapsed (queued s) \<or> is_stopped s \<or> dangling s
      | Some (d, h) \<Rightarrow> interval > 0 \<and> d = base + seconds interval \<and> handlers h)"

definition service_ok :: "Configuration \<Rightarrow> watch_service \<Rightarrow> bool" where
  "service_ok config s \<longleftrightarrow>
     started_at s \<le> heard_at s \<and> heard_at s \<le> service_time s \<and>
     timer_ok (reconnect_interval config) (started_at s) (\<lambda>h. h = Stop_service) (reconnect_timer s) s \<and>
     timer_ok (max_silence config) (heard_at s) (\<lambda>h. h = Stop_service \<or> h = Stop_by_watcher (connection s))
       (silence_timer s) s"

text \<open>Why a connection is over, or about to be.\<close>

definition interval_over :: "Configuration \<Rightarrow> watch_service \<Rightarrow> bool" where
  "interval_over config s \<longleftrightarrow>
     reconnect_interval config > 0 \<and> started_at s + seconds (reconnect_interval config) \<le> service_time s \<or>
     max_silence config > 0 \<and> started_at s + seconds (max_silence config) \<le> service_time s"

definition ends_ok :: "Configuration \<Rightarrow> watch_service \<Rightarrow> bool" where
  "ends_ok config s \<longleftrightarrow>
     list_all (\<lambda>c. snd c = None) (butlast (heard s)) \<and>
     (\<not> is_stopped s \<longrightarrow> list_all (\<lambda>c. snd c = None) (heard s)) \<and>
     (elapsed (queued s) \<or> is_stopped s \<and> list_all (\<lambda>c. snd c = None) (heard s)
       \<longrightarrow> stale s \<or> interval_over config s)"

lemma elapsed_simps [simp]:
  "\<not> elapsed []"
  "elapsed (Wait_done h r # q) \<longleftrightarrow> r = Elapsed \<or> elapsed q"
  "elapsed (Read_done n c # q) \<longleftrightarrow> elapsed q"
  "elapsed (q @ q') \<longleftrightarrow> elapsed q \<or> elapsed q'"
  "\<not> elapsed (cancel_wait timer)"
  by (auto simp: elapsed_def cancel_wait_def split: option.splits)

lemma begin_connection_simps [simp]:
  "queued (begin_connection config s) = queued s"
  "connection (begin_connection config s) = connection s + 1"
  "reading (begin_connection config s) = reading s @ [connection s + 1]"
  "is_stopped (begin_connection config s) = False"
  "dangling (begin_connection config s) = dangling s"
  "handled (begin_connection config s) = handled s"
  "service_time (begin_connection config s) = service_time s"
  by (simp_all add: begin_connection_def)

lemma end_connection_simps [simp]:
  "queued (end_connection s) = queued s @ cancel_wait (silence_timer s) @ cancel_wait (reconnect_timer s)"
  "connection (end_connection s) = connection s" "reading (end_connection s) = reading s"
  "dangling (end_connection s) = dangling s" "handled (end_connection s) = handled s"
  "service_time (end_connection s) = service_time s"
  by (simp_all add: end_connection_def)

lemma idle_service_simps [simp]:
  "queued (idle_service t) = []" "connection (idle_service t) = 0" "\<not> dangling (idle_service t)"
  "reading (idle_service t) = []" "service_time (idle_service t) = t"
  by (simp_all add: idle_service_def)

lemma seconds_positive: "0 < n \<Longrightarrow> 0 < seconds n"
  by (simp add: seconds_def)

lemma watcher_timers_eq:
  "snd c \<noteq> None \<Longrightarrow> watcher_timers config c s = s\<lparr>heard := heard s @ [c], is_stopped := True\<rparr>"
  "snd c = None \<Longrightarrow> \<not> 0 < max_silence config \<Longrightarrow>
     watcher_timers config c s = s\<lparr>heard := heard s @ [c], heard_at := service_time s\<rparr>"
  "snd c = None \<Longrightarrow> 0 < max_silence config \<Longrightarrow>
     watcher_timers config c s = s\<lparr>heard := heard s @ [c], heard_at := service_time s,
       silence_timer := Some (service_time s + seconds (max_silence config), Stop_by_watcher (connection s)),
       queued := queued s @ cancel_wait (silence_timer s)\<rparr>"
  by (simp_all add: watcher_timers_def Let_def RunAsyncAfter_def)

lemma begin_connection_ok:
  "service_ok config (begin_connection config s) \<and> ends_ok config (begin_connection config s)"
  by (auto simp: service_ok_def ends_ok_def timer_ok_def begin_connection_def RunAsyncAfter_def)

lemma run_wait_ok:
  assumes "service_ok config (s\<lparr>queued := Wait_done h r # ws\<rparr>)"
  shows "service_ok config (run_wait h r (s\<lparr>queued := ws, handled := n\<rparr>))"
  using assms
  by (cases r) (auto simp: service_ok_def timer_ok_def run_wait_def split: option.splits wait_handler.splits)

lemma run_read_ok:
  assumes "service_ok config (s\<lparr>queued := Read_done m c # ws\<rparr>)"
  shows "service_ok config (run_read config m c (s\<lparr>queued := ws, handled := n\<rparr>))"
proof (cases "m = connection s")
  case False
  with assms show ?thesis by (auto simp: service_ok_def timer_ok_def run_read_def split: option.splits)
next
  case True
  show ?thesis
  proof (cases "snd c = None")
    case False
    with True assms show ?thesis
      by (auto simp: service_ok_def timer_ok_def run_read_def watcher_timers_eq split: option.splits)
  next
    case quiet: True
    with True assms show ?thesis
      by (cases "0 < max_silence config")
        (auto simp: service_ok_def timer_ok_def run_read_def watcher_timers_eq split: option.splits)
  qed
qed

lemma quiet_step_ok: "quiet_step config s t \<Longrightarrow> service_ok config s \<Longrightarrow> service_ok config t"
proof (induction rule: quiet_step.induct)
  case (run s w ws)
  have "s\<lparr>queued := w # ws\<rparr> = s" using run.hyps(3) by (cases s) simp
  then have "service_ok config (s\<lparr>queued := w # ws\<rparr>)" using run.prems by (rule ssubst)
  then show ?case by (cases w) (auto intro: run_wait_ok run_read_ok)
qed (auto simp: service_ok_def timer_ok_def split: option.splits)

lemma run_ends:
  assumes "ends_ok config s" and "\<not> is_stopped s" and "queued s = w # ws"
  shows "ends_ok config (run_queued config w (s\<lparr>queued := ws, handled := n\<rparr>))"
proof (cases w)
  case (Wait_done h r)
  with assms show ?thesis
    by (cases r) (auto simp: ends_ok_def run_wait_def interval_over_def split: wait_handler.splits)
next
  case (Read_done m c)
  show ?thesis
  proof (cases "m = connection s")
    case False
    with assms Read_done show ?thesis by (auto simp: ends_ok_def run_read_def interval_over_def)
  next
    case True
    show ?thesis
    proof (cases "snd c = None")
      case False
      with True assms Read_done show ?thesis
        by (auto simp: ends_ok_def run_read_def watcher_timers_eq interval_over_def)
    next
      case quiet: True
      have "butlast (heard s @ [c]) = heard s" by simp
      with True quiet assms Read_done show ?thesis
        by (cases "0 < max_silence config")
          (auto simp: ends_ok_def run_read_def watcher_timers_eq interval_over_def)
    qed
  qed
qed

lemma quiet_step_ends:
  "quiet_step config s t \<Longrightarrow> service_ok config s \<Longrightarrow> ends_ok config s \<Longrightarrow> ends_ok config t"
proof (induction rule: quiet_step.induct)
  case (pass s t)
  then show ?case by (auto simp: ends_ok_def interval_over_def)
next
  case (reconnect_due s d h)
  then show ?case by (auto simp: ends_ok_def service_ok_def timer_ok_def interval_over_def)
next
  case (silence_due s d h)
  then show ?case by (auto simp: ends_ok_def service_ok_def timer_ok_def interval_over_def)
next
  case (run s w ws)
  then show ?case by (intro run_ends)
qed

lemma service_step_ok:
  assumes "service_step config s t" and "service_ok config s" and "ends_ok config s"
  shows "service_ok config t \<and> ends_ok config t"
  using assms
proof (induction rule: service_step.induct)
  case (quiet s t)
  then show ?case using quiet_step_ok quiet_step_ends by blast
next
  case (arrive s n c)
  then show ?case
    by (auto simp: service_ok_def ends_ok_def timer_ok_def interval_over_def split: option.splits)
next
  case (again s)
  show ?case by (rule begin_connection_ok)
qed

lemma watching_ok: "watching config s \<Longrightarrow> service_ok config s \<and> ends_ok config s"
  by (induction rule: watching.induct) (use begin_connection_ok service_step_ok in blast)+

section \<open>How long a connection lasts\<close>

text \<open>From the moment an expired timer has been noticed, its place in the queue.\<close>

definition expiry_queued :: "watch_service \<Rightarrow> nat \<Rightarrow> bool" where
  "expiry_queued s i \<longleftrightarrow> i < length (queued s) \<and> (\<exists>h. queued s ! i = Wait_done h Elapsed)"

definition ends_within :: "nat \<Rightarrow> nat \<Rightarrow> watch_service \<Rightarrow> bool" where
  "ends_within n last_handler s \<longleftrightarrow>
     n < connection s \<or>
     n = connection s \<and>
     ((is_stopped s \<or> dangling s) \<and> handled s \<le> last_handler \<or>
      handled s < last_handler \<and> expiry_queued s (last_handler - handled s - 1))"

lemma expiry_queued_append:
  "expiry_queued s i \<Longrightarrow> queued t = queued s @ q \<Longrightarrow> expiry_queued t i"
  by (auto simp: expiry_queued_def nth_append)

lemma run_queued_effect:
  "\<exists>q. queued (run_queued config w s) = queued s @ q" "handled (run_queued config w s) = handled s"
  "connection (run_queued config w s) = connection s"
  by (cases w; auto simp: run_wait_def run_read_def watcher_timers_def Let_def RunAsyncAfter_def
      split: wait_handler.split)+

lemma run_elapsed: "is_stopped (run_wait h Elapsed s) \<or> dangling (run_wait h Elapsed s)"
  by (simp add: run_wait_def split: wait_handler.split)

lemma ends_within_quiet:
  assumes "quiet_step config s t" and "ends_within n k s" and "\<not> n < connection s"
  shows "ends_within n k t"
  using assms
proof (induction rule: quiet_step.induct)
  case (pass s t)
  then show ?case by (auto simp: ends_within_def expiry_queued_def)
next
  case (reconnect_due s d h)
  then show ?case by (auto simp: ends_within_def expiry_queued_def nth_append)
next
  case (silence_due s d h)
  then show ?case by (auto simp: ends_within_def expiry_queued_def nth_append)
next
  case (run s w ws)
  then have k: "handled s < k" and e: "expiry_queued s (k - handled s - 1)" and n: "n = connection s"
    by (auto simp: ends_within_def)
  let ?s = "s\<lparr>queued := ws, handled := handled s + 1\<rparr>" and ?t = "run_queued config w (s\<lparr>queued := ws, handled := handled s + 1\<rparr>)"
  show ?case
  proof (cases "k - handled s - 1")
    case 0
    with e run.hyps(3) obtain h where "w = Wait_done h Elapsed" by (auto simp: expiry_queued_def)
    then have "is_stopped ?t \<or> dangling ?t" using run_elapsed by simp
    moreover have "handled ?t \<le> k" using k run_queued_effect(2) [of config w ?s] by simp
    ultimately show ?thesis using n run_queued_effect(3) [of config w ?s] by (simp add: ends_within_def)
  next
    case (Suc i)
    then have "expiry_queued s (Suc i)" using e by simp
    with run.hyps(3) have "expiry_queued ?s i" by (auto simp: expiry_queued_def)
    then have "expiry_queued ?t i" using run_queued_effect(1) [of config w ?s] expiry_queued_append by blast
    moreover have "handled ?t < k" "k - handled ?t - 1 = i" using Suc run_queued_effect(2) [of config w ?s] by auto
    ultimately show ?thesis using n run_queued_effect(3) [of config w ?s] by (simp add: ends_within_def)
  qed
qed

lemma connection_mono: "service_step config s t \<Longrightarrow> connection s \<le> connection t"
  by (elim service_stepE quiet_stepE) (simp_all add: run_queued_effect(3))

lemma ends_within_step:
  assumes "service_step config s t" and "ends_within n k s"
  shows "ends_within n k t"
proof (cases "n < connection s")
  case True
  with connection_mono [OF assms(1)] show ?thesis by (simp add: ends_within_def)
next
  case False
  from assms(1) show ?thesis
  proof cases
    case quiet
    then show ?thesis using ends_within_quiet assms(2) False by blast
  next
    case (arrive m c)
    with assms(2) False show ?thesis by (auto simp: ends_within_def expiry_queued_def nth_append)
  next
    case again
    with assms(2) False show ?thesis by (auto simp: ends_within_def)
  qed
qed

lemma ends_within_run: "(service_step config)\<^sup>*\<^sup>* s t \<Longrightarrow> ends_within n k s \<Longrightarrow> ends_within n k t"
  by (induction rule: rtranclp_induct) (auto intro: ends_within_step)

text \<open>
  C18.  When a connection ends.  Its chunks are without an error but for the last one.  If it was stopped
  without an error and no handler of an elapsed wait was left over from before it, then one of the two
  intervals is positive and has passed since its start.  Conversely, once the expiry of a timer has been
  noticed, the handlers queued before it and its own are the last ones the connection runs: whatever else
  comes, later chunks included, no other handler runs before it is stopped (or a handler has used a watcher that
  no longer exists).
\<close>

theorem watch_connection_bounds:
  assumes "watching config s"
  shows "list_all (\<lambda>c. snd c = None) (butlast (heard s)) \<and>
    (is_stopped s \<and> list_all (\<lambda>c. snd c = None) (heard s) \<and> \<not> stale s \<longrightarrow>
      0 < reconnect_interval config \<and> started_at s + seconds (reconnect_interval config) \<le> service_time s \<or>
      0 < max_silence config \<and> started_at s + seconds (max_silence config) \<le> service_time s) \<and>
    (\<forall>i h t. i < length (queued s) \<and> queued s ! i = Wait_done h Elapsed \<and>
        (service_step config)\<^sup>*\<^sup>* s t \<and> connection t = connection s \<longrightarrow>
      handled t \<le> handled s + i + 1 \<and>
      (handled t = handled s + i + 1 \<longrightarrow> is_stopped t \<or> dangling t))"
proof (intro conjI)
  have ok: "ends_ok config s" using watching_ok [OF assms] by simp
  then show "list_all (\<lambda>c. snd c = None) (butlast (heard s))" by (simp add: ends_ok_def)
  show "is_stopped s \<and> list_all (\<lambda>c. snd c = None) (heard s) \<and> \<not> stale s \<longrightarrow>
      0 < reconnect_interval config \<and> started_at s + seconds (reconnect_interval config) \<le> service_time s \<or>
      0 < max_silence config \<and> started_at s + seconds (max_silence config) \<le> service_time s"
    using ok unfolding ends_ok_def interval_over_def by blast
  show "\<forall>i h t. i < length (queued s) \<and> queued s ! i = Wait_done h Elapsed \<and>
        (service_step config)\<^sup>*\<^sup>* s t \<and> connection t = connection s \<longrightarrow>
      handled t \<le> handled s + i + 1 \<and>
      (handled t = handled s + i + 1 \<longrightarrow> is_stopped t \<or> dangling t)"
  proof (intro allI impI)
    fix i h t
    assume a: "i < length (queued s) \<and> queued s ! i = Wait_done h Elapsed \<and>
      (service_step config)\<^sup>*\<^sup>* s t \<and> connection t = connection s"
    then have "ends_within (connection s) (handled s + i + 1) s"
      by (auto simp: ends_within_def expiry_queued_def)
    with a have "ends_within (connection s) (handled s + i + 1) t" using ends_within_run by blast
    with a show "handled t \<le> handled s + i + 1 \<and> (handled t = handled s + i + 1 \<longrightarrow> is_stopped t \<or> dangling t)"
      by (auto simp: ends_within_def)
  qed
qed

section \<open>Silence\<close>

text \<open>Nothing that was heard waits to be handled, nor a handler of an earlier watcher's elapsed wait.\<close>

primrec of_this_connection :: "nat \<Rightarrow> service_handler \<Rightarrow> bool" where
  "of_this_connection n (Wait_done h r) \<longleftrightarrow> r = Aborted \<or> h = Stop_service \<or> h = Stop_by_watcher n"
| "of_this_connection n (Read_done m c) \<longleftrightarrow> False"

definition undisturbed :: "watch_service \<Rightarrow> bool" where
  "undisturbed s \<longleftrightarrow> \<not> dangling s \<and> list_all (of_this_connection (connection s)) (queued s)"

lemma run_own:
  assumes "of_this_connection (connection s) w" and "\<not> dangling s"
  shows "run_queued config w s = s \<or> run_queued config w s = s\<lparr>is_stopped := True\<rparr>"
  using assms by (cases w) (auto simp: run_wait_def)

lemma quiet_undisturbed:
  "quiet_step config s t \<Longrightarrow> undisturbed s \<and> service_ok config s \<Longrightarrow> undisturbed t \<and> service_ok config t"
proof (induction rule: quiet_step.induct)
  case (run s w ws)
  let ?s = "s\<lparr>queued := ws, handled := handled s + 1\<rparr>"
  have "of_this_connection (connection ?s) w" "\<not> dangling ?s" "undisturbed ?s"
    using run.hyps(2,3) run.prems by (simp_all add: undisturbed_def)
  then have "undisturbed (run_queued config w ?s)"
    using run_own [of ?s w config] by (auto simp: undisturbed_def)
  moreover have "service_ok config (run_queued config w ?s)"
    using run.prems quiet_step_ok quiet_step.run [OF run.hyps] by blast
  ultimately show ?case ..
qed (auto simp: undisturbed_def service_ok_def timer_ok_def split: option.splits)

lemma quiet_steps_undisturbed:
  "(quiet_step config)\<^sup>*\<^sup>* s t \<Longrightarrow> undisturbed s \<and> service_ok config s \<Longrightarrow> undisturbed t \<and> service_ok config t"
  by (induction rule: rtranclp_induct) (use quiet_undisturbed in blast)+

lemma drain_queue:
  "undisturbed s \<Longrightarrow> \<exists>t. (quiet_step config)\<^sup>*\<^sup>* s t \<and> (is_stopped t \<or> queued t = [])"
proof (induction "queued s" arbitrary: s)
  case Nil
  then show ?case by (metis rtranclp.rtrancl_refl)
next
  case (Cons w ws)
  let ?s = "s\<lparr>queued := ws, handled := handled s + 1\<rparr>"
  let ?t = "run_queued config w ?s"
  show ?case
  proof (cases "is_stopped s")
    case True
    then show ?thesis by blast
  next
    case False
    have own: "of_this_connection (connection ?s) w" "\<not> dangling ?s" "undisturbed ?s"
      using Cons.prems Cons.hyps(2) [symmetric] by (simp_all add: undisturbed_def)
    have one: "quiet_step config s ?t"
      by (rule run) (use False Cons.hyps(2) own(2) in simp_all)
    from run_own [OF own(1,2)] show ?thesis
    proof
      assume t: "?t = ?s"
      from Cons.hyps(1) [of ?s] own(3) obtain u where
        "(quiet_step config)\<^sup>*\<^sup>* ?s u" "is_stopped u \<or> queued u = []" by auto
      with one t show ?thesis by (metis converse_rtranclp_into_rtranclp)
    next
      assume "?t = ?s\<lparr>is_stopped := True\<rparr>"
      then have "is_stopped ?t" by simp
      with one show ?thesis by blast
    qed
  qed
qed

text \<open>An idle service notices the expiry of a timer and stops.\<close>

lemma due_stops:
  assumes "\<not> is_stopped s" "undisturbed s" "service_ok config s" "queued s = []"
    and due: "reconnect_timer s = Some (d, h) \<or> silence_timer s = Some (d, h)"
  shows "\<exists>t. (quiet_step config)\<^sup>*\<^sup>* s t \<and> is_stopped t \<and> queued t = [] \<and>
    connection t = connection s \<and> reading t = reading s"
proof -
  let ?a = "s\<lparr>service_time := max (service_time s) d\<rparr>"
  have h: "h = Stop_service \<or> h = Stop_by_watcher (connection s)"
    using due assms(3) by (auto simp: service_ok_def timer_ok_def)
  have a: "quiet_step config s ?a" using assms(2) by (intro pass) (auto simp: undisturbed_def)
  obtain b where b: "quiet_step config ?a b" "queued b = [Wait_done h Elapsed]" "\<not> is_stopped b" "\<not> dangling b"
    and same: "connection b = connection s" "reading b = reading s"
    using assms reconnect_due [of ?a d h config] silence_due [of ?a d h config]
    by (fastforce simp: undisturbed_def)
  let ?c = "run_queued config (Wait_done h Elapsed) (b\<lparr>queued := [], handled := handled b + 1\<rparr>)"
  from run [OF b(3,4,2)] have c: "quiet_step config b ?c" .
  from a b(1) c have "(quiet_step config)\<^sup>*\<^sup>* s ?c"
    by (meson converse_rtranclp_into_rtranclp rtranclp.rtrancl_refl)
  moreover have "?c = b\<lparr>queued := [], handled := handled b + 1, is_stopped := True\<rparr>"
    using h same by (auto simp: run_wait_def)
  ultimately show ?thesis using same by (intro exI [of _ ?c]) simp
qed

lemma quiet_stops:
  assumes "undisturbed s" "service_ok config s"
    and positive: "0 < reconnect_interval config \<or> 0 < max_silence config"
  shows "\<exists>t. (quiet_step config)\<^sup>*\<^sup>* s t \<and> is_stopped t"
proof -
  obtain t where t: "(quiet_step config)\<^sup>*\<^sup>* s t" "is_stopped t \<or> queued t = []"
    using drain_queue [OF assms(1)] by blast
  have ok: "undisturbed t" "service_ok config t" using quiet_steps_undisturbed [OF t(1)] assms(1,2) by blast+
  show ?thesis
  proof (cases "is_stopped t")
    case True
    with t(1) show ?thesis by blast
  next
    case False
    with t(2) have q: "queued t = []" by blast
    have "reconnect_timer t \<noteq> None \<or> silence_timer t \<noteq> None"
      using ok q False positive
      by (cases "reconnect_timer t"; cases "silence_timer t") (auto simp: service_ok_def timer_ok_def undisturbed_def)
    then obtain d h where "reconnect_timer t = Some (d, h) \<or> silence_timer t = Some (d, h)" by auto
    from due_stops [OF False ok q this] t(1) show ?thesis by (meson rtranclp_trans)
  qed
qed

text \<open>Without positive intervals no timer is ever set, and a connection ends with its last read.\<close>

definition no_timers :: "watch_service \<Rightarrow> bool" where
  "no_timers s \<longleftrightarrow> reconnect_timer s = None \<and> silence_timer s = None \<and> \<not> dangling s \<and>
     (if is_stopped s then reading s = [] \<and> queued s = []
      else reading s = [connection s] \<and> queued s = [] \<or>
           reading s = [] \<and> (\<exists>c. queued s = [Read_done (connection s) c]))"

lemma no_timers_quiet:
  assumes "\<not> 0 < max_silence config"
  shows "quiet_step config s t \<Longrightarrow> no_timers s \<Longrightarrow> no_timers t"
proof (induction rule: quiet_step.induct)
  case (run s w ws)
  then obtain c where c: "reading s = []" "w = Read_done (connection s) c" "ws = []"
    by (auto simp: no_timers_def)
  with run assms show ?case
    by (cases "snd c = None") (auto simp: no_timers_def run_read_def watcher_timers_eq)
qed (auto simp: no_timers_def)

lemma no_timers_watching:
  assumes "\<not> 0 < reconnect_interval config" "\<not> 0 < max_silence config"
  shows "watching config s \<Longrightarrow> no_timers s"
proof (induction rule: watching.induct)
  case first
  show ?case using assms by (simp add: no_timers_def begin_connection_def idle_service_def)
next
  case (step s t)
  from step.hyps(2) show ?case
  proof cases
    case quiet
    then show ?thesis using no_timers_quiet assms(2) step.IH by blast
  next
    case (arrive n c)
    with step.IH show ?thesis by (auto simp: no_timers_def)
  next
    case again
    with step.IH assms show ?thesis
      by (auto simp: no_timers_def begin_connection_def end_connection_def cancel_wait_def)
  qed
qed

lemma no_timers_stuck:
  assumes "no_timers s" "undisturbed s" "\<not> is_stopped s"
  shows "(quiet_step config)\<^sup>*\<^sup>* s t \<Longrightarrow> \<exists>now. t = s\<lparr>service_time := now\<rparr>"
proof (induction rule: rtranclp_induct)
  case base
  show ?case by (rule exI [of _ "service_time s"]) simp
next
  case (step t u)
  then obtain n where t: "t = s\<lparr>service_time := n\<rparr>" by blast
  from step.hyps(2) show ?case
    by (cases rule: quiet_step.cases) (use assms t in \<open>auto simp: no_timers_def undisturbed_def\<close>)
qed

text \<open>
  C19.  A connection from which nothing more is heard, with nothing that was heard left to handle, ends exactly
  when one of the two intervals is positive: then, whatever happens on this side in the meantime, no watcher is
  used after its end, and the service can still stop; otherwise the watch hangs on the connection forever.
\<close>

theorem watch_silence_ends:
  assumes "watching config s" and "\<not> is_stopped s" and "undisturbed s"
  shows "if 0 < reconnect_interval config \<or> 0 < max_silence config
    then \<forall>t. (quiet_step config)\<^sup>*\<^sup>* s t \<longrightarrow>
      \<not> dangling t \<and> (\<exists>u. (quiet_step config)\<^sup>*\<^sup>* t u \<and> is_stopped u \<and> \<not> dangling u)
    else \<forall>t. (quiet_step config)\<^sup>*\<^sup>* s t \<longrightarrow> \<not> is_stopped t"
proof -
  have ok: "service_ok config s" using watching_ok [OF assms(1)] by simp
  have stuck: "\<not> is_stopped t"
    if "\<not> 0 < reconnect_interval config \<and> \<not> 0 < max_silence config" "(quiet_step config)\<^sup>*\<^sup>* s t" for t
  proof -
    have "no_timers s" using no_timers_watching assms(1) that(1) by blast
    from no_timers_stuck [OF this assms(3,2) that(2)] show ?thesis using assms(2) by auto
  qed
  have ends: "\<not> dangling t \<and> (\<exists>u. (quiet_step config)\<^sup>*\<^sup>* t u \<and> is_stopped u \<and> \<not> dangling u)"
    if positive: "0 < reconnect_interval config \<or> 0 < max_silence config"
      and run: "(quiet_step config)\<^sup>*\<^sup>* s t" for t
  proof -
    have t: "undisturbed t \<and> service_ok config t" using quiet_steps_undisturbed [OF run] assms(3) ok by blast
    then obtain u where u: "(quiet_step config)\<^sup>*\<^sup>* t u" "is_stopped u" using quiet_stops positive by blast
    have "undisturbed u" using quiet_steps_undisturbed [OF u(1) t] by simp
    with t u show ?thesis unfolding undisturbed_def by blast
  qed
  show ?thesis by (simp only: split: if_split) (use stuck ends in blast)
qed

section \<open>Handlers that outlive their connection\<close>






section \<open>Witnesses\<close>

text \<open>Five minutes of silence and a reconnect every hour.\<close>

definition watch_config :: Configuration where
  "watch_config = (Configuration_new ''1'')
     \<lparr>kubernetes_updater_watch_reconnect_interval_seconds := 3600,
      kubernetes_updater_watch_reconnect_max_silence_seconds := 300\<rparr>"

text \<open>The first connection, silent for five minutes: the expiry has been noticed, and it is stopped.\<close>

definition expired_connection :: watch_service where
  "expired_connection = (begin_connection watch_config (idle_service 0))
     \<lparr>service_time := 300000000000, silence_timer := None, queued := [Wait_done Stop_service Elapsed]\<rparr>"

definition silent_connection :: watch_service where
  "silent_connection = expired_connection\<lparr>queued := [], handled := 1, is_stopped := True\<rparr>"

lemma expired_connection_watching:
  "watching watch_config expired_connection \<and> quiet_step watch_config expired_connection silent_connection"
proof
  let ?s0 = "begin_connection watch_config (idle_service 0)"
  let ?s1 = "?s0\<lparr>service_time := 300000000000\<rparr>"
  have s0: "silence_timer ?s0 = Some (300000000000, Stop_service)"
    by (simp add: begin_connection_def idle_service_def watch_config_def RunAsyncAfter_def seconds_def)
  have "quiet_step watch_config ?s0 ?s1" by (rule pass) auto
  moreover have "quiet_step watch_config ?s1 expired_connection"
    using silence_due [of ?s1 300000000000 Stop_service] by (simp add: s0 expired_connection_def)
  ultimately show "watching watch_config expired_connection"
    by (blast intro: watching.first watching.step service_step.quiet)
  have "handled expired_connection = 0"
    by (simp add: expired_connection_def) (simp add: idle_service_def)
  then show "quiet_step watch_config expired_connection silent_connection"
    using run [of expired_connection "Wait_done Stop_service Elapsed" "[]" watch_config]
    by (simp add: silent_connection_def run_wait_def) (simp add: expired_connection_def)
qed

theorem watch_connection_bounds_witness:
  "300000000000 \<le> service_time silent_connection \<and> handled silent_connection = 1"
proof -
  have "watching watch_config silent_connection"
    using expired_connection_watching by (blast intro: watching.step service_step.quiet)
  from watch_connection_bounds [OF this] show ?thesis
    by (simp add: silent_connection_def expired_connection_def)
qed

theorem watch_silence_ends_witness:
  "\<exists>t. (quiet_step watch_config)\<^sup>*\<^sup>* (begin_connection watch_config (idle_service 0)) t \<and> is_stopped t \<and> \<not> dangling t"
proof -
  have "undisturbed (begin_connection watch_config (idle_service 0))" by (simp add: undisturbed_def)
  moreover have "0 < reconnect_interval watch_config" by (simp add: watch_config_def)
  ultimately show ?thesis
    using watch_silence_ends [OF watching.first [of watch_config 0]] by (auto intro: rtranclp.rtrancl_refl)
qed

end
