(* ===== verification/Lifecycle.thy ===== *)
theory Lifecycle
  imports Reporter Kubernetes_Updater
begin

text \<open>
  The end of the objects with threads: the destructors of the timer (\<^verbatim>\<open>src/time.h\<close>), the polling updaters
  (\<^verbatim>\<open>src/updater.cc\<close>), the Kubernetes updater (\<^verbatim>\<open>src/kubernetes.h\<close>), the reporter
  (\<^verbatim>\<open>src/reporter.cc\<close>), with the thread of the reporter as steps, and the API server with its pool of
  threads (\<^verbatim>\<open>src/api_server.cc\<close>).

  A destructor that joins a thread waits until the thread has exited, so its outcome is a function of the
  state: it still waits, it is undefined, or it is done.  A wait on a mutex that is held takes no notice
  of who holds it, as the timed mutexes of the platform do.
\<close>

section \<open>Destructors\<close>

datatype destroy_outcome = Joining | Undefined_behaviour | Destroyed

definition Timer_destroy :: "timer \<Rightarrow> destroy_outcome" where
  "Timer_destroy t = (case Cancel t of None \<Rightarrow> Undefined_behaviour | Some t' \<Rightarrow> Destroyed)"

text \<open>The thread is joinable once it was started; the timer goes with the members.\<close>

definition polling_destroy :: "poll_state \<Rightarrow> destroy_outcome" where
  "polling_destroy s =
     (if poll_thread (updater s) \<and> phase s \<noteq> Exited then Joining else Timer_destroy (poll_timer (updater s)))"

text \<open>The watch threads that have ended are given; the base class comes last.\<close>

definition KubernetesUpdater_destroy ::
  "KubernetesUpdater \<Rightarrow> bool \<Rightarrow> bool \<Rightarrow> bool \<Rightarrow> bool \<Rightarrow> poll_phase \<Rightarrow> destroy_outcome" where
  "KubernetesUpdater_destroy u node_ended pod_ended service_ended endpoints_ended ph =
     (if node_watch u \<noteq> None \<and> \<not> node_ended then Joining
      else if pod_watch u \<noteq> None \<and> \<not> pod_ended then Joining
      else if service_watch u \<and> \<not> service_ended then Joining
      else if endpoints_watch u \<and> \<not> endpoints_ended then Joining
      else polling_destroy \<lparr>updater = k8s_polling u, phase = ph, queries = 0\<rparr>)"

section \<open>The thread of the reporter\<close>

datatype reporter_phase = Reporter_starting | Initial_wait | Reporting | Interval_wait | Reporter_exited

record reporter_life =
  reporter_timer :: timer
  reporter_at :: reporter_phase
  reports :: nat

definition MetadataReporter_new :: reporter_life where
  "MetadataReporter_new = \<lparr>reporter_timer = \<lparr>timer_locked = False\<rparr>, reporter_at = Reporter_starting, reports = 0\<rparr>"

text \<open>
  The result of the initial wait is not looked at.  A wait that finds the mutex free takes it, as in
  \<^term>\<open>thread_step\<close>.
\<close>

inductive reporter_step :: "reporter_life \<Rightarrow> reporter_life \<Rightarrow> bool" where
  init: "reporter_at s = Reporter_starting \<Longrightarrow> Init (reporter_timer s) = Some t \<Longrightarrow>
    reporter_step s (s\<lparr>reporter_timer := t, reporter_at := Initial_wait\<rparr>)"
| initial_elapsed: "reporter_at s = Initial_wait \<Longrightarrow> timer_locked (reporter_timer s) \<Longrightarrow>
    reporter_step s (s\<lparr>reporter_at := Reporting\<rparr>)"
| initial_cancelled: "reporter_at s = Initial_wait \<Longrightarrow> Init (reporter_timer s) = Some t \<Longrightarrow>
    reporter_step s (s\<lparr>reporter_timer := t, reporter_at := Reporting\<rparr>)"
| report: "reporter_at s = Reporting \<Longrightarrow>
    reporter_step s (s\<lparr>reporter_at := Interval_wait, reports := reports s + 1\<rparr>)"
| interval_elapsed: "reporter_at s = Interval_wait \<Longrightarrow> timer_locked (reporter_timer s) \<Longrightarrow>
    reporter_step s (s\<lparr>reporter_at := Reporting\<rparr>)"
| interval_cancelled: "reporter_at s = Interval_wait \<Longrightarrow> Init (reporter_timer s) = Some t \<Longrightarrow>
    reporter_step s (s\<lparr>reporter_timer := t, reporter_at := Reporter_exited\<rparr>)"

inductive_cases reporter_stepE: "reporter_step s t"

text \<open>The destructor notifies the thread, joins it, and destroys the timer.\<close>

definition reporter_notify :: "reporter_life \<Rightarrow> reporter_life option" where
  "reporter_notify s = map_option (\<lambda>t. s\<lparr>reporter_timer := t\<rparr>) (NotifyStopReporter (reporter_timer s))"

definition reporter_destroy :: "reporter_life \<Rightarrow> destroy_outcome" where
  "reporter_destroy s =
     (if reporter_at s \<noteq> Reporter_exited then Joining else Timer_destroy (reporter_timer s))"

section \<open>Polling updaters\<close>

definition started_updater :: "rat \<Rightarrow> poll_state" where
  "started_updater p =
     \<lparr>updater = polling_StartUpdater (PollingMetadataUpdater_new p), phase = Querying, queries = 0\<rparr>"

definition running_updater :: "poll_state \<Rightarrow> bool" where
  "running_updater s \<longleftrightarrow> poll_thread (updater s) \<and> locked s \<and> (phase s = Querying \<or> phase s = Waiting)"

definition stopped_updater :: "poll_state \<Rightarrow> bool" where
  "stopped_updater s \<longleftrightarrow> poll_thread (updater s) \<and>
     (case phase s of NotRunning \<Rightarrow> False | Exited \<Rightarrow> locked s | _ \<Rightarrow> \<not> locked s)"

lemma started_running: "running_updater (started_updater p)"
  by (simp add: running_updater_def started_updater_def polling_StartUpdater_def PollingMetadataUpdater_new_def Init_def)

lemma running_step: "thread_step s t \<Longrightarrow> running_updater s \<Longrightarrow> running_updater t"
  by (elim thread_stepE) (auto simp: running_updater_def Init_def split: if_splits)

lemma running_run: "thread_step\<^sup>*\<^sup>* s t \<Longrightarrow> running_updater s \<Longrightarrow> running_updater t"
  by (induction rule: rtranclp_induct) (auto intro: running_step)

lemma stopped_step: "thread_step s t \<Longrightarrow> stopped_updater s \<Longrightarrow> stopped_updater t"
  by (elim thread_stepE) (auto simp: stopped_updater_def Init_def split: if_splits)

lemma stopped_run: "thread_step\<^sup>*\<^sup>* s t \<Longrightarrow> stopped_updater s \<Longrightarrow> stopped_updater t"
  by (induction rule: rtranclp_induct) (auto intro: stopped_step)

lemma stopped_exits: "stopped_updater s \<Longrightarrow> \<exists>t. thread_step\<^sup>*\<^sup>* s t \<and> phase t = Exited"
  by (rule stopping_exits [of "queries s"]) (auto simp: stopped_updater_def stopping_def split: poll_phase.splits)

lemma stopped_destroy:
  "stopped_updater s \<Longrightarrow> polling_destroy s = (if phase s = Exited then Destroyed else Joining)"
  by (auto simp: stopped_updater_def polling_destroy_def Timer_destroy_def Cancel_def)

text \<open>
  The destructor of a polling updater.  For one that was never started it unlocks a mutex that is not
  locked, which is undefined; for a running one that was not told to stop it waits forever; after one
  notification it is never undefined, and from every state the thread can reach, the thread's own steps
  lead to a state where the destructor is done.
\<close>

theorem polling_destroy_outcome:
  assumes "thread_step\<^sup>*\<^sup>* (started_updater p) s"
  shows "polling_destroy \<lparr>updater = PollingMetadataUpdater_new p, phase = NotRunning, queries = 0\<rparr> = Undefined_behaviour
    \<and> polling_destroy s = Joining
    \<and> (\<exists>u. NotifyStop polling_class (updater s) = Some u \<and>
        (\<forall>t. thread_step\<^sup>*\<^sup>* (s\<lparr>updater := u\<rparr>) t \<longrightarrow> polling_destroy t \<noteq> Undefined_behaviour \<and>
           (\<exists>t'. thread_step\<^sup>*\<^sup>* t t' \<and> polling_destroy t' = Destroyed)))"
proof -
  have run: "running_updater s" using running_run [OF assms started_running] .
  define u where "u = (updater s)\<lparr>poll_timer := (poll_timer (updater s))\<lparr>timer_locked := False\<rparr>\<rparr>"
  have u: "NotifyStop polling_class (updater s) = Some u"
    using run by (simp add: NotifyStop_polling u_def running_updater_def)
  have stopped: "stopped_updater (s\<lparr>updater := u\<rparr>)"
    using run by (auto simp: stopped_updater_def running_updater_def u_def)
  have "polling_destroy t \<noteq> Undefined_behaviour \<and> (\<exists>t'. thread_step\<^sup>*\<^sup>* t t' \<and> polling_destroy t' = Destroyed)"
    if t: "thread_step\<^sup>*\<^sup>* (s\<lparr>updater := u\<rparr>) t" for t
  proof -
    have st: "stopped_updater t" using stopped_run [OF t stopped] .
    obtain t' where t': "thread_step\<^sup>*\<^sup>* t t'" "phase t' = Exited" using stopped_exits [OF st] by blast
    then have "polling_destroy t' = Destroyed" using stopped_destroy [OF stopped_run [OF t'(1) st]] by simp
    with t'(1) stopped_destroy [OF st] show ?thesis by auto
  qed
  moreover have "polling_destroy s = Joining"
    using run by (auto simp: polling_destroy_def running_updater_def)
  ultimately show ?thesis
    using u by (auto simp: polling_destroy_def PollingMetadataUpdater_new_def Timer_destroy_def Cancel_def)
qed

theorem polling_destroy_outcome_witness:
  "polling_destroy ((started_updater 60)\<lparr>phase := Waiting, queries := 1\<rparr>) = Joining"
proof -
  have "thread_step (started_updater 60) ((started_updater 60)\<lparr>phase := Waiting, queries := queries (started_updater 60) + 1\<rparr>)"
    by (rule thread_step.query) (simp add: started_updater_def)
  then have "thread_step (started_updater 60) ((started_updater 60)\<lparr>phase := Waiting, queries := 1\<rparr>)"
    by (simp add: started_updater_def)
  from polling_destroy_outcome [OF r_into_rtranclp [where r = thread_step, OF this]] show ?thesis by simp
qed

section \<open>The reporter\<close>

definition reporter_ok :: "reporter_life \<Rightarrow> bool" where
  "reporter_ok s \<longleftrightarrow>
     (case reporter_at s of
        Reporter_starting \<Rightarrow> \<not> timer_locked (reporter_timer s)
      | Reporter_exited \<Rightarrow> False
      | _ \<Rightarrow> timer_locked (reporter_timer s))"

text \<open>Before and after the notification is lost, and a notification that will be seen after \<open>q\<close> reports.\<close>

definition stop_lost :: "reporter_life \<Rightarrow> bool" where
  "stop_lost s \<longleftrightarrow>
     (case reporter_at s of
        Initial_wait \<Rightarrow> True
      | Reporting \<Rightarrow> timer_locked (reporter_timer s)
      | Interval_wait \<Rightarrow> timer_locked (reporter_timer s)
      | _ \<Rightarrow> False)"

definition stop_seen :: "nat \<Rightarrow> reporter_life \<Rightarrow> bool" where
  "stop_seen q s \<longleftrightarrow>
     (case reporter_at s of
        Reporting \<Rightarrow> \<not> timer_locked (reporter_timer s) \<and> reports s \<le> q
      | Interval_wait \<Rightarrow> \<not> timer_locked (reporter_timer s) \<and> reports s \<le> q + 1
      | Reporter_exited \<Rightarrow> timer_locked (reporter_timer s) \<and> reports s \<le> q + 1
      | _ \<Rightarrow> False)"

lemma reporter_ok_step: "reporter_step s t \<Longrightarrow> reporter_ok s \<Longrightarrow> reporter_ok t"
  by (elim reporter_stepE) (auto simp: reporter_ok_def Init_def split: if_splits)

lemma reporter_ok_new: "reporter_ok MetadataReporter_new"
  by (simp add: reporter_ok_def MetadataReporter_new_def)

lemma reporter_ok_run: "reporter_step\<^sup>*\<^sup>* MetadataReporter_new s \<Longrightarrow> reporter_ok s"
  by (induction rule: rtranclp_induct) (auto intro: reporter_ok_step reporter_ok_new)

lemma stop_lost_step: "reporter_step s t \<Longrightarrow> stop_lost s \<Longrightarrow> stop_lost t"
  by (elim reporter_stepE) (auto simp: stop_lost_def Init_def split: if_splits)

lemma stop_lost_run: "reporter_step\<^sup>*\<^sup>* s t \<Longrightarrow> stop_lost s \<Longrightarrow> stop_lost t"
  by (induction rule: rtranclp_induct) (auto intro: stop_lost_step)

lemma stop_seen_step: "reporter_step s t \<Longrightarrow> stop_seen q s \<Longrightarrow> stop_seen q t"
  by (elim reporter_stepE) (auto simp: stop_seen_def Init_def split: if_splits)

lemma stop_seen_run: "reporter_step\<^sup>*\<^sup>* s t \<Longrightarrow> stop_seen q s \<Longrightarrow> stop_seen q t"
  by (induction rule: rtranclp_induct) (auto intro: stop_seen_step)

lemma stop_seen_destroyed: "stop_seen q s \<Longrightarrow> \<exists>t. reporter_step\<^sup>*\<^sup>* s t \<and> reporter_destroy t = Destroyed"
proof -
  have exited: "reporter_destroy t = Destroyed" if "stop_seen q t" "reporter_at t = Reporter_exited" for t
    using that by (simp add: stop_seen_def reporter_destroy_def Timer_destroy_def Cancel_def)
  have waiting: "\<exists>t. reporter_step s t \<and> reporter_at t = Reporter_exited"
    if "stop_seen q s" "reporter_at s = Interval_wait" for s
  proof -
    have "Init (reporter_timer s) = Some ((reporter_timer s)\<lparr>timer_locked := True\<rparr>)"
      using that by (simp add: stop_seen_def Init_def)
    from reporter_step.interval_cancelled [OF that(2) this] show ?thesis by auto
  qed
  assume s: "stop_seen q s"
  then consider "reporter_at s = Reporter_exited" | "reporter_at s = Interval_wait" | "reporter_at s = Reporting"
    by (auto simp: stop_seen_def split: reporter_phase.splits)
  then show ?thesis
  proof cases
    case 1
    with s exited show ?thesis by blast
  next
    case 2
    with s waiting exited stop_seen_step show ?thesis by blast
  next
    case 3
    let ?t = "s\<lparr>reporter_at := Interval_wait, reports := reports s + 1\<rparr>"
    have t: "reporter_step s ?t" using 3 by (rule reporter_step.report)
    then have "stop_seen q ?t" using s by (rule stop_seen_step)
    then obtain t' where "reporter_step ?t t'" "reporter_destroy t' = Destroyed"
      using waiting [of ?t] exited stop_seen_step by auto
    with t show ?thesis by (meson converse_rtranclp_into_rtranclp r_into_rtranclp)
  qed
qed

text \<open>
  C22.  The destructor of the reporter, which may run at any moment of its thread.  Before the thread has
  initialised the timer it unlocks a mutex that is not locked; during the initial wait, whose result nobody
  looks at, the notification is lost and the destructor waits forever while the thread goes on
  reporting; after it the thread makes at most one more report, and its own steps lead to a state where the
  destructor is done.
\<close>

theorem reporter_destroy_outcome:
  assumes "reporter_step\<^sup>*\<^sup>* MetadataReporter_new s"
  shows "case reporter_at s of
      Reporter_starting \<Rightarrow> reporter_notify s = None
    | Initial_wait \<Rightarrow> (\<exists>n. reporter_notify s = Some n \<and> (\<forall>t. reporter_step\<^sup>*\<^sup>* n t \<longrightarrow> reporter_destroy t = Joining))
    | _ \<Rightarrow> (\<exists>n. reporter_notify s = Some n \<and> (\<forall>t. reporter_step\<^sup>*\<^sup>* n t \<longrightarrow> reports t \<le> reports s + 1 \<and>
        (\<exists>t'. reporter_step\<^sup>*\<^sup>* t t' \<and> reporter_destroy t' = Destroyed)))"
proof -
  let ?n = "s\<lparr>reporter_timer := (reporter_timer s)\<lparr>timer_locked := False\<rparr>\<rparr>"
  have ok: "reporter_ok s" using assms by (rule reporter_ok_run)
  have notify: "reporter_notify s = (if timer_locked (reporter_timer s) then Some ?n else None)"
    by (simp add: reporter_notify_def NotifyStopReporter_def Cancel_def)
  have lost: "reporter_destroy t = Joining" if "stop_lost ?n" "reporter_step\<^sup>*\<^sup>* ?n t" for t
    using stop_lost_run [OF that(2,1)] by (auto simp: stop_lost_def reporter_destroy_def split: reporter_phase.splits)
  have seen: "reports t \<le> reports s + 1 \<and> (\<exists>t'. reporter_step\<^sup>*\<^sup>* t t' \<and> reporter_destroy t' = Destroyed)"
    if "stop_seen (reports s) ?n" "reporter_step\<^sup>*\<^sup>* ?n t" for t
    using stop_seen_run [OF that(2,1)] stop_seen_destroyed [OF stop_seen_run [OF that(2,1)]]
    by (auto simp: stop_seen_def split: reporter_phase.splits)
  show ?thesis
  proof (cases "reporter_at s")
    case Reporter_starting
    with ok notify show ?thesis by (simp add: reporter_ok_def)
  next
    case Initial_wait
    with ok have "stop_lost ?n" "timer_locked (reporter_timer s)" by (simp_all add: reporter_ok_def stop_lost_def)
    with Initial_wait notify lost show ?thesis by simp
  next
    case Reporting
    with ok have "stop_seen (reports s) ?n" "timer_locked (reporter_timer s)"
      by (simp_all add: reporter_ok_def stop_seen_def)
    with Reporting notify seen show ?thesis by simp
  next
    case Interval_wait
    with ok have "stop_seen (reports s) ?n" "timer_locked (reporter_timer s)"
      by (simp_all add: reporter_ok_def stop_seen_def)
    with Interval_wait notify seen show ?thesis by simp
  next
    case Reporter_exited
    with ok show ?thesis by (simp add: reporter_ok_def)
  qed
qed

text \<open>The reporter in its initial wait.\<close>

theorem reporter_destroy_outcome_witness:
  "\<exists>n. reporter_notify \<lparr>reporter_timer = \<lparr>timer_locked = True\<rparr>, reporter_at = Initial_wait, reports = 0\<rparr> = Some n \<and>
     (\<forall>t. reporter_step\<^sup>*\<^sup>* n t \<longrightarrow> reporter_destroy t = Joining)"
proof -
  have "Init (reporter_timer MetadataReporter_new) = Some \<lparr>timer_locked = True\<rparr>"
    by (simp add: Init_def MetadataReporter_new_def)
  from reporter_step.init [OF _ this]
  have "reporter_step MetadataReporter_new
      \<lparr>reporter_timer = \<lparr>timer_locked = True\<rparr>, reporter_at = Initial_wait, reports = 0\<rparr>"
    by (simp add: MetadataReporter_new_def)
  from reporter_destroy_outcome [OF r_into_rtranclp [where r = reporter_step, OF this]] show ?thesis by simp
qed

text \<open>With watching enabled the timer of the base class is never initialised.\<close>

lemma KubernetesUpdater_destroy_watching:
  "Kubernetes_StartUpdater H config (KubernetesUpdater_new config) s = (Inr u, t) \<Longrightarrow> kubernetes_use_watch config \<Longrightarrow>
     KubernetesUpdater_destroy u n p sv e NotRunning =
       (if n \<and> p \<and> (service_watch u \<longrightarrow> sv) \<and> (endpoints_watch u \<longrightarrow> e) then Undefined_behaviour else Joining)"
  by (auto simp: Kubernetes_StartUpdater_def bindM_Inr returnM_def Let_def KubernetesUpdater_destroy_def
      KubernetesUpdater_new_def PollingMetadataUpdater_new_def polling_destroy_def Timer_destroy_def Cancel_def)

section \<open>The threads of the API server\<close>

text \<open>
  Every thread of the pool is in \<^verbatim>\<open>server_.run()\<close>, which by the documentation of the library returns after
  \<^verbatim>\<open>stop\<close>; a flag per thread tells whether it has.
\<close>

record api_server =
  server_stopped :: bool
  server_pool :: "bool list"

definition MetadataApiServer_new :: "nat \<Rightarrow> api_server" where
  "MetadataApiServer_new server_threads = \<lparr>server_stopped = False, server_pool = replicate server_threads False\<rparr>"

definition MetadataApiServer_Stop :: "api_server \<Rightarrow> api_server" where
  "MetadataApiServer_Stop s = s\<lparr>server_stopped := True\<rparr>"

text \<open>The destructor stops the server and joins its threads; stopping again changes nothing.\<close>

definition MetadataApiServer_destroy :: "api_server \<Rightarrow> destroy_outcome" where
  "MetadataApiServer_destroy s =
     (if list_all id (server_pool (MetadataApiServer_Stop s)) then Destroyed else Joining)"

inductive server_step :: "api_server \<Rightarrow> api_server \<Rightarrow> bool" where
  returns: "server_stopped s \<Longrightarrow> i < length (server_pool s) \<Longrightarrow> \<not> server_pool s ! i \<Longrightarrow>
    server_step s (s\<lparr>server_pool := (server_pool s)[i := True]\<rparr>)"

lemma server_stopped_ends: "server_stopped s \<Longrightarrow> \<exists>t. server_step\<^sup>*\<^sup>* s t \<and> MetadataApiServer_destroy t = Destroyed"
proof (induction "card {i. i < length (server_pool s) \<and> \<not> server_pool s ! i}" arbitrary: s rule: less_induct)
  case less
  show ?case
  proof (cases "list_all id (server_pool s)")
    case True
    then have "MetadataApiServer_destroy s = Destroyed"
      by (simp add: MetadataApiServer_destroy_def MetadataApiServer_Stop_def)
    then show ?thesis by blast
  next
    case False
    then obtain i where i: "i < length (server_pool s)" "\<not> server_pool s ! i"
      by (auto simp: list_all_length)
    let ?t = "s\<lparr>server_pool := (server_pool s)[i := True]\<rparr>"
    have step: "server_step s ?t" using less.prems i by (rule server_step.returns)
    have "{j. j < length (server_pool ?t) \<and> \<not> server_pool ?t ! j} \<subset> {j. j < length (server_pool s) \<and> \<not> server_pool s ! j}"
      using i by (auto simp: nth_list_update)
    then have "card {j. j < length (server_pool ?t) \<and> \<not> server_pool ?t ! j}
        < card {j. j < length (server_pool s) \<and> \<not> server_pool s ! j}"
      by (rule psubset_card_mono [rotated]) simp
    moreover have "server_stopped ?t" using less.prems by simp
    ultimately obtain t' where "server_step\<^sup>*\<^sup>* ?t t'" "MetadataApiServer_destroy t' = Destroyed"
      using less.hyps by blast
    with step show ?thesis by (meson converse_rtranclp_into_rtranclp)
  qed
qed

lemma server_destroy_ends:
  "\<exists>t. server_step\<^sup>*\<^sup>* (MetadataApiServer_Stop (MetadataApiServer_new n)) t \<and> MetadataApiServer_destroy t = Destroyed"
  by (rule server_stopped_ends) (simp add: MetadataApiServer_Stop_def)

end
