(* ===== verification/Locking.thy ===== *)
theory Locking
  imports Prelude
begin

text \<open>
  A discipline for locks that are held by scope (\<^verbatim>\<open>std::lock_guard\<close>): what an operation does with locks
  as a command, the sequences of actions its runs perform, a checker for a ranking of the locks, and the
  threads that run such sequences together.  It is independent of the agent; \<open>Lock_Order\<close> applies it.

  A lock may be recursive: the thread that holds it takes it again.  Taking a lock that is not
  recursive again blocks its own holder.
\<close>

section \<open>Commands and their runs\<close>

datatype 'l locking =
    Skip
  | Locked 'l "'l locking"
  | Then "'l locking" "'l locking"
  | Choose "'l locking" "'l locking"
  | Repeat "'l locking"
  | Caught "'l locking"

datatype 'l action = Acquire 'l | Release 'l

text \<open>
  The actions of a run and whether it ended normally.  An exception may leave a command at any point, and
  releases the locks of the scopes it leaves; \<open>Caught\<close> is a try block whose handlers take no locks.
\<close>

inductive lock_run :: "'l locking \<Rightarrow> 'l action list \<Rightarrow> bool \<Rightarrow> bool" where
  run_thrown: "lock_run c [] False"
| run_skip: "lock_run Skip [] True"
| run_locked: "lock_run c as ok \<Longrightarrow> lock_run (Locked l c) (Acquire l # as @ [Release l]) ok"
| run_then: "lock_run c as True \<Longrightarrow> lock_run d bs ok \<Longrightarrow> lock_run (Then c d) (as @ bs) ok"
| run_then_thrown: "lock_run c as False \<Longrightarrow> lock_run (Then c d) as False"
| run_choose1: "lock_run c as ok \<Longrightarrow> lock_run (Choose c d) as ok"
| run_choose2: "lock_run d as ok \<Longrightarrow> lock_run (Choose c d) as ok"
| run_repeat_end: "lock_run (Repeat c) [] True"
| run_repeat: "lock_run c as True \<Longrightarrow> lock_run (Repeat c) bs ok \<Longrightarrow> lock_run (Repeat c) (as @ bs) ok"
| run_repeat_thrown: "lock_run c as False \<Longrightarrow> lock_run (Repeat c) as False"
| run_caught: "lock_run c as ok \<Longrightarrow> lock_run (Caught c) as True"

fun sequence :: "'l locking list \<Rightarrow> 'l locking" where
  "sequence [] = Skip"
| "sequence [c] = c"
| "sequence (c # cs) = Then c (sequence cs)"

fun any_of :: "'l locking list \<Rightarrow> 'l locking" where
  "any_of [] = Skip"
| "any_of (c # cs) = Choose c (any_of cs)"

lemma run_locked_only: "lock_run (Locked l Skip) [Acquire l, Release l] True"
  using run_locked [OF run_skip] by simp

lemma run_any_of: "c \<in> set cs \<Longrightarrow> lock_run c as ok \<Longrightarrow> lock_run (any_of cs) as ok"
  by (induction cs) (auto intro: run_choose1 run_choose2)

abbreviation Maybe :: "'l locking \<Rightarrow> 'l locking" where
  "Maybe c \<equiv> Choose c Skip"

section \<open>The discipline\<close>

definition may_take :: "('l \<Rightarrow> nat) \<Rightarrow> ('l \<Rightarrow> bool) \<Rightarrow> 'l list \<Rightarrow> 'l \<Rightarrow> bool" where
  "may_take rank recursive held l \<longleftrightarrow> recursive l \<and> l \<in> set held \<or> (\<forall>h \<in> set held. rank h < rank l)"

fun ordered :: "('l \<Rightarrow> nat) \<Rightarrow> ('l \<Rightarrow> bool) \<Rightarrow> 'l list \<Rightarrow> 'l locking \<Rightarrow> bool" where
  "ordered rank recursive held Skip = True"
| "ordered rank recursive held (Locked l c) =
     (may_take rank recursive held l \<and> ordered rank recursive (l # held) c)"
| "ordered rank recursive held (Then c d) = (ordered rank recursive held c \<and> ordered rank recursive held d)"
| "ordered rank recursive held (Choose c d) = (ordered rank recursive held c \<and> ordered rank recursive held d)"
| "ordered rank recursive held (Repeat c) = ordered rank recursive held c"
| "ordered rank recursive held (Caught c) = ordered rank recursive held c"

text \<open>The same of a sequence of actions: it respects the order and ends with no lock held.\<close>

fun disciplined :: "('l \<Rightarrow> nat) \<Rightarrow> ('l \<Rightarrow> bool) \<Rightarrow> 'l list \<Rightarrow> 'l action list \<Rightarrow> bool" where
  "disciplined rank recursive held [] = (held = [])"
| "disciplined rank recursive held (Acquire l # as) =
     (may_take rank recursive held l \<and> disciplined rank recursive (l # held) as)"
| "disciplined rank recursive held (Release l # as) =
     (\<exists>rest. held = l # rest \<and> disciplined rank recursive rest as)"

lemma run_disciplined:
  "lock_run c as ok \<Longrightarrow> ordered rank recursive held c \<Longrightarrow> disciplined rank recursive held bs \<Longrightarrow>
     disciplined rank recursive held (as @ bs)"
  by (induction arbitrary: held bs rule: lock_run.induct) auto

lemma ordered_sequence: "ordered rank recursive held (sequence cs) = list_all (ordered rank recursive held) cs"
  by (induction cs rule: sequence.induct) auto

lemma ordered_any_of: "ordered rank recursive held (any_of cs) = list_all (ordered rank recursive held) cs"
  by (induction cs) auto

section \<open>Threads\<close>

text \<open>A thread: the locks it holds, the last one first, and the actions it still performs.\<close>

type_synonym 'l thread = "'l list \<times> 'l action list"

definition free_for :: "nat \<Rightarrow> 'l \<Rightarrow> 'l thread list \<Rightarrow> bool" where
  "free_for i l ts \<longleftrightarrow> (\<forall>j < length ts. j \<noteq> i \<longrightarrow> l \<notin> set (fst (ts ! j)))"

inductive threads_step :: "('l \<Rightarrow> bool) \<Rightarrow> 'l thread list \<Rightarrow> 'l thread list \<Rightarrow> bool" for recursive where
  acquire: "i < length ts \<Longrightarrow> ts ! i = (held, Acquire l # as) \<Longrightarrow> free_for i l ts \<Longrightarrow>
    (l \<in> set held \<Longrightarrow> recursive l) \<Longrightarrow> threads_step recursive ts (ts[i := (l # held, as)])"
| release: "i < length ts \<Longrightarrow> ts ! i = (l # held, Release l # as) \<Longrightarrow>
    threads_step recursive ts (ts[i := (held, as)])"

inductive_cases threads_stepE: "threads_step recursive ts us"

abbreviation threads_run :: "('l \<Rightarrow> bool) \<Rightarrow> 'l thread list \<Rightarrow> 'l thread list \<Rightarrow> bool" where
  "threads_run recursive \<equiv> (threads_step recursive)\<^sup>*\<^sup>*"

definition exclusive :: "'l thread list \<Rightarrow> bool" where
  "exclusive ts \<longleftrightarrow> (\<forall>i < length ts. \<forall>l \<in> set (fst (ts ! i)). free_for i l ts)"

definition threads_ok :: "('l \<Rightarrow> nat) \<Rightarrow> ('l \<Rightarrow> bool) \<Rightarrow> 'l thread list \<Rightarrow> bool" where
  "threads_ok rank recursive ts \<longleftrightarrow>
     (\<forall>i < length ts. disciplined rank recursive (fst (ts ! i)) (snd (ts ! i))) \<and> exclusive ts"

definition finished :: "'l thread list \<Rightarrow> bool" where
  "finished ts \<longleftrightarrow> (\<forall>i < length ts. ts ! i = ([], []))"

definition remaining :: "'l thread list \<Rightarrow> nat" where
  "remaining ts = sum_list (map (length \<circ> snd) ts)"

lemma free_for_update: "i < length ts \<Longrightarrow> free_for j l (ts[i := t]) \<longleftrightarrow>
    (\<forall>k < length ts. k \<noteq> j \<longrightarrow> l \<notin> set (fst (if k = i then t else ts ! k)))"
  by (auto simp: free_for_def nth_list_update)

lemma exclusive_step: "threads_step recursive ts us \<Longrightarrow> exclusive ts \<Longrightarrow> exclusive us"
proof (induction rule: threads_step.induct)
  case (acquire i ts held l as)
  show ?case
    unfolding exclusive_def
  proof (intro allI impI ballI)
    fix j m
    assume j: "j < length (ts[i := (l # held, as)])" and m: "m \<in> set (fst (ts[i := (l # held, as)] ! j))"
    have ex: "free_for j m ts" if "m \<in> set (fst (ts ! j))" using acquire.prems j that by (simp add: exclusive_def)
    show "free_for j m (ts[i := (l # held, as)])"
    proof (cases "j = i")
      case True
      with m acquire.hyps(1-3) ex show ?thesis by (auto simp: free_for_def nth_list_update)
    next
      case False
      with m j have "m \<in> set (fst (ts ! j))" by (simp add: nth_list_update)
      moreover from this have "m \<noteq> l" using acquire.hyps(3) j False by (auto simp: free_for_def)
      ultimately show ?thesis using ex acquire.hyps(1,2) by (auto simp: free_for_def nth_list_update)
    qed
  qed
next
  case (release i ts l held as)
  show ?case
    unfolding exclusive_def
  proof (intro allI impI ballI)
    fix j m
    assume j: "j < length (ts[i := (held, as)])" and m: "m \<in> set (fst (ts[i := (held, as)] ! j))"
    then have "m \<in> set (fst (ts ! j))" using release.hyps by (auto simp: nth_list_update split: if_splits)
    then have "free_for j m ts" using release.prems j by (simp add: exclusive_def)
    then show "free_for j m (ts[i := (held, as)])"
      using release.hyps by (auto simp: free_for_def nth_list_update)
  qed
qed

lemma threads_ok_step: "threads_step recursive ts us \<Longrightarrow> threads_ok rank recursive ts \<Longrightarrow> threads_ok rank recursive us"
proof -
  assume step: "threads_step recursive ts us" and ok: "threads_ok rank recursive ts"
  have "disciplined rank recursive (fst (us ! j)) (snd (us ! j))" if "j < length us" for j
    using step
  proof cases
    case (acquire i held l as)
    with ok that show ?thesis by (fastforce simp: threads_ok_def nth_list_update)
  next
    case (release i l held as)
    with ok that show ?thesis by (fastforce simp: threads_ok_def nth_list_update)
  qed
  with exclusive_step [OF step] ok show ?thesis by (simp add: threads_ok_def)
qed

lemma threads_ok_run: "threads_run recursive ts us \<Longrightarrow> threads_ok rank recursive ts \<Longrightarrow> threads_ok rank recursive us"
  by (induction rule: rtranclp_induct) (auto intro: threads_ok_step)

lemma remaining_step: "threads_step recursive ts us \<Longrightarrow> remaining ts = Suc (remaining us)"
proof -
  have less: "sum_list ((map f xs)[i := n]) + f (xs ! i) = sum_list (map f xs) + n" if "i < length xs"
    for f :: "'b \<Rightarrow> nat" and xs i n
    using that by (induction xs arbitrary: i) (auto split: nat.split)
  assume "threads_step recursive ts us"
  then show ?thesis
  proof cases
    case (acquire i held l as)
    with less [of i ts "length \<circ> snd" "length as"] show ?thesis by (simp add: remaining_def map_update)
  next
    case (release i l held as)
    with less [of i ts "length \<circ> snd" "length as"] show ?thesis by (simp add: remaining_def map_update)
  qed
qed

definition waits_for :: "'l thread list \<Rightarrow> nat \<Rightarrow> 'l \<Rightarrow> bool" where
  "waits_for ts i l \<longleftrightarrow> i < length ts \<and> (\<exists>held as. ts ! i = (held, Acquire l # as))"

lemma finite_waits_for: "finite {rank l |i l. waits_for ts i l}" for rank :: "'l \<Rightarrow> nat"
proof -
  let ?wanted = "\<lambda>i. case snd (ts ! i) of Acquire l # as \<Rightarrow> rank l | _ \<Rightarrow> 0"
  have "rank l = ?wanted i" "i \<in> {..<length ts}" if "waits_for ts i l" for i l
    using that by (auto simp: waits_for_def)
  then have "{rank l |i l. waits_for ts i l} \<subseteq> ?wanted ` {..<length ts}" by blast
  then show ?thesis by (rule finite_subset) simp
qed

text \<open>
  Some thread can always go on.  Otherwise every unfinished thread waits for a lock; take one that waits for
  a lock of the highest rank: the holder of this lock waits itself, for a lock of a higher rank.
\<close>

lemma stuck_waits:
  assumes "threads_ok rank recursive ts" and "\<nexists>us. threads_step recursive ts us"
    and "i < length ts" and "ts ! i \<noteq> ([], [])"
  shows "\<exists>l. waits_for ts i l"
proof -
  have d: "disciplined rank recursive (fst (ts ! i)) (snd (ts ! i))" using assms(1,3) by (simp add: threads_ok_def)
  obtain held as where t: "ts ! i = (held, as)" by fastforce
  show ?thesis
  proof (cases as)
    case Nil
    with d t assms(4) show ?thesis by simp
  next
    case (Cons a bs)
    with d t assms(2,3) show ?thesis by (cases a) (auto simp: waits_for_def dest: release [rotated])
  qed
qed

lemma stuck_blocked:
  assumes ok: "threads_ok rank recursive ts" and stuck: "\<nexists>us. threads_step recursive ts us"
    and "waits_for ts i l"
  shows "\<exists>j m. waits_for ts j m \<and> rank l < rank m"
proof -
  from assms(3) obtain held as where i: "i < length ts" "ts ! i = (held, Acquire l # as)"
    by (auto simp: waits_for_def)
  have "l \<in> set held \<Longrightarrow> recursive l" using ok i by (force simp: threads_ok_def may_take_def)
  with stuck i have "\<not> free_for i l ts" using acquire [of i ts held l as recursive] by blast
  then obtain j where j: "j < length ts" "l \<in> set (fst (ts ! j))" by (auto simp: free_for_def)
  then have "ts ! j \<noteq> ([], [])" by auto
  with stuck_waits [OF ok stuck j(1)] obtain m held' bs where m: "ts ! j = (held', Acquire m # bs)"
    by (auto simp: waits_for_def)
  have take: "may_take rank recursive held' m" using ok j(1) m by (force simp: threads_ok_def)
  have "m \<notin> set held'"
  proof
    assume "m \<in> set held'"
    then have "recursive m" "free_for j m ts"
      using take ok j(1) m by (auto simp: may_take_def threads_ok_def exclusive_def)
    with stuck j(1) m acquire [of j ts held' m bs recursive] show False by blast
  qed
  with take j(2) m have "rank l < rank m" by (auto simp: may_take_def)
  with j(1) m show ?thesis by (auto simp: waits_for_def)
qed

lemma threads_progress:
  assumes ok: "threads_ok rank recursive ts" and "\<not> finished ts"
  shows "\<exists>us. threads_step recursive ts us"
proof (rule ccontr)
  assume stuck: "\<nexists>us. threads_step recursive ts us"
  let ?ranks = "{rank l |i l. waits_for ts i l}"
  obtain i where "i < length ts" "ts ! i \<noteq> ([], [])" using assms(2) by (auto simp: finished_def)
  then have "?ranks \<noteq> {}" using stuck_waits [OF ok stuck] by blast
  with finite_waits_for have "Max ?ranks \<in> ?ranks" by (rule Max_in)
  then obtain i l where "waits_for ts i l" and l: "rank l = Max ?ranks" by auto
  then obtain j m where m: "waits_for ts j m" "rank l < rank m" using stuck_blocked [OF ok stuck] by blast
  then have "rank m \<in> ?ranks" by blast
  with finite_waits_for have "rank m \<le> Max ?ranks" by (rule Max_ge)
  with l m(2) show False by simp
qed

lemma threads_finish:
  "threads_ok rank recursive ts \<Longrightarrow> \<exists>us. threads_run recursive ts us \<and> finished us"
proof (induction "remaining ts" arbitrary: ts rule: less_induct)
  case less
  show ?case
  proof (cases "finished ts")
    case False
    obtain us where us: "threads_step recursive ts us" using threads_progress [OF less.prems False] by blast
    have "remaining us < remaining ts" using remaining_step [OF us] by simp
    then obtain vs where "threads_run recursive us vs" "finished vs"
      using less.hyps threads_ok_step [OF us less.prems] by blast
    with us show ?thesis by (meson converse_rtranclp_into_rtranclp)
  qed blast
qed

text \<open>Threads that start with nothing held.\<close>

lemma threads_ok_start:
  assumes "list_all (\<lambda>as. \<exists>c ok. ordered rank recursive [] c \<and> lock_run c as ok) ass"
  shows "threads_ok rank recursive (map (Pair []) ass)"
  using assms run_disciplined [where held = "[]" and bs = "[]"]
  by (fastforce simp: threads_ok_def exclusive_def list_all_length)

lemma threads_run_length: "(threads_step recursive ^^ n) ts us \<Longrightarrow> remaining ts = n + remaining us"
proof (induction n arbitrary: us)
  case (Suc n)
  then obtain vs where "(threads_step recursive ^^ n) ts vs" "threads_step recursive vs us" by auto
  with Suc.IH remaining_step show ?case by fastforce
qed simp

section \<open>One thread in a run\<close>

lemma threads_run_invariant:
  assumes "threads_run recursive ts us" and "P ts" and "\<And>us vs. P us \<Longrightarrow> threads_step recursive us vs \<Longrightarrow> P vs"
  shows "P us"
  using assms(1) by (induction rule: rtranclp_induct) (use assms(2,3) in auto)

text \<open>A step takes at most one action off a thread.\<close>

lemma thread_step_actions:
  "threads_step recursive ts us \<Longrightarrow> snd (us ! i) = snd (ts ! i) \<or> (\<exists>a. snd (ts ! i) = a # snd (us ! i))"
  by (elim threads_stepE) (auto simp: nth_list_update)

lemma thread_reaches:
  assumes "threads_run recursive ts us" and "snd (ts ! i) = as @ bs" and "snd (us ! i) = []"
  shows "\<exists>vs. threads_run recursive ts vs \<and> snd (vs ! i) = bs"
  using assms
proof (induction arbitrary: as rule: converse_rtranclp_induct)
  case base
  then show ?case by auto
next
  case (step ts ts')
  show ?case
  proof (cases as)
    case Nil
    with step.prems show ?thesis by auto
  next
    case (Cons a cs)
    with thread_step_actions [OF step.hyps(1), of i] step.prems(1)
    consider "snd (ts' ! i) = as @ bs" | "snd (ts' ! i) = cs @ bs" by auto
    then show ?thesis
    proof cases
      case 1
      from step.IH [OF this step.prems(2)] converse_rtranclp_into_rtranclp [where r = "threads_step recursive", OF step.hyps(1)] show ?thesis by blast
    next
      case 2
      from step.IH [OF this step.prems(2)] converse_rtranclp_into_rtranclp [where r = "threads_step recursive", OF step.hyps(1)] show ?thesis by blast
    qed
  qed
qed

text \<open>A thread that holds a lock, not recursive, and takes it again before it releases it, stays before that.\<close>

definition blocks_itself :: "nat \<Rightarrow> 'l \<Rightarrow> 'l action list \<Rightarrow> 'l thread list \<Rightarrow> bool" where
  "blocks_itself i l bs ts \<longleftrightarrow>
     i < length ts \<and> l \<in> set (fst (ts ! i)) \<and> (\<exists>as. snd (ts ! i) = as @ Acquire l # bs \<and> Release l \<notin> set as)"

lemma blocks_itself_step:
  assumes "blocks_itself i l bs ts" and "threads_step recursive ts us" and "\<not> recursive l"
  shows "blocks_itself i l bs us"
proof -
  obtain held as where t: "i < length ts" "ts ! i = (held, as @ Acquire l # bs)" "l \<in> set held" "Release l \<notin> set as"
    using assms(1) by (cases "ts ! i") (auto simp: blocks_itself_def)
  from assms(2) show ?thesis
  proof cases
    case (acquire j held' m cs)
    show ?thesis
    proof (cases "j = i")
      case True
      with acquire t assms(3) show ?thesis by (cases as) (auto simp: blocks_itself_def)
    next
      case False
      with acquire t show ?thesis by (auto simp: blocks_itself_def)
    qed
  next
    case (release j m held' cs)
    show ?thesis
    proof (cases "j = i")
      case True
      with release t show ?thesis by (cases as) (auto simp: blocks_itself_def)
    next
      case False
      with release t show ?thesis by (auto simp: blocks_itself_def)
    qed
  qed
qed

lemma blocks_itself_forever:
  assumes "blocks_itself i l bs ts" and "\<not> recursive l" and "threads_run recursive ts us"
  shows "length bs < length (snd (us ! i))"
proof -
  have "blocks_itself i l bs us"
    using assms(3,1) by (rule threads_run_invariant) (rule blocks_itself_step, assumption+, rule assms(2))
  then show ?thesis by (auto simp: blocks_itself_def)
qed

text \<open>The first time a disciplined sequence takes a lock, it has not released it before.\<close>

lemma disciplined_no_release:
  "disciplined rank recursive held (as @ bs) \<Longrightarrow> l \<notin> set held \<Longrightarrow> Acquire l \<notin> set as \<Longrightarrow> Release l \<notin> set as"
proof (induction as arbitrary: held)
  case (Cons a as)
  show ?case
  proof (cases a)
    case (Acquire m)
    with Cons.prems Cons.IH [of "m # held"] show ?thesis by auto
  next
    case (Release m)
    with Cons.prems Cons.IH [of "tl held"] show ?thesis by auto
  qed
qed simp

lemma first_acquire:
  assumes "disciplined rank recursive [] as" and "Acquire l \<in> set as"
  shows "\<exists>bs cs. as = bs @ Acquire l # cs \<and> Release l \<notin> set bs"
proof -
  from split_list_first [OF assms(2)] obtain bs cs where s: "as = bs @ Acquire l # cs" "Acquire l \<notin> set bs" by blast
  with assms(1) disciplined_no_release [of rank recursive "[]" bs] show ?thesis by fastforce
qed

section \<open>Locks that a command takes for sure\<close>

fun must_take :: "'l \<Rightarrow> 'l locking \<Rightarrow> bool" where
  "must_take l (Locked m c) = (m = l \<or> must_take l c)"
| "must_take l (Then c d) = (must_take l c \<or> must_take l d)"
| "must_take l (Choose c d) = (must_take l c \<and> must_take l d)"
| "must_take l _ = False"

lemma run_must_take: "lock_run c as ok \<Longrightarrow> ok \<Longrightarrow> must_take l c \<Longrightarrow> Acquire l \<in> set as"
  by (induction rule: lock_run.induct) auto

section \<open>A handler that interrupts a thread\<close>

text \<open>A signal handler runs in the thread it interrupts, between two of its actions, with the locks it holds.\<close>

definition interrupt_thread :: "nat \<Rightarrow> 'l action list \<Rightarrow> 'l thread list \<Rightarrow> 'l thread list" where
  "interrupt_thread i hs ts = ts[i := (fst (ts ! i), hs @ snd (ts ! i))]"

lemma interrupt_length [simp]: "length (interrupt_thread i hs ts) = length ts"
  by (simp add: interrupt_thread_def)

lemma interrupt_held [simp]: "fst (interrupt_thread i hs ts ! j) = fst (ts ! j)"
  by (cases "i < length ts") (simp_all add: interrupt_thread_def nth_list_update list_update_beyond)

lemma interrupt_actions: "i < length ts \<Longrightarrow>
    snd (interrupt_thread i hs ts ! j) = (if j = i then hs @ snd (ts ! i) else snd (ts ! j))"
  by (simp add: interrupt_thread_def nth_list_update)

lemma interrupted_ok:
  assumes ok: "threads_ok rank recursive ts" and "ordered rank recursive (fst (ts ! i)) c"
    and "lock_run c hs b" and i: "i < length ts"
  shows "threads_ok rank recursive (interrupt_thread i hs ts)"
proof -
  have "disciplined rank recursive (fst (ts ! i)) (hs @ snd (ts ! i))"
    using run_disciplined [OF assms(3,2)] ok i unfolding threads_ok_def by blast
  then have "disciplined rank recursive (fst (interrupt_thread i hs ts ! j)) (snd (interrupt_thread i hs ts ! j))"
    if "j < length ts" for j
    using ok i that unfolding threads_ok_def by (simp add: interrupt_actions)
  moreover have "exclusive (interrupt_thread i hs ts)"
    using ok unfolding threads_ok_def exclusive_def free_for_def interrupt_length interrupt_held by blast
  ultimately show ?thesis unfolding threads_ok_def interrupt_length by blast
qed

lemma interrupted_returns:
  assumes "threads_ok rank recursive (interrupt_thread i hs ts)" and i: "i < length ts"
  shows "\<exists>vs. threads_run recursive (interrupt_thread i hs ts) vs \<and> snd (vs ! i) = snd (ts ! i)"
proof -
  let ?us = "interrupt_thread i hs ts"
  obtain vs where vs: "threads_run recursive ?us vs" "finished vs" using threads_finish [OF assms(1)] by blast
  have "length vs = length ts"
    by (rule threads_run_invariant [where P = "\<lambda>us. length us = length ts", OF vs(1)])
      (auto elim: threads_stepE)
  with vs(2) i have "snd (vs ! i) = []" by (simp add: finished_def)
  moreover have "snd (?us ! i) = hs @ snd (ts ! i)" using i by (simp add: interrupt_actions)
  ultimately show ?thesis using thread_reaches [OF vs(1)] by blast
qed

lemma interrupted_blocks:
  assumes run: "lock_run c hs True" and "ordered rank recursive [] c" and "must_take l c"
    and "l \<in> set (fst (ts ! i))" and "\<not> recursive l" and i: "i < length ts"
    and reach: "threads_run recursive (interrupt_thread i hs ts) vs"
  shows "length (snd (ts ! i)) < length (snd (vs ! i))"
proof -
  have "disciplined rank recursive [] hs" using run_disciplined [OF run assms(2), of "[]"] by simp
  from first_acquire [OF this run_must_take [OF run TrueI assms(3)]] obtain bs cs
    where hs: "hs = bs @ Acquire l # cs" and bs: "Release l \<notin> set bs" by blast
  have "snd (interrupt_thread i hs ts ! i) = bs @ Acquire l # (cs @ snd (ts ! i))"
    using i hs by (simp add: interrupt_actions)
  with assms(4) i bs have "blocks_itself i l (cs @ snd (ts ! i)) (interrupt_thread i hs ts)"
    unfolding blocks_itself_def by auto
  from blocks_itself_forever [OF this assms(5) reach] show ?thesis by simp
qed

end
