(* ===== verification/Lock_Order.thy ===== *)
theory Lock_Order
  imports Locking
begin

text \<open>
  The mutexes of the agent and the order in which its operations take them
  (\<^verbatim>\<open>src/src/{store,health_checker,environment,kubernetes,configuration,time,logging,metadatad}.cc\<close>).  Each
  operation that takes a lock is the command of \<open>Locking\<close> that its source performs on the mutexes; what it
  computes is in the theory of its component.  \<open>Maybe\<close> and \<open>Choose\<close> stand for a branch that the data decide.
  A request to the metadata server or the Kubernetes master takes no lock.  The timed mutexes of the timers
  and \<open>server_wait_mutex_\<close>, which one thread locks and another unlocks, are signals and not in this theory;
  they are in \<open>Updater\<close>, \<open>Lifecycle\<close> and \<open>Agent\<close>.

  The theory shows that the order is one in which no threads ever wait for each other in a circle, and what
  becomes of the handler of SIGTERM, which runs inside the thread it interrupts.  The locks inside the
  libraries (of the allocator, the C and C++ streams, the HTTP server) are not in this theory: a library
  takes and releases them within a call, without calling back into the agent, so they keep no thread from
  its next step for good, but they can only add to what hangs a signal handler.
\<close>

section \<open>The mutexes\<close>

text \<open>
  An updater, the reporter and the OAuth2 object have an environment each, with a mutex each; the one
  Kubernetes updater has one reader.
\<close>

datatype agent_lock =
    Configuration_mutex
  | Resource_mu
  | Metadata_mu
  | Health_mutex
  | Environment_mutex nat
  | Reader_mutex
  | Service_mutex
  | Stream_mutex
  | Localtime_mutex
  | Gmtime_mutex

text \<open>The reader's mutex is a \<^verbatim>\<open>std::recursive_mutex\<close>.\<close>

definition lock_recursive :: "agent_lock \<Rightarrow> bool" where
  "lock_recursive l \<longleftrightarrow> l = Reader_mutex"

text \<open>The order that the operations respect, which the source does not write down.\<close>

fun lock_rank :: "agent_lock \<Rightarrow> nat" where
  "lock_rank Health_mutex = 0"
| "lock_rank (Environment_mutex n) = 0"
| "lock_rank Reader_mutex = 0"
| "lock_rank Service_mutex = 0"
| "lock_rank Resource_mu = 1"
| "lock_rank Metadata_mu = 1"
| "lock_rank Gmtime_mutex = 2"
| "lock_rank Configuration_mutex = 3"
| "lock_rank Localtime_mutex = 4"
| "lock_rank Stream_mutex = 5"

section \<open>Configuration, time and logging\<close>

text \<open>Every accessor of the configuration returns a field under the lock.\<close>

definition Configuration_get_locks :: "agent_lock locking" where
  "Configuration_get_locks = Locked Configuration_mutex Skip"

definition ParseConfiguration_locks :: "agent_lock locking" where
  "ParseConfiguration_locks = Locked Configuration_mutex (Repeat Skip)"

definition safe_localtime_locks :: "agent_lock locking" where
  "safe_localtime_locks = Locked Localtime_mutex Skip"

definition safe_gmtime_locks :: "agent_lock locking" where
  "safe_gmtime_locks = Locked Gmtime_mutex Skip"

definition LogStream_write_locks :: "agent_lock locking" where
  "LogStream_write_locks = Locked Stream_mutex Skip"

text \<open>
  A log statement whose values take the given locks.  The constructor of the logger reads the local time;
  C++11 leaves open whether before or after the values are evaluated.  The destructor writes the line, also
  when a value throws.
\<close>

definition LOG_locks :: "agent_lock locking \<Rightarrow> agent_lock locking" where
  "LOG_locks values =
     Then (Choose (Then safe_localtime_locks (Caught values)) (Then values safe_localtime_locks))
       LogStream_write_locks"

abbreviation log_text :: "agent_lock locking" where
  "log_text \<equiv> LOG_locks Skip"

text \<open>\<^verbatim>\<open>if (config_.VerboseLogging()) ...\<close>\<close>

abbreviation if_verbose :: "agent_lock locking \<Rightarrow> agent_lock locking" where
  "if_verbose c \<equiv> Then Configuration_get_locks (Maybe c)"

section \<open>The metadata store\<close>

definition LookupResource_locks :: "agent_lock locking" where
  "LookupResource_locks = Locked Resource_mu Skip"

definition UpdateResource_locks :: "agent_lock locking" where
  "UpdateResource_locks = Locked Resource_mu (Repeat (if_verbose log_text))"

text \<open>The log statement prints the two times of the entry with \<^verbatim>\<open>safe_gmtime\<close>.\<close>

abbreviation entry_LOG :: "agent_lock locking" where
  "entry_LOG \<equiv> LOG_locks (Then safe_gmtime_locks safe_gmtime_locks)"

definition UpdateMetadata_locks :: "agent_lock locking" where
  "UpdateMetadata_locks = Choose Skip (Locked Metadata_mu (if_verbose entry_LOG))"

definition GetMetadataMap_locks :: "agent_lock locking" where
  "GetMetadataMap_locks = Locked Metadata_mu (Repeat Skip)"

definition GetLastCollectionTimes_locks :: "agent_lock locking" where
  "GetLastCollectionTimes_locks = Locked Metadata_mu Skip"

definition PurgeDeletedEntries_locks :: "agent_lock locking" where
  "PurgeDeletedEntries_locks = Locked Metadata_mu (Repeat (Maybe (if_verbose entry_LOG)))"

section \<open>The health checker\<close>

definition SetUnhealthy_locks :: "agent_lock locking" where
  "SetUnhealthy_locks = Locked Health_mutex Skip"

definition UnhealthyComponents_locks :: "agent_lock locking" where
  "UnhealthyComponents_locks =
     Locked Health_mutex (sequence [Configuration_get_locks, GetLastCollectionTimes_locks, Repeat Skip])"

section \<open>The environment\<close>

definition GetMetadataString_locks :: "agent_lock locking" where
  "GetMetadataString_locks = Maybe log_text"

definition ReadCredentials_locks :: "agent_lock locking" where
  "ReadCredentials_locks = Choose (Maybe log_text) (Then (Maybe log_text) (Maybe log_text))"

definition ReadApplicationDefaultCredentials_locks :: "agent_lock locking" where
  "ReadApplicationDefaultCredentials_locks =
     Choose Skip
       (Then
         (Caught (sequence [Configuration_get_locks, Configuration_get_locks, ReadCredentials_locks, log_text]))
         (Maybe log_text))"

definition ProjectId_locks :: "nat \<Rightarrow> agent_lock locking" where
  "ProjectId_locks n =
     Locked (Environment_mutex n)
       (Maybe (Then Configuration_get_locks
         (Choose Configuration_get_locks
           (sequence [
             ReadApplicationDefaultCredentials_locks, Maybe log_text,
             Maybe (sequence [if_verbose log_text, GetMetadataString_locks, log_text])]))))"

definition InstanceZone_locks :: "nat \<Rightarrow> agent_lock locking" where
  "InstanceZone_locks n =
     Locked (Environment_mutex n)
       (Maybe (Then Configuration_get_locks (Choose Configuration_get_locks GetMetadataString_locks)))"

definition InstanceId_locks :: "nat \<Rightarrow> agent_lock locking" where
  "InstanceId_locks n =
     Locked (Environment_mutex n)
       (Maybe (Then Configuration_get_locks (Choose Configuration_get_locks GetMetadataString_locks)))"

definition InstanceResourceType_locks :: "nat \<Rightarrow> agent_lock locking" where
  "InstanceResourceType_locks n =
     Locked (Environment_mutex n)
       (Maybe (Then Configuration_get_locks (Choose Configuration_get_locks Skip)))"

definition KubernetesClusterName_locks :: "nat \<Rightarrow> agent_lock locking" where
  "KubernetesClusterName_locks n =
     Locked (Environment_mutex n)
       (Maybe (Then Configuration_get_locks (Choose Configuration_get_locks GetMetadataString_locks)))"

definition KubernetesClusterLocation_locks :: "nat \<Rightarrow> agent_lock locking" where
  "KubernetesClusterLocation_locks n =
     Locked (Environment_mutex n)
       (Maybe (Then Configuration_get_locks
         (Choose Configuration_get_locks (Then GetMetadataString_locks (Maybe GetMetadataString_locks)))))"

definition CredentialsClientEmail_locks :: "nat \<Rightarrow> agent_lock locking" where
  "CredentialsClientEmail_locks n = Locked (Environment_mutex n) ReadApplicationDefaultCredentials_locks"

definition CredentialsPrivateKey_locks :: "nat \<Rightarrow> agent_lock locking" where
  "CredentialsPrivateKey_locks n = Locked (Environment_mutex n) ReadApplicationDefaultCredentials_locks"

section \<open>The Kubernetes reader\<close>

definition ReadServiceAccountSecret_locks :: "agent_lock locking" where
  "ReadServiceAccountSecret_locks = Choose (Maybe log_text) (Maybe log_text)"

definition KubernetesApiToken_locks :: "agent_lock locking" where
  "KubernetesApiToken_locks =
     Locked Reader_mutex
       (Maybe (sequence [Configuration_get_locks, ReadServiceAccountSecret_locks, Maybe log_text]))"

definition KubernetesNamespace_locks :: "agent_lock locking" where
  "KubernetesNamespace_locks =
     Locked Reader_mutex
       (Maybe (sequence [Configuration_get_locks, ReadServiceAccountSecret_locks, Maybe log_text]))"

definition QueryMaster_locks :: "agent_lock locking" where
  "QueryMaster_locks =
     sequence [Configuration_get_locks, KubernetesApiToken_locks, if_verbose log_text, Maybe log_text]"

definition CurrentNode_locks :: "agent_lock locking" where
  "CurrentNode_locks =
     Locked Reader_mutex
       (Maybe (Then Configuration_get_locks
         (Choose Configuration_get_locks
           (sequence [KubernetesNamespace_locks, Caught QueryMaster_locks, Maybe log_text]))))"

definition KindPath_locks :: "agent_lock locking" where
  "KindPath_locks =
     Locked Reader_mutex (Maybe (Then (Caught (Then QueryMaster_locks (if_verbose log_text))) (Maybe log_text)))"

definition GetOwner_locks :: "agent_lock locking" where
  "GetOwner_locks =
     Locked Reader_mutex (Maybe (sequence [KindPath_locks, QueryMaster_locks, Maybe log_text]))"

definition GetServiceList_locks :: "agent_lock locking" where
  "GetServiceList_locks = Locked Service_mutex (Repeat (Repeat Skip))"

definition UpdateServiceToMetadataCache_locks :: "agent_lock locking" where
  "UpdateServiceToMetadataCache_locks = Locked Service_mutex Skip"

definition UpdateServiceToPodsCache_locks :: "agent_lock locking" where
  "UpdateServiceToPodsCache_locks =
     Then (Maybe (Repeat (Repeat (Maybe log_text)))) (Locked Service_mutex Skip)"

section \<open>The threads\<close>

definition store_operations :: "agent_lock locking list" where
  "store_operations =
     [LookupResource_locks, UpdateResource_locks, UpdateMetadata_locks, GetMetadataMap_locks,
      GetLastCollectionTimes_locks, PurgeDeletedEntries_locks]"

definition health_operations :: "agent_lock locking list" where
  "health_operations = [SetUnhealthy_locks, UnhealthyComponents_locks]"

definition environment_operations :: "nat \<Rightarrow> agent_lock locking list" where
  "environment_operations n =
     [ProjectId_locks n, InstanceZone_locks n, InstanceId_locks n, InstanceResourceType_locks n,
      KubernetesClusterName_locks n, KubernetesClusterLocation_locks n, CredentialsClientEmail_locks n,
      CredentialsPrivateKey_locks n]"

definition reader_operations :: "agent_lock locking list" where
  "reader_operations =
     [KubernetesApiToken_locks, KubernetesNamespace_locks, QueryMaster_locks, CurrentNode_locks, GetOwner_locks,
      GetServiceList_locks, UpdateServiceToMetadataCache_locks, UpdateServiceToPodsCache_locks]"

definition common_operations :: "agent_lock locking list" where
  "common_operations =
     [Configuration_get_locks, ParseConfiguration_locks, safe_localtime_locks, safe_gmtime_locks, log_text,
      entry_LOG]"

definition agent_operations :: "nat list \<Rightarrow> agent_lock locking list" where
  "agent_operations ns =
     store_operations @ health_operations @ concat (map environment_operations ns) @ reader_operations @
     common_operations"

text \<open>
  What a thread of the agent does with the locks: operations, one after the other.  Its exceptions may be
  caught between two of them.  \<open>ns\<close> are the environments the threads use.
\<close>

definition thread_locks :: "nat list \<Rightarrow> agent_lock locking" where
  "thread_locks ns = Repeat (Caught (any_of (agent_operations ns)))"

definition thread_runs :: "nat list \<Rightarrow> agent_lock action list list \<Rightarrow> bool" where
  "thread_runs ns ass \<longleftrightarrow> list_all (\<lambda>as. \<exists>ok. lock_run (thread_locks ns) as ok) ass"

text \<open>The threads as they start: no locks, and the actions of their runs ahead.\<close>

definition start_threads :: "agent_lock action list list \<Rightarrow> agent_lock thread list" where
  "start_threads ass = map (Pair []) ass"

section \<open>The order\<close>

lemmas lock_definitions =
  Configuration_get_locks_def ParseConfiguration_locks_def safe_localtime_locks_def safe_gmtime_locks_def
  LogStream_write_locks_def LOG_locks_def
  LookupResource_locks_def UpdateResource_locks_def UpdateMetadata_locks_def GetMetadataMap_locks_def
  GetLastCollectionTimes_locks_def PurgeDeletedEntries_locks_def SetUnhealthy_locks_def
  UnhealthyComponents_locks_def GetMetadataString_locks_def ReadCredentials_locks_def
  ReadApplicationDefaultCredentials_locks_def ProjectId_locks_def InstanceZone_locks_def InstanceId_locks_def
  InstanceResourceType_locks_def KubernetesClusterName_locks_def KubernetesClusterLocation_locks_def
  CredentialsClientEmail_locks_def CredentialsPrivateKey_locks_def ReadServiceAccountSecret_locks_def
  KubernetesApiToken_locks_def KubernetesNamespace_locks_def QueryMaster_locks_def CurrentNode_locks_def
  KindPath_locks_def GetOwner_locks_def GetServiceList_locks_def UpdateServiceToMetadataCache_locks_def
  UpdateServiceToPodsCache_locks_def

abbreviation agent_ordered :: "agent_lock list \<Rightarrow> agent_lock locking \<Rightarrow> bool" where
  "agent_ordered \<equiv> ordered lock_rank lock_recursive"

abbreviation agent_run :: "agent_lock thread list \<Rightarrow> agent_lock thread list \<Rightarrow> bool" where
  "agent_run \<equiv> threads_run lock_recursive"

lemma store_ordered: "list_all (agent_ordered []) store_operations"
  by (simp add: store_operations_def lock_definitions may_take_def)

lemma health_ordered: "list_all (agent_ordered []) health_operations"
  by (simp add: health_operations_def lock_definitions may_take_def)

lemma common_ordered: "list_all (agent_ordered []) common_operations"
  by (simp add: common_operations_def lock_definitions may_take_def)

lemma environment_ordered: "list_all (agent_ordered []) (environment_operations n)"
  by (simp add: environment_operations_def lock_definitions may_take_def)

lemma reader_ordered: "list_all (agent_ordered []) reader_operations"
  by (simp add: reader_operations_def lock_definitions may_take_def lock_recursive_def)

lemma thread_ordered: "agent_ordered [] (thread_locks ns)"
proof -
  have "list_all (agent_ordered []) (concat (map environment_operations ns))"
    using environment_ordered by (induction ns) auto
  then show ?thesis
    by (simp add: thread_locks_def agent_operations_def ordered_any_of store_ordered health_ordered
        common_ordered reader_ordered)
qed

lemma start_threads_ok: "thread_runs ns ass \<Longrightarrow> threads_ok lock_rank lock_recursive (start_threads ass)"
  unfolding start_threads_def thread_runs_def
  by (rule threads_ok_start) (use thread_ordered in \<open>fastforce simp: list_all_iff\<close>)

lemma agent_run_ok:
  "thread_runs ns ass \<Longrightarrow> agent_run (start_threads ass) us \<Longrightarrow> threads_ok lock_rank lock_recursive us"
  using threads_ok_run start_threads_ok by blast

text \<open>
  C37.  The threads of the agent never deadlock on its mutexes.  Whatever operations they perform and
  however they interleave: a run from a state they reach has at most as many steps as there are actions
  left, and as long as some thread has not finished, some thread can take its next step.
\<close>

theorem agent_never_deadlocks:
  assumes "thread_runs ns ass" and "agent_run (start_threads ass) us"
    and "(threads_step lock_recursive ^^ n) us vs"
  shows "n + remaining vs = remaining us \<and> (finished vs \<or> (\<exists>ws. threads_step lock_recursive vs ws))"
proof -
  have "agent_run us vs" using assms(3) by (rule relpowp_imp_rtranclp)
  with agent_run_ok [OF assms(1,2)] have "threads_ok lock_rank lock_recursive vs" by (blast intro: threads_ok_run)
  with threads_progress threads_run_length [OF assms(3)] show ?thesis by fastforce
qed

lemma thread_performs:
  assumes "c \<in> set (agent_operations ns)" and "lock_run c as ok"
  shows "lock_run (thread_locks ns) as True"
  using run_repeat [OF run_caught [OF run_any_of [OF assms]] run_repeat_end]
  by (simp add: thread_locks_def)

text \<open>
  One thread has read the collection times, another looks for unhealthy components: the first releases the
  mutex of the store, which the second needs later.
\<close>

lemma GetLastCollectionTimes_run:
  "lock_run (thread_locks []) [Acquire Metadata_mu, Release Metadata_mu] True"
  by (rule thread_performs [of GetLastCollectionTimes_locks _ _ True])
    (simp_all add: agent_operations_def store_operations_def GetLastCollectionTimes_locks_def run_locked_only)

lemma UnhealthyComponents_run:
  "lock_run (thread_locks [])
     [Acquire Health_mutex, Acquire Configuration_mutex, Release Configuration_mutex,
      Acquire Metadata_mu, Release Metadata_mu, Release Health_mutex] True"
proof (rule thread_performs [of UnhealthyComponents_locks _ _ True])
  show "UnhealthyComponents_locks \<in> set (agent_operations [])"
    by (simp add: agent_operations_def health_operations_def)
  show "lock_run UnhealthyComponents_locks
      [Acquire Health_mutex, Acquire Configuration_mutex, Release Configuration_mutex,
       Acquire Metadata_mu, Release Metadata_mu, Release Health_mutex] True"
    using run_locked [OF run_then [OF run_locked_only run_then [OF run_locked_only run_repeat_end]],
        of Health_mutex Configuration_mutex Metadata_mu Skip]
    by (simp add: UnhealthyComponents_locks_def Configuration_get_locks_def GetLastCollectionTimes_locks_def)
qed

theorem agent_never_deadlocks_witness:
  "\<exists>ws. threads_step lock_recursive
     [([], []), ([], [Acquire Health_mutex, Acquire Configuration_mutex, Release Configuration_mutex,
        Acquire Metadata_mu, Release Metadata_mu, Release Health_mutex])] ws"
proof -
  let ?health = "[Acquire Health_mutex, Acquire Configuration_mutex, Release Configuration_mutex,
    Acquire Metadata_mu, Release Metadata_mu, Release Health_mutex]"
  let ?us = "[([Metadata_mu], [Release Metadata_mu]), ([], ?health)]"
  let ?ts = "[[Acquire Metadata_mu, Release Metadata_mu], ?health]"
  have runs: "thread_runs [] ?ts"
    using GetLastCollectionTimes_run UnhealthyComponents_run by (auto simp: thread_runs_def)
  have "threads_step lock_recursive (start_threads ?ts) ?us"
    using threads_step.acquire [of 0 "start_threads ?ts" "[]" Metadata_mu "[Release Metadata_mu]" lock_recursive]
    by (simp add: start_threads_def free_for_def nth_Cons')
  then have reach: "agent_run (start_threads ?ts) ?us" by blast
  have "threads_step lock_recursive ?us [([], []), ([], ?health)]"
    using threads_step.release [of 0 ?us Metadata_mu "[]" "[]" lock_recursive] by simp
  then have "(threads_step lock_recursive ^^ 1) ?us [([], []), ([], ?health)]" by (simp only: relpowp_1)
  from agent_never_deadlocks [OF runs reach this] show ?thesis by (simp add: finished_def All_less_Suc)
qed

section \<open>The handler of SIGTERM\<close>

text \<open>
  The handler writes to \<^verbatim>\<open>std::cerr\<close> and calls \<^verbatim>\<open>StartShutdown\<close>: the API server logs that it stopped, the
  timers of the instance and Docker updaters log when they are verbose, and the Kubernetes updater asks the
  configuration whether it watches before it cancels its timer.
\<close>

definition Timer_Cancel_locks :: "agent_lock locking" where
  "Timer_Cancel_locks = Maybe log_text"

definition MetadataApiServer_Stop_locks :: "agent_lock locking" where
  "MetadataApiServer_Stop_locks = log_text"

definition Kubernetes_NotifyStopUpdater_locks :: "agent_lock locking" where
  "Kubernetes_NotifyStopUpdater_locks = Then Configuration_get_locks (Choose Skip Timer_Cancel_locks)"

definition StartShutdown_locks :: "agent_lock locking" where
  "StartShutdown_locks =
     sequence [MetadataApiServer_Stop_locks, Timer_Cancel_locks, Timer_Cancel_locks,
       Kubernetes_NotifyStopUpdater_locks]"

lemmas handler_definitions =
  StartShutdown_locks_def Timer_Cancel_locks_def MetadataApiServer_Stop_locks_def
  Kubernetes_NotifyStopUpdater_locks_def lock_definitions

definition handler_mutexes :: "agent_lock set" where
  "handler_mutexes = {Configuration_mutex, Localtime_mutex, Stream_mutex}"

lemma handler_takes: "l \<in> handler_mutexes \<Longrightarrow> must_take l StartShutdown_locks"
  by (auto simp: handler_mutexes_def handler_definitions)

lemma handler_ordered:
  assumes "set held \<inter> handler_mutexes = {}"
  shows "agent_ordered held StartShutdown_locks"
proof -
  have "lock_rank h < 3" if "h \<notin> handler_mutexes" for h
    using that by (cases h) (auto simp: handler_mutexes_def)
  with assms have "\<forall>h \<in> set held. lock_rank h < 3" by blast
  then show ?thesis by (fastforce simp: handler_definitions may_take_def)
qed

text \<open>Of the agent's mutexes, these three are the ones that can keep the handler from its end.\<close>

lemma handler_not_blocked:
  assumes "thread_runs ns ass" and "agent_run (start_threads ass) us" and "i < length us"
    and "lock_run StartShutdown_locks hs True" and "set (fst (us ! i)) \<inter> handler_mutexes = {}"
  shows "\<exists>vs. agent_run (interrupt_thread i hs us) vs \<and> snd (vs ! i) = snd (us ! i)"
  using agent_run_ok [OF assms(1,2)] assms(3-5) handler_ordered
  by (intro interrupted_returns interrupted_ok) auto

text \<open>
  C38.  When SIGTERM interrupts a thread that holds the mutex of the configuration, of the local time or of the
  log stream, its handler never comes to the end of the shutdown, and so not to the exit that follows it: in
  whatever way the other threads go on, it has actions left.  It waits for a mutex of its own thread.
\<close>

theorem sigterm_hangs:
  assumes "thread_runs ns ass" and "agent_run (start_threads ass) us" and "i < length us"
    and "lock_run StartShutdown_locks hs True"
    and "set (fst (us ! i)) \<inter> {Configuration_mutex, Localtime_mutex, Stream_mutex} \<noteq> {}"
    and "agent_run (interrupt_thread i hs us) vs"
  shows "length (snd (us ! i)) < length (snd (vs ! i))"
proof -
  obtain l where l: "l \<in> set (fst (us ! i))" "l \<in> handler_mutexes"
    using assms(5) by (auto simp: handler_mutexes_def)
  then have "\<not> lock_recursive l" by (auto simp: lock_recursive_def handler_mutexes_def)
  moreover have "agent_ordered [] StartShutdown_locks" by (rule handler_ordered) simp
  ultimately show ?thesis
    using interrupted_blocks [OF assms(4) _ handler_takes [OF l(2)] l(1) _ assms(3,6)] by blast
qed

text \<open>A thread is writing a line to the log stream when the signal arrives.\<close>

lemma run_log_text:
  "lock_run log_text [Acquire Localtime_mutex, Release Localtime_mutex,
     Acquire Stream_mutex, Release Stream_mutex] True"
  using run_then [OF run_choose1 [OF run_then [OF run_locked_only run_caught [OF run_skip]]] run_locked_only]
  by (simp add: LOG_locks_def safe_localtime_locks_def LogStream_write_locks_def)

lemma run_StartShutdown:
  "lock_run StartShutdown_locks
     [Acquire Localtime_mutex, Release Localtime_mutex, Acquire Stream_mutex, Release Stream_mutex,
      Acquire Configuration_mutex, Release Configuration_mutex] True"
proof -
  have quiet: "lock_run Timer_Cancel_locks [] True"
    unfolding Timer_Cancel_locks_def by (rule run_choose2 [OF run_skip])
  have "lock_run Kubernetes_NotifyStopUpdater_locks [Acquire Configuration_mutex, Release Configuration_mutex] True"
    using run_then [OF run_locked_only run_choose1 [OF run_skip]]
    by (simp add: Kubernetes_NotifyStopUpdater_locks_def Configuration_get_locks_def)
  from run_then [OF run_log_text run_then [OF quiet run_then [OF quiet this]]]
  show ?thesis by (simp add: StartShutdown_locks_def MetadataApiServer_Stop_locks_def)
qed

theorem sigterm_hangs_witness:
  "\<nexists>vs. agent_run
     [([Stream_mutex],
       [Acquire Localtime_mutex, Release Localtime_mutex, Acquire Stream_mutex, Release Stream_mutex,
        Acquire Configuration_mutex, Release Configuration_mutex, Release Stream_mutex])] vs \<and>
     length (snd (vs ! 0)) \<le> 1"
proof -
  let ?log = "[Acquire Localtime_mutex, Release Localtime_mutex, Acquire Stream_mutex, Release Stream_mutex]"
  let ?us = "[([Stream_mutex], [Release Stream_mutex])]"
  have "lock_run (thread_locks []) ?log True"
    by (rule thread_performs [OF _ run_log_text]) (simp add: agent_operations_def common_operations_def)
  then have runs: "thread_runs [] [?log]" by (auto simp: thread_runs_def)
  have "threads_step lock_recursive (start_threads [?log]) [([Localtime_mutex], tl ?log)]"
    using threads_step.acquire [of 0 "start_threads [?log]" "[]" Localtime_mutex "tl ?log" lock_recursive]
    by (simp add: start_threads_def free_for_def)
  moreover have "threads_step lock_recursive [([Localtime_mutex], tl ?log)] [([], tl (tl ?log))]"
    using threads_step.release [of 0 "[([Localtime_mutex], tl ?log)]" Localtime_mutex "[]" "tl (tl ?log)" lock_recursive]
    by simp
  moreover have "threads_step lock_recursive [([], tl (tl ?log))] ?us"
    using threads_step.acquire [of 0 "[([], tl (tl ?log))]" "[]" Stream_mutex "[Release Stream_mutex]" lock_recursive]
    by (simp add: free_for_def)
  ultimately have reach: "agent_run (start_threads [?log]) ?us"
    by (meson rtranclp.rtrancl_refl rtranclp.rtrancl_into_rtrancl)
  from sigterm_hangs [OF runs reach _ run_StartShutdown, of 0] show ?thesis
    by (simp add: interrupt_thread_def not_le)
qed

end
