(* ===== verification/Spec2Isabelle.thy ===== *)
theory Spec2Isabelle
  imports Json Format Base64 Resource Agent_Time Store Configuration Environment OAuth2 Reporter Util
    Updater Health_Checker Api_Server Instance Docker Kubernetes Kubernetes_Updater Kubernetes_Watch Agent
    Local_Exchange Docker_Socket Signing Logging Kubernetes_Owners Watch_Timers Lifecycle
    Locking Lock_Order
begin

text \<open>
  The Stackdriver metadata agent (sources under \<^verbatim>\<open>src/src\<close>) collects metadata about the instance, its
  containers and its Kubernetes cluster, keeps it in a store, serves it over a local HTTP API and reports
  it to the Stackdriver service.  This development models the agent's own code and proves what makes each
  part correct.

  \<^bold>\<open>Parts and how they interact.\<close>  \<^verbatim>\<open>main\<close> (\<open>Agent\<close>) reads the configuration (\<open>Configuration\<close>), starts three
  updaters and then the server and the reporter.  An updater (\<open>Updater\<close>) validates, starts a thread and
  stores the results of its queries: the instance (\<open>Instance\<close>), Docker (\<open>Docker\<close>) and Kubernetes (\<open>Kubernetes\<close>,
  \<open>Kubernetes_Updater\<close>, \<open>Kubernetes_Watch\<close>).  The readers use the environment (\<open>Environment\<close>), which caches what the
  configuration, the credentials and the metadata server say, and the JSON library (\<open>Json\<close>).  The store
  (\<open>Store\<close>) maps ids to resources (\<open>Resource\<close>) and resources to metadata.  The API server (\<open>Api_Server\<close>)
  answers from the store and from the health checker (\<open>Health_Checker\<close>).  The reporter (\<open>Reporter\<close>) sends
  the store's metadata in batches, authorised by \<open>OAuth2\<close>, and purges deleted entries.  Shared utilities
  are \<open>Format\<close>, \<open>Base64\<close>, \<open>Agent_Time\<close> with \<open>Double\<close>, \<open>Util\<close> and \<open>Logging\<close>.

  \<^bold>\<open>Conventions.\<close>
  \<^item> A C++ function that may throw is a function into a sum; a method that also changes its object is
    \<open>'s \<Rightarrow> ('e + 'a) \<times> 's\<close> (\<open>meth\<close> in \<open>Prelude\<close>), and keeps the state it reached when it throws.  \<open>catchM\<close> is a
    try block.  What ends the process (an exception that a specification excludes, the use of a null
    pointer) is an error value of its own: \<open>Crashed\<close> for the readers, \<open>None\<close> in \<open>start_error\<close>.
    Undefined behaviour (unlocking a mutex that is not locked, an out-of-range table) is \<open>None\<close>.
  \<^item> A \<^verbatim>\<open>std::map\<close> is the list of its pairs in iteration order (\<open>Std_Map\<close>), with the contract \<open>dictionary\<close>.
  \<^item> Code that is not in the repository is a parameter: the HTTP client, clock, files and environment
    variables (\<open>platform\<close>), the C library's calendar (\<open>libc\<close>), yajl (\<open>yajl\<close>, with its documented behaviour
    as the hypotheses \<open>yajl_incremental\<close> and \<open>yajl_reads_back\<close>), yaml-cpp, boost program options, OpenSSL
    (\<open>openssl\<close>, with the hypothesis \<open>openssl_contract\<close>, behind the signature of \<open>crypto\<close>), the local time zone,
    \<^verbatim>\<open>boost::algorithm::join\<close>, the streaming HTTP client of the watches,
    and the protocol handler of cpp-netlib (\<open>netlib\<close>, with the hypothesis \<open>netlib_contract\<close>).  The outside world
    is a state \<open>'w\<close> that these change.
  \<^item> Threads interleave through the store and their timers.  Every operation of the store is atomic under
    its mutexes (which \<open>Lock_Order\<close> shows free of deadlock), so a run is a list of operations (\<open>store_op\<close>), and the properties of the store hold for
    every list.  A turn of the reporter takes the operations that other threads perform while it sends.
    The polling thread and the calls to it are a step relation (\<open>poll_step\<close>), and so are the thread of the
    reporter (\<open>reporter_step\<close>), the service and the timers of a watch (\<open>service_step\<close>), the methods of the
    Kubernetes reader (\<open>reader_step\<close>), and the completions and the timer of a Unix-domain connection (\<open>conn_step\<close>).
  \<^item> Integers keep their width where it matters (32-bit buffers of \<open>Base64\<close>, the casts of \<open>Agent_Time\<close>, the sizes
    of the requests in \<open>Reporter\<close>, which are narrowed to \<^verbatim>\<open>int\<close> and whose overflow is the undefined \<open>Overflow\<close>).

  \<^bold>\<open>Bounds.\<close>  Two computations of the program may not end and take a bound, with the outcome \<open>OutOfFuel\<close>:
  the search for the top-level controller, for which one more than the length of the chain of owners is
  enough (\<open>FindTopLevelController_correct\<close>), and the reconnecting loop of a watch, for which the
  configured number of retries is enough when it is positive (\<open>WatchMaster_bounded\<close>) and nothing is when it
  is not (\<open>WatchMaster_refused\<close>).  All other loops are total functions.

  \<^bold>\<open>What the theories hold.\<close>
  \<^item> \<open>Prelude\<close>, \<open>Std_Map\<close>: exceptions, methods and their rules (\<open>keeps\<close>, \<open>throws\<close>, \<open>gives\<close>), \<^verbatim>\<open>std::string\<close>, maps.
  \<^item> \<open>Json\<close> (\<^verbatim>\<open>json.h\<close>, \<^verbatim>\<open>json.cc\<close>): values, accessors, serialisation, the callbacks of the parser; round trip,
    well-formedness of parsed values, independence of the read size.
  \<^item> \<open>Format\<close>, \<open>Base64\<close>, \<open>Resource\<close>, \<open>Util\<close>, \<open>Agent_Time\<close>: templates; base64url and its inverse; resources, their
    order and JSON form; retries; RFC 3339 times with the rounding of the fraction, timers, expirations.
  \<^item> \<open>Store\<close>: the three maps refine their specification over any history; what lookups, the reporter's map
    and the collection times return.
  \<^item> \<open>Configuration\<close>, \<open>Environment\<close>, \<open>OAuth2\<close>: precedence of option values; cached lookups; tokens and their reuse.
  \<^item> \<open>Updater\<close>, \<open>Health_Checker\<close>, \<open>Api_Server\<close>, \<open>Reporter\<close>: start and stop of polling, unhealthy components, the
    two endpoints, batches and purges.
  \<^item> \<open>Instance\<close>, \<open>Docker\<close>: their queries and what leaves them.
  \<^item> \<open>Kubernetes\<close>: the reader with its caches, owners, and the metadata of nodes, pods and containers.
    \<open>Kubernetes_Updater\<close>: the service caches against the history of events, the polling query, the
    validation, the callbacks and the updater.  \<open>Kubernetes_Watch\<close>: the watcher against the chunking of the
    stream, the reconnecting loop and the watch threads.  \<open>Watch_Timers\<close>: why and when a connection of a
    watch ends, that silence ends it, and what the reads and timers left from one connection do to the next.  \<open>Kubernetes_Owners\<close>: runs of the
    reader, what its caches remember for the rest of a run, failures included.
  \<^item> \<open>Signing\<close>: the key and the signature of the token request over OpenSSL, and their failures.
  \<^item> \<open>Logging\<close> (with \<^verbatim>\<open>http_common.h\<close>): loggers, the shared stream, and what the lines of the log tell.
  \<^item> \<open>Lifecycle\<close>: the destructors of the objects with threads, and the thread of the reporter up to its end.
  \<^item> \<open>Agent\<close>: start and shutdown of the process.
  \<^item> \<open>Locking\<close>: commands that hold locks by scope, threads that run them, and why an order of the locks excludes
    deadlock.  \<open>Lock_Order\<close>: the mutexes of the agent and what each operation does with them; no deadlock, and
    the locks of the SIGTERM handler (the agent's own; it also calls library functions that are not safe in a
    handler, which is a finding and not modelled).
  \<^item> \<open>Local_Resolver\<close>, \<open>Local_Connection\<close> (\<^verbatim>\<open>asio/\<close>, \<^verbatim>\<open>http/\<close>): the Unix-domain HTTP client that the Docker reader
    uses, its resolver and the handlers of its connection; \<open>Local_Exchange\<close>: the invariant of a connection over
    all its runs, how an exchange ends, and the delivery of the body; \<open>Docker_Socket\<close>: the Docker reader over
    this client.
  \<^item> This theory: properties that span components.

  \<^bold>\<open>Not modelled.\<close>  The log statements inside the components (\<open>Logging\<close> models loggers, not what is said), except
  where one evaluates something that can throw.  The parse functions of cpp-netlib behind the Unix-domain
  client and the sockets of asio; apart from \<open>Docker_Socket\<close>, which composes the two, the readers see an HTTP
  client as a function of the request, not this connection.  In \<open>Kubernetes_Watch\<close> a connection that a timer
  ends is one whose chunks stop; the timers are in \<open>Watch_Timers\<close>, where chunks are not parsed
  and a handler takes any time.  The sockets
  of the HTTP server.  Destructors of objects without threads.  The thread that owns a timer's mutex (the
  mutexes held by scope are in \<open>Lock_Order\<close>).
\<close>

section \<open>A dead watch and the health endpoint\<close>

lemma SetUnhealthy_stays: "c \<in> set (unhealthy_components h) \<Longrightarrow> c \<in> set (unhealthy_components (fold SetUnhealthy later h))"
  by (induction later arbitrary: h) (simp_all add: SetUnhealthy_def)

lemma UnhealthyComponents_marked:
  "c \<in> set (unhealthy_components h) \<Longrightarrow> c \<in> set (UnhealthyComponents config store t h)"
  unfolding UnhealthyComponents_def Let_def by (simp add: fold_set_insert_if)

text \<open>
  C31.  A watch thread that ends is seen from outside: from then on, whatever else happens to the health
  checker and the store, the health endpoint answers 500.
\<close>

theorem ended_watch_fails_health:
  assumes "watch_thread component watch (Some h, s) = (Inr (), h', t)"
  shows "\<exists>h1. h' = Some h1 \<and>
    conn_status (Dispatcher (api_handlers z config store time (Some (fold SetUnhealthy later h1)))
      \<lparr>api_method = ''GET'', destination = ''/healthz''\<rparr> fresh_connection) = Some 500"
proof -
  have h': "h' = Some (SetUnhealthy component h)"
    using assms by (auto simp: watch_thread_def split: prod.splits sum.splits)
  have "component \<in> set (UnhealthyComponents config store time (fold SetUnhealthy later (SetUnhealthy component h)))"
    by (intro UnhealthyComponents_marked SetUnhealthy_stays) (simp add: SetUnhealthy_def)
  then show ?thesis
    using h' by (auto simp: Dispatcher_api HandleHealthz_def respond_def Let_def)
qed

theorem ended_watch_fails_health_witness:
  "conn_status (Dispatcher (api_handlers \<lparr>to_double = id, render = (\<lambda>e. [])\<rparr> instance_config empty_store 0
      (Some (fold SetUnhealthy [] \<lparr>unhealthy_components = [''kubernetes_pod_thread'']\<rparr>)))
      \<lparr>api_method = ''GET'', destination = ''/healthz''\<rparr> fresh_connection) = Some 500"
proof -
  have "watch_thread ''kubernetes_pod_thread'' (throwM (QueryException ''refused''))
      (Some \<lparr>unhealthy_components = []\<rparr>, KubernetesReader_new, Environment_new, ())
    = (Inr (), Some \<lparr>unhealthy_components = [''kubernetes_pod_thread'']\<rparr>, KubernetesReader_new, Environment_new, ())"
    by (simp add: watch_thread_def or_else_def catchM_def meth_simps is_logged_def is_query_failure_def SetUnhealthy_def)
  from ended_watch_fails_health [OF this] show ?thesis by blast
qed

section \<open>The health endpoint over the history of the agent\<close>

lemma fold_SetUnhealthy: "set (unhealthy_components (fold SetUnhealthy cs h)) = set cs \<union> set (unhealthy_components h)"
  by (induction cs arbitrary: h) (auto simp: SetUnhealthy_def)

text \<open>
  C23.  From its start on, whatever the updaters have done to the store and to the health checker, the agent
  answers the health endpoint with 200 exactly when no component has been marked and every resource type
  that was ever collected was collected at some time not before the maximal age; otherwise with 500.
\<close>

theorem healthz_exact:
  "conn_status (Dispatcher
       (api_handlers z config (fold store_step ops empty_store) t
          (Some (fold SetUnhealthy marked \<lparr>unhealthy_components = []\<rparr>)))
       \<lparr>api_method = ''GET'', destination = ''/healthz''\<rparr> fresh_connection) =
     Some (if marked = [] \<and> (\<nexists>x. outdated config ops t x) then 200 else 500)"
proof -
  let ?h = "fold SetUnhealthy marked \<lparr>unhealthy_components = []\<rparr>"
  have "UnhealthyComponents config (fold store_step ops empty_store) t ?h = [] \<longleftrightarrow>
      marked = [] \<and> (\<nexists>x. outdated config ops t x)"
    unfolding set_empty [symmetric] set_UnhealthyComponents fold_SetUnhealthy by simp
  then show ?thesis by (simp add: Dispatcher_api HandleHealthz_def respond_def Let_def)
qed

section \<open>Polls and events in the store\<close>

lemma MetadataCallback_apply: "MetadataCallback rs store = apply_results rs store"
  by (induction rs arbitrary: store) (simp_all add: MetadataCallback_def)

text \<open>The last result of a poll or an event, unless it is ignored, is what the store has for its resource.\<close>

lemma last_result_stored:
  assumes "\<not> ignore (rm_metadata p)"
  shows "map_of (GetMetadataMap (MetadataCallback (rs @ [p]) (fold store_step ops empty_store))) (rm_resource p) =
    Some (Metadata_Clone (rm_metadata p))"
proof -
  let ?ops = "ops @ concat (map result_ops rs) @ [Op_UpdateResource (rm_ids p) (rm_resource p)]"
  let ?s = "fold store_step (?ops @ [Op_UpdateMetadata (rm_resource p) (rm_metadata p)]) empty_store"
  have store: "MetadataCallback (rs @ [p]) (fold store_step ops empty_store) = ?s"
    by (simp add: MetadataCallback_apply apply_results_ops)
  have "spec_entries (abs_store ?s) =
      (spec_entries (abs_store (fold store_step ?ops empty_store)))(rm_resource p \<mapsto> rm_metadata p)"
    unfolding ms.abs_snoc using assms by simp
  then have "map_of (metadata_map ?s) (rm_resource p) = Some (rm_metadata p)" by (simp add: abs_store_def)
  then show ?thesis unfolding store by (simp only: map_of_GetMetadataMap [OF store_ok_run] option.map)
qed

lemma apply_results_history:
  "apply_results rs (fold store_step ops empty_store) = fold store_step (ops @ concat (map result_ops rs)) empty_store"
  by (simp add: apply_results_ops)

text \<open>
  After a poll of the instance updater the empty id, if nothing else was registered under it, is the
  instance's resource, and the ignored metadata of the result has changed nothing the reporter sends.
\<close>

theorem instance_poll_default_resource:
  assumes "Instance_MetadataQuery H config s = (Inr rs, t)" and "[] \<notin> fst ` set (concat (map bindings ops))"
  shows "\<exists>type id zone. id \<noteq> [] \<and> zone \<noteq> []
    \<and> LookupResource (apply_results rs (fold store_step ops empty_store)) []
        = Inr (MonitoredResource type [(''instance_id'', id), (''zone'', zone)])
    \<and> GetMetadataMap (apply_results rs (fold store_step ops empty_store)) = GetMetadataMap (fold store_step ops empty_store)"
proof -
  obtain type id zone i where ne: "id \<noteq> []" "zone \<noteq> []"
    and rs: "rs = [\<lparr>rm_ids = [[], i], rm_resource = make_resource type [(''instance_id'', id), (''zone'', zone)],
      rm_metadata = IGNORED\<rparr>]"
    using assms(1) by (auto simp: Instance_MetadataQuery_def meth_results returnM_def elim: InstanceResource_Inr)
  let ?r = "MonitoredResource type [(''instance_id'', id), (''zone'', zone)]"
  let ?s = "fold store_step ops empty_store"
  have r: "make_resource type [(''instance_id'', id), (''zone'', zone)] = ?r"
    by (simp add: make_resource_def map_emplace_all_def less_char_def)
  let ?ops = "ops @ concat (map result_ops rs)"
  have "map_of (concat (map bindings ops)) [] = None"
    using assms(2) by (simp add: map_of_eq_None_iff)
  then have "map_of (concat (map bindings ?ops)) [] = Some ?r"
    by (simp add: rs r map_add_def)
  with ms.ids_run [of ?ops "[]"] have "map_of (resource_map (fold store_step ?ops empty_store)) [] = Some ?r"
    by (simp only: abs_store_def store_spec.simps)
  then have "LookupResource (apply_results rs ?s) [] = Inr ?r"
    unfolding apply_results_history LookupResource_def by simp
  moreover have "GetMetadataMap (apply_results rs ?s) = GetMetadataMap ?s"
    by (simp add: rs UpdateResourceCallback_def UpdateMetadataCallback_def UpdateResource_def UpdateMetadata_def
        IGNORED_def GetMetadataMap_def)
  ultimately show ?thesis using ne by blast
qed

theorem instance_poll_default_resource_witness:
  "\<exists>rs t. Instance_MetadataQuery offline_host instance_config (known_environment, ()) = (Inr rs, t)
    \<and> (\<exists>type id zone. LookupResource (apply_results rs (fold store_step [] empty_store)) []
        = Inr (MonitoredResource type [(''instance_id'', id), (''zone'', zone)]))"
proof -
  have "\<exists>rs t. Instance_MetadataQuery offline_host instance_config (known_environment, ()) = (Inr rs, t)"
    by (simp add: Instance_MetadataQuery_def InstanceResource_def meth_simps env_get_def
        InstanceResourceType_def InstanceId_def InstanceZone_def known_environment_def)
  then obtain rs t where q: "Instance_MetadataQuery offline_host instance_config (known_environment, ()) = (Inr rs, t)"
    by blast
  from instance_poll_default_resource [OF q, of "[]"] obtain type id zone where
    "LookupResource (apply_results rs (fold store_step [] empty_store)) []
      = Inr (MonitoredResource type [(''instance_id'', id), (''zone'', zone)])" by auto
  with q show ?thesis by blast
qed

text \<open>
  C15.  What a pod event, or a poll that finds the pod, leaves in a store with any history: the pod's
  resource has the entry with the deletion flag and the collection time of the event, every id of the pod
  resolves, and a purge right after it removes the entry exactly for a deletion.
\<close>

theorem pod_event_stored:
  assumes "GetPodAndContainerMetadata fuel H config pod collected deleted s = (Inr rs, s')"
  shows "\<exists>p store. store = MetadataCallback rs (fold store_step ops empty_store) \<and> pod_entry H config pod collected deleted p
    \<and> map_of (GetMetadataMap store) (rm_resource p) = Some (Metadata_Clone (rm_metadata p))
    \<and> (map_of (GetMetadataMap (PurgeDeletedEntries store)) (rm_resource p) = None \<longleftrightarrow> deleted)
    \<and> (\<forall>i \<in> set (rm_ids p). \<exists>r. LookupResource store i = Inr r)"
proof -
  obtain cs p where rs: "rs = cs @ [p]" and p: "pod_entry H config pod collected deleted p"
    using GetPodAndContainerMetadata_result [OF assms] by blast
  then have live: "\<not> ignore (rm_metadata p)" "is_deleted (rm_metadata p) = deleted" by (auto simp: pod_entry_def)
  let ?ops = "ops @ concat (map result_ops cs) @ [Op_UpdateResource (rm_ids p) (rm_resource p)]"
  let ?s = "fold store_step (?ops @ [Op_UpdateMetadata (rm_resource p) (rm_metadata p)]) empty_store"
  let ?p = "fold store_step (?ops @ [Op_UpdateMetadata (rm_resource p) (rm_metadata p)] @ [Op_PurgeDeletedEntries]) empty_store"
  have store: "MetadataCallback rs (fold store_step ops empty_store) = ?s" "PurgeDeletedEntries ?s = ?p"
    by (simp_all add: MetadataCallback_apply apply_results_ops rs)
  have "map_of (GetMetadataMap ?s) (rm_resource p) = Some (Metadata_Clone (rm_metadata p))"
    using last_result_stored [of p cs ops] live unfolding store(1) [symmetric] rs by blast
  moreover have "map_of (GetMetadataMap ?p) (rm_resource p) = None \<longleftrightarrow> deleted"
  proof -
    have "spec_entries (abs_store ?p) (rm_resource p) = (if deleted then None else Some (rm_metadata p))"
      unfolding append_assoc [symmetric] ms.abs_snoc using live by simp
    then show ?thesis
      unfolding map_of_GetMetadataMap [OF store_ok_run] by (simp add: abs_store_def split: if_splits)
  qed
  moreover have "\<exists>r. LookupResource ?s i = Inr r" if "i \<in> set (rm_ids p)" for i
  proof -
    have "spec_ids (abs_store ?s) i \<noteq> None"
      unfolding append_assoc [symmetric] ms.abs_snoc using that live by simp
    then show ?thesis by (auto simp: LookupResource_def abs_store_def)
  qed
  ultimately show ?thesis unfolding store [symmetric] using p by blast
qed

theorem pod_event_stored_witness:
  "\<exists>rs p. pod_entry offline_host cluster_config running_pod 5 True p
    \<and> map_of (GetMetadataMap (MetadataCallback rs (fold store_step [] empty_store))) (rm_resource p)
        = Some (Metadata_Clone (rm_metadata p))
    \<and> map_of (GetMetadataMap (PurgeDeletedEntries (MetadataCallback rs (fold store_step [] empty_store)))) (rm_resource p) = None"
proof -
  obtain rs t where q: "GetPodAndContainerMetadata 0 offline_host cluster_config running_pod 5 True
       (KubernetesReader_new, known_environment, ()) = (Inr rs, t)"
    using running_pod_described by blast
  from pod_event_stored [OF q, of "[]"] show ?thesis by blast
qed

text \<open>
  C16.  From a pod event to the report: when the reporter copies the store after a pod event, with any history
  before it, knows its endpoint and its authorization, no size leaves the range of \<^verbatim>\<open>int\<close>, and the report
  succeeds, then it made one successful request for each of the batches of this copy; and the entry of the pod,
  with the flag and the time of the event, is in one of these batches exactly when it fits in a request of its own.
\<close>

theorem pod_event_reported:
  assumes "GetPodAndContainerMetadata fuel H config pod collected deleted s = (Inr rs, s')"
    and "ProjectId P config (env, w) = (project, env', w')"
    and "Substitute (metadata_ingestion_endpoint_format config) [(''project_id'', project)] = Inr endpoint"
    and "GetAuthHeaderValue P K config (auth, env', w') = (Inr auth_header, t)"
    and "sizes_in_range (generator P) config
      (GetMetadataMap (MetadataCallback rs (fold store_step ops empty_store)))"
    and "SendMetadata P K config (GetMetadataMap (MetadataCallback rs (fold store_step ops empty_store)))
      (auth, env, w) = (Inr (), u)"
  shows "\<exists>p. pod_entry H config pod collected deleted p
    \<and> (let bs = sent_batches (generator P) config
             (GetMetadataMap (MetadataCallback rs (fold store_step ops empty_store)));
           e = metadata_entry (rm_resource p) (Metadata_Clone (rm_metadata p))
       in iterM (SendMetadataRequest P endpoint auth_header (metadata_reporter_user_agent config)) bs t = (Inr (), u)
        \<and> (e \<in> set (concat bs) \<longleftrightarrow>
            size_of (generator P) empty_request + size_of (generator P) e
              \<le> metadata_ingestion_request_size_limit_bytes config))"
proof -
  obtain cs p where rs: "rs = cs @ [p]" and p: "pod_entry H config pod collected deleted p"
    using GetPodAndContainerMetadata_result [OF assms(1)] by blast
  let ?md = "GetMetadataMap (MetadataCallback rs (fold store_step ops empty_store))"
  let ?e = "metadata_entry (rm_resource p) (Metadata_Clone (rm_metadata p))"
  have "(rm_resource p, Metadata_Clone (rm_metadata p)) \<in> set ?md"
    using last_result_stored [of p cs ops] p unfolding rs pod_entry_def by (blast dest: map_of_SomeD)
  then have "?md \<noteq> []" and e: "?e \<in> set (map (\<lambda>(r, m). metadata_entry r m) ?md)" by force+
  have "?e \<in> set (concat (sent_batches (generator P) config ?md)) \<longleftrightarrow>
      size_of (generator P) empty_request + size_of (generator P) ?e
        \<le> metadata_ingestion_request_size_limit_bytes config"
    unfolding concat_sent_batches using e by (simp only: set_filter mem_Collect_eq) blast
  moreover have "iterM (SendMetadataRequest P endpoint auth_header (metadata_reporter_user_agent config))
      (sent_batches (generator P) config ?md) t = (Inr (), u)"
    using SendMetadata_sends [OF \<open>?md \<noteq> []\<close> assms(2-5)] assms(6) by (rule subst)
  ultimately show ?thesis using p unfolding Let_def by blast
qed

text \<open>A network that answers every request, with a generator whose texts are short.\<close>

definition short_texts :: serializer where
  "short_texts = \<lparr>to_double = id, render = (\<lambda>evs. replicate (min (length evs) 100) CHR ''x'')\<rparr>"

lemma short_sizes: "size_of short_texts v \<le> 100"
  by (simp add: size_of_def ToString_def short_texts_def)

lemma short_prologue:
  "ProjectId (online\<lparr>generator := short_texts\<rparr>) test_config (test_env, w) = (''p'', test_env, w)"
  "GetAuthHeaderValue (online\<lparr>generator := short_texts\<rparr>) test_crypto test_config (test_auth, test_env, w) =
     (Inr ''Bearer T'', test_auth, test_env, w)"
  by (simp_all add: ProjectId_def test_env_def GetAuthHeaderValue_def test_auth_def online_def
      IsExpired_def OAuth2_new_def)

lemma short_sends:
  "\<exists>w'. iterM (SendMetadataRequest (online\<lparr>generator := short_texts\<rparr>) x y z) bs (test_auth, test_env, w) =
     (Inr (), test_auth, test_env, w')"
proof (induction bs arbitrary: w)
  case (Cons b bs)
  obtain w1 where "SendMetadataRequest (online\<lparr>generator := short_texts\<rparr>) x y z b (test_auth, test_env, w) =
      (Inr (), test_auth, test_env, w1)"
    by (simp add: SendMetadataRequest_def Let_def online_def)
  with Cons [of w1] show ?case by (simp add: meth_simps)
qed (simp add: meth_simps)

lemma short_range: "sizes_in_range short_texts test_config md"
proof -
  have "size_of short_texts empty_request + size_of short_texts v < 2 ^ 31" for v
    using short_sizes [of empty_request] short_sizes [of v] by simp
  then show ?thesis by (simp add: sizes_in_range_def test_config_limits list_all_iff)
qed

lemma short_report:
  "\<exists>u. SendMetadata (online\<lparr>generator := short_texts\<rparr>) test_crypto test_config md (test_auth, test_env, []) = (Inr (), u)"
proof (cases "md = []")
  case True
  then show ?thesis by (simp add: SendMetadata_empty)
next
  case False
  have "Substitute (metadata_ingestion_endpoint_format test_config) [(''project_id'', ''p'')] = Inr ''e''"
    by (simp add: test_config_limits test_substitute)
  from SendMetadata_sends [OF False short_prologue(1) this short_prologue(2)] short_range
  have "SendMetadata (online\<lparr>generator := short_texts\<rparr>) test_crypto test_config md (test_auth, test_env, []) =
      iterM (SendMetadataRequest (online\<lparr>generator := short_texts\<rparr>) ''e'' ''Bearer T''
        (metadata_reporter_user_agent test_config)) (sent_batches short_texts test_config md) (test_auth, test_env, [])"
    by simp
  with short_sends show ?thesis by metis
qed

theorem pod_event_reported_witness:
  "\<exists>rs p. pod_entry offline_host test_config running_pod 5 True p
    \<and> metadata_entry (rm_resource p) (Metadata_Clone (rm_metadata p)) \<in>
        set (concat (sent_batches short_texts test_config
          (GetMetadataMap (MetadataCallback rs (fold store_step [] empty_store)))))"
proof -
  let ?P = "online\<lparr>generator := short_texts\<rparr>"
  obtain rs t where q: "GetPodAndContainerMetadata 0 offline_host test_config running_pod 5 True
       (KubernetesReader_new, known_environment, ()) = (Inr rs, t)"
    using running_pod_described by blast
  let ?md = "GetMetadataMap (MetadataCallback rs (fold store_step [] empty_store))"
  have sub: "Substitute (metadata_ingestion_endpoint_format test_config) [(''project_id'', ''p'')] = Inr ''e''"
    by (simp add: test_config_limits test_substitute)
  have range: "sizes_in_range (generator ?P) test_config ?md" using short_range by simp
  obtain u where sent: "SendMetadata ?P test_crypto test_config ?md (test_auth, test_env, []) = (Inr (), u)"
    using short_report by blast
  have fits: "size_of short_texts empty_request + size_of short_texts e
      \<le> metadata_ingestion_request_size_limit_bytes test_config" for e
    using short_sizes [of empty_request] short_sizes [of e] by (simp add: test_config_limits)
  have "generator ?P = short_texts" by simp
  with pod_event_reported [OF q short_prologue(1) sub short_prologue(2) range sent] fits
  show ?thesis unfolding Let_def by (metis (no_types, lifting))
qed

end
